(* ===== verification/Runs.thy ===== *)
theory Runs
  imports Main
begin

text \<open>
  What all runs of the development have in common, as contracts. \<open>runs\<close> is a step relation on events with
  its runs, \<open>event_runs\<close> a partial function on events with its runs, and \<open>exec_runs\<close> a function that
  computes steps of a relation, so that a computed run is one of the relation. Each theory with a step
  relation or a function on events interprets them on its own definitions.
\<close>

locale runs =
  fixes step :: "'s \<Rightarrow> 'e \<Rightarrow> 's \<Rightarrow> bool" and steps :: "'s \<Rightarrow> 'e list \<Rightarrow> 's \<Rightarrow> bool"
  assumes steps_none: "steps s [] u \<longleftrightarrow> u = s"
    and steps_some: "steps s (e # es) u \<longleftrightarrow> (\<exists>t. step s e t \<and> steps t es u)"
begin

lemma steps_append: "steps s (es @ fs) u \<longleftrightarrow> (\<exists>t. steps s es t \<and> steps t fs u)"
  by (induction es arbitrary: s) (auto simp: steps_none steps_some)

lemma steps_snoc: "steps s (es @ [e]) u \<longleftrightarrow> (\<exists>t. steps s es t \<and> step t e u)"
  by (simp add: steps_append steps_none steps_some)

text \<open>What the steps with events from a set keep, a run with such events keeps.\<close>

lemma steps_keep_on:
  assumes "steps s es t" and "P s" and "\<And>e. e \<in> set es \<Longrightarrow> Q e"
    and "\<And>s e t. step s e t \<Longrightarrow> Q e \<Longrightarrow> P s \<Longrightarrow> P t"
  shows "P t"
  using assms(1-3)
proof (induction es arbitrary: s)
  case (Cons e es)
  from Cons.prems(1) obtain u where u: "step s e u" "steps u es t" by (auto simp: steps_some)
  from Cons.prems(3) have "P u" by (intro assms(4) [OF u(1) _ Cons.prems(2)]) simp
  with u(2) show ?case by (rule Cons.IH) (use Cons.prems(3) in simp)
qed (simp add: steps_none)

lemma steps_keep:
  assumes "steps s es t" and "P s" and "\<And>s e t. step s e t \<Longrightarrow> P s \<Longrightarrow> P t"
  shows "P t"
  using assms(1,2) by (rule steps_keep_on [where Q = "\<lambda>_. True"]) (simp_all add: assms(3))

end

locale event_runs =
  fixes act :: "'e \<Rightarrow> 's \<Rightarrow> 's option" and run :: "'e list \<Rightarrow> 's \<Rightarrow> 's option"
  assumes run_none: "run [] s = Some s"
    and run_some: "run (e # es) s = (case act e s of None \<Rightarrow> None | Some t \<Rightarrow> run es t)"
begin

lemma run_append: "run (es @ fs) s = (case run es s of None \<Rightarrow> None | Some t \<Rightarrow> run fs t)"
  by (induction es arbitrary: s) (auto simp: run_none run_some split: option.split)

lemma run_keep_on:
  assumes "run es s = Some t" and "P s" and "\<And>e. e \<in> set es \<Longrightarrow> Q e"
    and "\<And>e s t. act e s = Some t \<Longrightarrow> Q e \<Longrightarrow> P s \<Longrightarrow> P t"
  shows "P t"
  using assms(1-3)
proof (induction es arbitrary: s)
  case (Cons e es)
  from Cons.prems(1) obtain u where u: "act e s = Some u" "run es u = Some t"
    by (auto simp: run_some split: option.splits)
  from Cons.prems(3) have "P u" by (intro assms(4) [OF u(1) _ Cons.prems(2)]) simp
  with u(2) show ?case by (rule Cons.IH) (use Cons.prems(3) in simp)
qed (simp add: run_none)

lemma run_keep:
  assumes "run es s = Some t" and "P s" and "\<And>e s t. act e s = Some t \<Longrightarrow> P s \<Longrightarrow> P t"
  shows "P t"
  using assms(1,2) by (rule run_keep_on [where Q = "\<lambda>_. True"]) (simp_all add: assms(3))

end

locale exec_runs = runs step steps + event_runs act run
  for step :: "'s \<Rightarrow> 'e \<Rightarrow> 's \<Rightarrow> bool" and steps :: "'s \<Rightarrow> 'e list \<Rightarrow> 's \<Rightarrow> bool"
    and act :: "'e \<Rightarrow> 's \<Rightarrow> 's option" and run :: "'e list \<Rightarrow> 's \<Rightarrow> 's option" +
  assumes act_step: "act e s = Some t \<Longrightarrow> step s e t"
begin

lemma run_steps: "run es s = Some t \<Longrightarrow> steps s es t"
  by (induction es arbitrary: s)
    (auto simp: run_none run_some steps_none steps_some split: option.splits dest: act_step)

end

end
