(* ===== verification/Go_Base.thy ===== *)
theory Go_Base
  imports Main Runs "HOL-Library.Word"
begin

text \<open>
  The prelude: the parts of Go that every component of ShareSerial uses and that the other
  theories share. It holds the byte and error types, the panics of the run-time system
  (values of a sum, so that a panic is a branch of the model), the truncating \<open>copy\<close>, the
  \<open>s[len(s)-n:]\<close> tail slice, buffered channels, and the collections of simplification
  rules that carry the component proofs.

  Conventions. A method with a pointer receiver takes the record and returns the updated
  one. A result \<open>(T, error)\<close> is \<open>go_error + 'a\<close>, or a pair with an error option where the
  code returns a value beside the error. A \<open>Read(buf)\<close> takes the length of \<open>buf\<close> and
  returns the bytes \<open>buf[:n]\<close>. The type \<open>int\<close> of Go is 64 bits wide; \<open>wrap64\<close> is applied
  wherever an operation of the source can leave that range.
\<close>

named_theorems go_simps "unfolding rules of the Go run-time model"
named_theorems go_defs "definitions of the operations of a component"

subsection \<open>Bytes, errors and panics\<close>

type_synonym byte = "8 word"
type_synonym bytes = "8 word list"

datatype go_error =
    IoEOF                  \<comment> \<open>\<open>io.EOF\<close>\<close>
  | ErrorString string     \<comment> \<open>\<open>errors.New\<close>, \<open>fmt.Errorf\<close>\<close>
  | SysError string        \<comment> \<open>an error of the operating system or of a third-party package\<close>

text \<open>The method \<open>Error\<close>, which \<open>%v\<close> prints.\<close>

fun go_Error :: "go_error \<Rightarrow> string" where
  "go_Error IoEOF = ''EOF''"
| "go_Error (ErrorString s) = s"
| "go_Error (SysError s) = s"

datatype go_panic =
    IndexOutOfRange
  | SliceBounds
  | SendOnClosed
  | CloseOfClosed
  | NilDereference
  | DivideByZero
  | RegexpCompile

definition is_ok :: "'e + 'a \<Rightarrow> bool" where
  "is_ok r = (case r of Inl _ \<Rightarrow> False | Inr _ \<Rightarrow> True)"

lemma is_ok_simps [simp, go_simps]: "is_ok (Inl e) = False" "is_ok (Inr x) = True"
  by (simp_all add: is_ok_def)

definition payload :: "'e + 'a list \<Rightarrow> 'a list" where
  "payload r = (case r of Inl _ \<Rightarrow> [] | Inr d \<Rightarrow> d)"

lemma payload_simps [simp, go_simps]: "payload (Inl e) = []" "payload (Inr d) = d"
  by (simp_all add: payload_def)

subsection \<open>Machine integers\<close>

definition wrap64 :: "int \<Rightarrow> int" where
  "wrap64 x = signed_take_bit 63 x"

lemma wrap64_id: "- (2 ^ 63) \<le> x \<Longrightarrow> x < 2 ^ 63 \<Longrightarrow> wrap64 x = x"
  by (simp add: wrap64_def signed_take_bit_int_eq_self)

lemma wrap64_range: "- (2 ^ 63) \<le> wrap64 x \<and> wrap64 x < 2 ^ 63"
  unfolding wrap64_def
  using signed_take_bit_int_greater_eq_minus_exp [of 63 x] signed_take_bit_int_less_exp [of 63 x]
  by simp

subsection \<open>Slices\<close>

text \<open>
  \<open>n := copy(buf, src)\<close> moves \<open>min (len buf) (len src)\<close> bytes: the copied part is
  \<open>take (len buf) src\<close> and \<open>src[n:]\<close> is what stays.
\<close>

definition go_copy :: "nat \<Rightarrow> 'a list \<Rightarrow> 'a list \<times> 'a list" where
  "go_copy n src = (take n src, drop (length (take n src)) src)"

lemma go_copy_eq [go_simps]: "go_copy n src = (take n src, drop n src)"
  by (cases "n \<le> length src") (simp_all add: go_copy_def)

text \<open>The slice \<open>xs[len(xs)-n:]\<close> for \<open>n \<le> len(xs)\<close>: the last \<open>n\<close> elements.\<close>

definition keep_last :: "nat \<Rightarrow> 'a list \<Rightarrow> 'a list" where
  "keep_last n xs = drop (length xs - n) xs"

lemma length_keep_last [simp]: "length (keep_last n xs) = min n (length xs)"
  by (auto simp: keep_last_def)

lemma keep_last_short [simp]: "length xs \<le> n \<Longrightarrow> keep_last n xs = xs"
  by (simp add: keep_last_def)

lemma keep_last_append_long: "n \<le> length ys \<Longrightarrow> keep_last n (xs @ ys) = keep_last n ys"
  by (simp add: keep_last_def)

lemma keep_last_append_keep: "keep_last n (keep_last n xs @ ys) = keep_last n (xs @ ys)"
proof (cases "length xs \<le> n")
  case True
  then show ?thesis by simp
next
  case False
  then have "xs = take (length xs - n) xs @ keep_last n xs"
    by (simp add: keep_last_def)
  with False show ?thesis
    by (auto simp: keep_last_def add.commute)
qed

lemma keep_last_suffix: "\<exists>pre. xs = pre @ keep_last n xs"
  by (rule exI [of _ "take (length xs - n) xs"]) (simp add: keep_last_def)

subsection \<open>Buffered channels\<close>

text \<open>
  A channel made by \<open>make(chan T, cap)\<close>: the queued elements, the capacity and the closed
  flag. A send on a closed channel panics, a send on a full one blocks (\<open>None\<close>); a receive
  takes the oldest element, blocks on an empty open channel, and ends the \<open>range\<close> loop on a
  closed and drained one; closing twice panics.
\<close>

record 'a chan =
  ch_buf :: "'a list"
  ch_cap :: nat
  ch_closed :: bool

definition make_chan :: "nat \<Rightarrow> 'a chan" where
  "make_chan c = \<lparr>ch_buf = [], ch_cap = c, ch_closed = False\<rparr>"

definition chan_send :: "'a \<Rightarrow> 'a chan \<Rightarrow> go_panic + 'a chan option" where
  "chan_send x c =
     (if ch_closed c then Inl SendOnClosed
      else if length (ch_buf c) < ch_cap c then Inr (Some (c\<lparr>ch_buf := ch_buf c @ [x]\<rparr>))
      else Inr None)"

datatype 'a received = Blocked | ClosedChan | Got 'a

definition chan_recv :: "'a chan \<Rightarrow> 'a received \<times> 'a chan" where
  "chan_recv c =
     (case ch_buf c of
        x # xs \<Rightarrow> (Got x, c\<lparr>ch_buf := xs\<rparr>)
      | [] \<Rightarrow> (if ch_closed c then ClosedChan else Blocked, c))"

definition chan_close :: "'a chan \<Rightarrow> go_panic + 'a chan" where
  "chan_close c = (if ch_closed c then Inl CloseOfClosed else Inr (c\<lparr>ch_closed := True\<rparr>))"

definition chan_wf :: "'a chan \<Rightarrow> bool" where
  "chan_wf c \<longleftrightarrow> length (ch_buf c) \<le> ch_cap c"

lemma make_chan_wf [simp]: "chan_wf (make_chan c)"
  by (simp add: chan_wf_def make_chan_def)

lemma make_chan_sel [simp]:
  "ch_buf (make_chan c) = []" "ch_cap (make_chan c) = c" "\<not> ch_closed (make_chan c)"
  by (simp_all add: make_chan_def)

lemma chan_send_Some:
  "chan_send x c = Inr (Some c') \<longleftrightarrow>
     \<not> ch_closed c \<and> length (ch_buf c) < ch_cap c \<and> c' = c\<lparr>ch_buf := ch_buf c @ [x]\<rparr>"
  by (auto simp: chan_send_def)

lemma chan_send_wf: "chan_wf c \<Longrightarrow> chan_send x c = Inr (Some c') \<Longrightarrow> chan_wf c'"
  by (auto simp: chan_send_Some chan_wf_def)

lemma chan_recv_Got:
  "chan_recv c = (Got x, c') \<longleftrightarrow> (\<exists>xs. ch_buf c = x # xs \<and> c' = c\<lparr>ch_buf := xs\<rparr>)"
  by (auto simp: chan_recv_def split: list.splits)

lemma chan_recv_wf: "chan_wf c \<Longrightarrow> chan_wf (snd (chan_recv c))"
  by (auto simp: chan_recv_def chan_wf_def split: list.splits)

lemma chan_recv_Closed:
  "chan_recv c = (ClosedChan, c') \<longleftrightarrow> ch_buf c = [] \<and> ch_closed c \<and> c' = c"
  by (auto simp: chan_recv_def split: list.splits)

end
