(* ===== verification/Arbiter.thy ===== *)
theory Arbiter
  imports Go_Base
begin

text \<open>
  The write-lock arbiter, \<open>pkg/arbiter/arbiter.go\<close>. The record \<open>arbiter\<close> has the fields of the
  Go struct (without its mutex: every method and every timer callback holds it throughout, so
  each is one atomic step). The timers that \<open>time.AfterFunc\<close> creates live in \<open>arb_sys\<close>
  beside the clock: a timer is armed until it is stopped or falls due; a due timer fires, which
  starts a goroutine that runs the callback at some later moment, and \<open>Stop\<close> does not reach a
  timer that has fired. The three run-time events (time passing, firing, callback) are
  operations of the model, so that every interleaving with the methods is a sequence of events.

  The theory proves the invariant between the struct and its timers, that only the holder can
  release or extend, that a lock whose deadline has passed is gone once the due timers have
  run, that the arbiter refines an abstract lock whose holder never changes hands directly, and
  the one interleaving in which a grant ends early. Its last part is the interface
  \<open>write_lock\<close> on which the TCP server relies.
\<close>

subsection \<open>State\<close>

datatype arb_error = ErrLockAlreadyHeld | ErrNotLockOwner | ErrLockNotHeld

record arbiter =
  arb_owner :: string
  arb_timeout :: int
  arb_expireTimer :: "nat option"
  arb_locked :: bool

datatype timer_status = Armed | Stopped | Fired | Finished

record timer =
  t_client :: string
  t_deadline :: int
  t_status :: timer_status

record arb_sys =
  arb :: arbiter
  timers :: "timer list"
  clock :: int

definition NewArbiter :: "int \<Rightarrow> arb_sys" where
  "NewArbiter timeout =
     \<lparr>arb = \<lparr>arb_owner = '''', arb_timeout = timeout, arb_expireTimer = None, arb_locked = False\<rparr>,
      timers = [], clock = 0\<rparr>"

subsection \<open>Timers of the run-time system\<close>

definition set_status :: "nat \<Rightarrow> timer_status \<Rightarrow> arb_sys \<Rightarrow> arb_sys" where
  "set_status i st s =
     (if i < length (timers s) then s\<lparr>timers := (timers s)[i := (timers s ! i)\<lparr>t_status := st\<rparr>]\<rparr>
      else s)"

text \<open>\<open>t.Stop()\<close> under the guard \<open>if a.expireTimer != nil\<close>.\<close>

definition stop_timer :: "nat option \<Rightarrow> arb_sys \<Rightarrow> arb_sys" where
  "stop_timer t s =
     (case t of
        None \<Rightarrow> s
      | Some i \<Rightarrow> (if i < length (timers s) \<and> t_status (timers s ! i) = Armed
                   then set_status i Stopped s else s))"

text \<open>\<open>time.AfterFunc(d, f)\<close>; a negative duration is due at once.\<close>

definition after_func :: "int \<Rightarrow> string \<Rightarrow> arb_sys \<Rightarrow> arb_sys \<times> nat" where
  "after_func d c s =
     (s\<lparr>timers := timers s @ [\<lparr>t_client = c, t_deadline = clock s + max 0 d, t_status = Armed\<rparr>]\<rparr>,
      length (timers s))"

subsection \<open>The methods\<close>

definition Acquire :: "string \<Rightarrow> arb_sys \<Rightarrow> arb_sys \<times> bool \<times> arb_error option" where
  "Acquire clientID s =
     (if arb_locked (arb s) then (s, False, Some ErrLockAlreadyHeld)
      else
        let s1 = s\<lparr>arb := (arb s)\<lparr>arb_owner := clientID, arb_locked := True\<rparr>\<rparr>;
            s2 = stop_timer (arb_expireTimer (arb s1)) s1;
            (s3, i) = after_func (arb_timeout (arb s2)) clientID s2
        in (s3\<lparr>arb := (arb s3)\<lparr>arb_expireTimer := Some i\<rparr>\<rparr>, True, None))"

definition Release :: "string \<Rightarrow> arb_sys \<Rightarrow> arb_sys \<times> arb_error option" where
  "Release clientID s =
     (if \<not> arb_locked (arb s) then (s, Some ErrLockNotHeld)
      else if arb_owner (arb s) \<noteq> clientID then (s, Some ErrNotLockOwner)
      else (stop_timer (arb_expireTimer (arb s))
              (s\<lparr>arb := (arb s)\<lparr>arb_locked := False, arb_owner := ''''\<rparr>\<rparr>), None))"

definition ForceRelease :: "string \<Rightarrow> arb_sys \<Rightarrow> arb_sys" where
  "ForceRelease clientID s =
     (if arb_owner (arb s) = clientID
      then stop_timer (arb_expireTimer (arb s))
             (s\<lparr>arb := (arb s)\<lparr>arb_locked := False, arb_owner := ''''\<rparr>\<rparr>)
      else s)"

definition IsLocked :: "arb_sys \<Rightarrow> bool" where
  "IsLocked s = arb_locked (arb s)"

definition Owner :: "arb_sys \<Rightarrow> string" where
  "Owner s = arb_owner (arb s)"

definition ExtendTimeout :: "string \<Rightarrow> int \<Rightarrow> arb_sys \<Rightarrow> arb_sys \<times> arb_error option" where
  "ExtendTimeout clientID newTimeout s =
     (if \<not> arb_locked (arb s) then (s, Some ErrLockNotHeld)
      else if arb_owner (arb s) \<noteq> clientID then (s, Some ErrNotLockOwner)
      else
        let s1 = stop_timer (arb_expireTimer (arb s)) s;
            s2 = s1\<lparr>arb := (arb s1)\<lparr>arb_timeout := newTimeout\<rparr>\<rparr>;
            (s3, i) = after_func newTimeout clientID s2
        in (s3\<lparr>arb := (arb s3)\<lparr>arb_expireTimer := Some i\<rparr>\<rparr>, None))"

text \<open>The body of the function that both \<open>Acquire\<close> and \<open>ExtendTimeout\<close> give to \<open>AfterFunc\<close>.\<close>

definition expire_callback :: "string \<Rightarrow> arb_sys \<Rightarrow> arb_sys" where
  "expire_callback clientID s =
     (if arb_owner (arb s) = clientID \<and> arb_locked (arb s)
      then s\<lparr>arb := (arb s)\<lparr>arb_locked := False, arb_owner := ''''\<rparr>\<rparr>
      else s)"

subsection \<open>Events and runs\<close>

datatype arb_event =
    EAcquire string
  | ERelease string
  | EForce string
  | EExtend string int
  | ETick int          \<comment> \<open>time passes\<close>
  | EFire nat          \<comment> \<open>a due timer starts its goroutine\<close>
  | ECallback nat      \<comment> \<open>the goroutine of a fired timer runs\<close>

text \<open>\<open>None\<close>: the event cannot happen in this state.\<close>

fun arb_do :: "arb_event \<Rightarrow> arb_sys \<Rightarrow> arb_sys option" where
  "arb_do (EAcquire c) s = Some (fst (Acquire c s))"
| "arb_do (ERelease c) s = Some (fst (Release c s))"
| "arb_do (EForce c) s = Some (ForceRelease c s)"
| "arb_do (EExtend c d) s = Some (fst (ExtendTimeout c d s))"
| "arb_do (ETick d) s = (if 0 < d then Some (s\<lparr>clock := clock s + d\<rparr>) else None)"
| "arb_do (EFire i) s =
     (if i < length (timers s) \<and> t_status (timers s ! i) = Armed \<and> t_deadline (timers s ! i) \<le> clock s
      then Some (set_status i Fired s) else None)"
| "arb_do (ECallback i) s =
     (if i < length (timers s) \<and> t_status (timers s ! i) = Fired
      then Some (expire_callback (t_client (timers s ! i)) (set_status i Finished s)) else None)"

fun arb_run :: "arb_event list \<Rightarrow> arb_sys \<Rightarrow> arb_sys option" where
  "arb_run [] s = Some s"
| "arb_run (e # es) s = (case arb_do e s of None \<Rightarrow> None | Some t \<Rightarrow> arb_run es t)"

interpretation arb_runs: event_runs arb_do arb_run
  by unfold_locales simp_all

lemmas arb_run_append = arb_runs.run_append

lemmas arb_ops = Acquire_def Release_def ForceRelease_def ExtendTimeout_def after_func_def
  expire_callback_def

subsection \<open>Frame lemmas of the timer operations\<close>

lemma arb_set_status [simp]: "arb (set_status i st s) = arb s" "clock (set_status i st s) = clock s"
  by (simp_all add: set_status_def)

lemma length_set_status [simp]: "length (timers (set_status i st s)) = length (timers s)"
  by (simp add: set_status_def)

lemma nth_set_status:
  "j < length (timers s) \<Longrightarrow>
     timers (set_status i st s) ! j = (if i = j then (timers s ! j)\<lparr>t_status := st\<rparr> else timers s ! j)"
  by (simp add: set_status_def)

lemma arb_stop_timer [simp]: "arb (stop_timer t s) = arb s" "clock (stop_timer t s) = clock s"
  by (simp_all add: stop_timer_def split: option.split)

lemma length_stop_timer [simp]: "length (timers (stop_timer t s)) = length (timers s)"
  by (simp add: stop_timer_def split: option.split)

lemma nth_stop_timer:
  "j < length (timers s) \<Longrightarrow>
     timers (stop_timer t s) ! j =
       (if t = Some j \<and> t_status (timers s ! j) = Armed then (timers s ! j)\<lparr>t_status := Stopped\<rparr>
        else timers s ! j)"
  by (auto simp: stop_timer_def nth_set_status split: option.split)

lemma timers_stop_timer_arb [simp]:
  "timers (stop_timer t (s\<lparr>arb := a\<rparr>)) = timers (stop_timer t s)"
  by (simp add: stop_timer_def set_status_def split: option.split)

subsection \<open>The invariant between the struct and its timers\<close>

text \<open>
  An unlocked arbiter has no owner; a locked one has a current timer, created for its owner,
  that has not run yet; and no timer but the current one is armed.
\<close>

definition arb_inv :: "arb_sys \<Rightarrow> bool" where
  "arb_inv s \<longleftrightarrow>
     (\<not> arb_locked (arb s) \<longrightarrow> arb_owner (arb s) = '''') \<and>
     (case arb_expireTimer (arb s) of
        None \<Rightarrow> \<not> arb_locked (arb s)
      | Some i \<Rightarrow> i < length (timers s) \<and>
          (arb_locked (arb s) \<longrightarrow>
             t_client (timers s ! i) = arb_owner (arb s) \<and> t_status (timers s ! i) \<in> {Armed, Fired})) \<and>
     (\<forall>i < length (timers s). arb_expireTimer (arb s) \<noteq> Some i \<longrightarrow> t_status (timers s ! i) \<noteq> Armed)"

lemma arb_inv_new: "arb_inv (NewArbiter d)"
  by (simp add: arb_inv_def NewArbiter_def)

lemma arb_inv_tick: "arb_inv s \<Longrightarrow> arb_inv (s\<lparr>clock := t\<rparr>)"
  by (simp add: arb_inv_def split: option.splits)

lemma arb_inv_Release: "arb_inv s \<Longrightarrow> arb_inv (fst (Release c s))"
  by (cases "arb_expireTimer (arb s)") (auto simp: arb_inv_def arb_ops nth_stop_timer)
lemma arb_inv_Acquire: "arb_inv s \<Longrightarrow> arb_inv (fst (Acquire c s))"
  by (cases "arb_expireTimer (arb s)")
    (auto simp: arb_inv_def arb_ops nth_append nth_stop_timer Let_def less_Suc_eq)

lemma arb_inv_ForceRelease: "arb_inv s \<Longrightarrow> arb_inv (ForceRelease c s)"
  by (cases "arb_expireTimer (arb s)") (auto simp: arb_inv_def arb_ops nth_stop_timer)

lemma arb_inv_ExtendTimeout: "arb_inv s \<Longrightarrow> arb_inv (fst (ExtendTimeout c d s))"
  by (cases "arb_expireTimer (arb s)")
    (auto simp: arb_inv_def arb_ops nth_append nth_stop_timer Let_def less_Suc_eq)

lemma arb_inv_fire:
  "arb_inv s \<Longrightarrow> i < length (timers s) \<Longrightarrow> t_status (timers s ! i) = Armed \<Longrightarrow> arb_inv (set_status i Fired s)"
  by (cases "arb_expireTimer (arb s)") (auto simp: arb_inv_def nth_set_status)

lemma arb_inv_callback:
  assumes "arb_inv s" and "i < length (timers s)" and "t_status (timers s ! i) = Fired"
    and c: "t_client (timers s ! i) = c"
  shows "arb_inv (expire_callback c (set_status i Finished s))"
proof (cases "arb_owner (arb s) = c \<and> arb_locked (arb s)")
  case True
  with assms show ?thesis
    by (cases "arb_expireTimer (arb s)") (simp_all add: arb_inv_def arb_ops nth_set_status)
next
  case False
  with assms have "arb_locked (arb s) \<Longrightarrow> arb_expireTimer (arb s) \<noteq> Some i"
    by (auto simp: arb_inv_def)
  with False assms show ?thesis
    by (cases "arb_expireTimer (arb s)") (auto simp: arb_inv_def arb_ops nth_set_status)
qed

lemma arb_inv_do: "arb_inv s \<Longrightarrow> arb_do e s = Some t \<Longrightarrow> arb_inv t"
  by (cases e) (auto simp: arb_inv_Acquire arb_inv_Release arb_inv_ForceRelease
      arb_inv_ExtendTimeout arb_inv_fire arb_inv_callback [OF _ _ _ refl] arb_inv_tick split: if_splits)

lemma arb_inv_run:
  assumes "arb_inv s" and "arb_run es s = Some t"
  shows "arb_inv t"
  using assms(2,1) by (rule arb_runs.run_keep) (blast intro: arb_inv_do)

subsection \<open>The abstract lock\<close>

definition lock_view :: "arb_sys \<Rightarrow> string option" where
  "lock_view s = (if arb_locked (arb s) then Some (arb_owner (arb s)) else None)"

fun lock_spec :: "(nat \<Rightarrow> string) \<Rightarrow> arb_event \<Rightarrow> string option \<Rightarrow> string option" where
  "lock_spec cl (EAcquire c) l = (if l = None then Some c else l)"
| "lock_spec cl (ERelease c) l = (if l = Some c then None else l)"
| "lock_spec cl (EForce c) l = (if l = Some c then None else l)"
| "lock_spec cl (ECallback i) l = (if l = Some (cl i) then None else l)"
| "lock_spec cl (EExtend c d) l = l"
| "lock_spec cl (ETick d) l = l"
| "lock_spec cl (EFire i) l = l"

lemma lock_view_eq [simp]:
  "lock_view (set_status i st s) = lock_view s" "lock_view (stop_timer t s) = lock_view s"
  "lock_view (s\<lparr>clock := x\<rparr>) = lock_view s"
  by (simp_all add: lock_view_def)

lemma lock_view_Acquire: "lock_view (fst (Acquire c s)) = (if lock_view s = None then Some c else lock_view s)"
  by (simp add: lock_view_def arb_ops Let_def)

lemma lock_view_Release: "lock_view (fst (Release c s)) = (if lock_view s = Some c then None else lock_view s)"
  by (simp add: lock_view_def arb_ops)

lemma lock_view_ForceRelease:
  "lock_view (ForceRelease c s) = (if lock_view s = Some c then None else lock_view s)"
  by (simp add: lock_view_def arb_ops)

lemma lock_view_Extend: "lock_view (fst (ExtendTimeout c d s)) = lock_view s"
  by (simp add: lock_view_def arb_ops Let_def)

lemma lock_view_callback:
  "lock_view (expire_callback c s) = (if lock_view s = Some c then None else lock_view s)"
  by (simp add: lock_view_def arb_ops)

lemma lock_view_New [simp]: "lock_view (NewArbiter d) = None"
  by (simp add: lock_view_def NewArbiter_def)

lemmas lock_view_ops = lock_view_Acquire lock_view_Release lock_view_ForceRelease lock_view_Extend
  lock_view_callback

lemma arb_refines_lock_step:
  "arb_do e s = Some t \<Longrightarrow> lock_view t = lock_spec (\<lambda>i. t_client (timers s ! i)) e (lock_view s)"
  by (cases e) (auto simp: lock_view_ops split: if_splits)

text \<open>C7: the arbiter refines the abstract lock: whatever event happens, the holder seen by the
  clients changes exactly as the abstract lock's holder does.\<close>

theorem arb_refines_lock:
  assumes "arb_do e s = Some t"
  shows "lock_view t = lock_spec (\<lambda>i. t_client (timers s ! i)) e (lock_view s)"
  using assms by (rule arb_refines_lock_step)

theorem arb_refines_lock_witness:
  "lock_view (fst (Acquire ''a'' (NewArbiter 30))) = Some ''a''"
proof -
  have "arb_do (EAcquire ''a'') (NewArbiter 30) = Some (fst (Acquire ''a'' (NewArbiter 30)))" by simp
  from arb_refines_lock [OF this] show ?thesis by (simp add: lock_view_def NewArbiter_def)
qed

text \<open>C20: exclusion over whole runs: the lock never passes from one client to another without
  being free in between, and only a release by the holder, a forced release for the holder or
  an expiry callback of one of the holder's own timers frees it.\<close>

theorem holder_loses_lock_only_by_own_event:
  assumes "lock_view s = Some c" and "arb_do e s = Some t" and "lock_view t \<noteq> Some c"
  shows "lock_view t = None \<and>
    (e = ERelease c \<or> e = EForce c \<or> (\<exists>i. e = ECallback i \<and> t_client (timers s ! i) = c))"
  using assms arb_refines_lock_step [OF assms(2)] by (cases e) (auto split: if_splits)

theorem holder_loses_lock_only_by_own_event_witness:
  "\<exists>s t. lock_view s = Some ''a'' \<and> arb_do (ERelease ''a'') s = Some t \<and> lock_view t = None"
proof -
  let ?s = "fst (Acquire ''a'' (NewArbiter 30))"
  have s: "lock_view ?s = Some ''a''" "arb_do (ERelease ''a'') ?s = Some (fst (Release ''a'' ?s))"
    by (simp_all add: lock_view_def arb_ops NewArbiter_def stop_timer_def)
  moreover have "lock_view (fst (Release ''a'' ?s)) \<noteq> Some ''a''" by (simp add: lock_view_Release)
  ultimately show ?thesis using holder_loses_lock_only_by_own_event by blast
qed

lemma arbiter_method_steps:
  "lock_view s = Some c \<Longrightarrow> snd (Release c s) = None" "lock_view s = Some c \<Longrightarrow> snd (ExtendTimeout c n s) = None"
  by (auto simp: lock_view_def arb_ops Let_def split: if_splits)

text \<open>The results of the methods, on every branch: each succeeds exactly when the abstract lock allows
  it, returns the error the code documents otherwise, and a method that fails leaves the arbiter
  as it was.\<close>

theorem arbiter_method_results:
  "snd (Acquire c s) = (if lock_view s = None then (True, None) else (False, Some ErrLockAlreadyHeld)) \<and>
   snd (Release c s) = (case lock_view s of None \<Rightarrow> Some ErrLockNotHeld
                        | Some d \<Rightarrow> if d = c then None else Some ErrNotLockOwner) \<and>
   snd (ExtendTimeout c n s) = snd (Release c s) \<and>
   (snd (snd (Acquire c s)) = None \<or> fst (Acquire c s) = s) \<and>
   (snd (Release c s) = None \<or> fst (Release c s) = s \<and> fst (ExtendTimeout c n s) = s)"
  by (auto simp: lock_view_def arb_ops Let_def)

lemma owner_view: "arb_inv s \<Longrightarrow> Owner s = (case lock_view s of None \<Rightarrow> '''' | Some c \<Rightarrow> c)"
  by (simp add: arb_inv_def Owner_def lock_view_def)

subsection \<open>Expiry\<close>

text \<open>No timer is due or waits to run its callback.\<close>

definition settled :: "arb_sys \<Rightarrow> bool" where
  "settled s \<longleftrightarrow> (\<forall>t \<in> set (timers s). t_status t \<noteq> Fired \<and> (t_status t = Armed \<longrightarrow> clock s < t_deadline t))"

definition timer_event :: "arb_event \<Rightarrow> bool" where
  "timer_event e = (case e of ETick _ \<Rightarrow> True | EFire _ \<Rightarrow> True | ECallback _ \<Rightarrow> True | _ \<Rightarrow> False)"

lemma callback_unlocks:
  assumes "arb_locked (arb s)" and "i < length (timers s)" and "t_status (timers s ! i) = Fired"
    and "t_client (timers s ! i) = arb_owner (arb s)"
  shows "\<exists>t. arb_run [ECallback i] s = Some t \<and> \<not> arb_locked (arb t)"
  using assms by (simp add: expire_callback_def)

theorem lock_can_expire:
  assumes inv: "arb_inv s" and locked: "arb_locked (arb s)"
  shows "\<exists>es t. list_all timer_event es \<and> arb_run es s = Some t \<and> \<not> arb_locked (arb t)"
proof -
  from inv locked obtain i where i: "i < length (timers s)"
      "t_client (timers s ! i) = arb_owner (arb s)" "t_status (timers s ! i) = Armed \<or> t_status (timers s ! i) = Fired"
    by (auto simp: arb_inv_def split: option.splits)
  show ?thesis
  proof (cases "t_status (timers s ! i) = Fired")
    case True
    with callback_unlocks [OF locked i(1) True i(2)] show ?thesis
      by (intro exI [of _ "[ECallback i]"]) (simp add: timer_event_def)
  next
    case False
    with i have armed: "t_status (timers s ! i) = Armed" by simp
    define d where "d = (if clock s < t_deadline (timers s ! i) then t_deadline (timers s ! i) - clock s else 1)"
    define s1 where "s1 = set_status i Fired (s\<lparr>clock := clock s + d\<rparr>)"
    have run1: "arb_run [ETick d, EFire i] s = Some s1"
      using i(1) armed by (simp add: d_def s1_def)
    have "\<exists>t. arb_run [ECallback i] s1 = Some t \<and> \<not> arb_locked (arb t)"
      by (rule callback_unlocks) (use i locked in \<open>simp_all add: s1_def nth_set_status\<close>)
    then obtain t where t: "arb_run [ECallback i] s1 = Some t" "\<not> arb_locked (arb t)" by blast
    then have "arb_run ([ETick d, EFire i] @ [ECallback i]) s = Some t" "\<not> arb_locked (arb t)"
      unfolding arb_run_append run1 by simp_all
    then show ?thesis
      by (intro exI [of _ "[ETick d, EFire i] @ [ECallback i]"] exI [of _ t]) (simp add: timer_event_def)
  qed
qed


text \<open>While one client holds the lock, nobody else's events move its expiry timer.\<close>

lemma deadline_step:
  assumes "arb_do e s = Some t" and "lock_view s = Some c" and "lock_view t = Some c"
    and "\<forall>x. e \<noteq> EExtend c x"
  shows "arb_expireTimer (arb t) = arb_expireTimer (arb s) \<and> length (timers t) = length (timers s) \<and>
    (\<forall>i < length (timers s). t_deadline (timers t ! i) = t_deadline (timers s ! i))"
  using assms
  by (cases e) (auto simp: lock_view_def arb_ops nth_set_status nth_stop_timer Let_def split: if_splits)

lemma holder_was_holder:
  "arb_do e s = Some t \<Longrightarrow> lock_view t = Some c \<Longrightarrow> e \<noteq> EAcquire c \<Longrightarrow> lock_view s = Some c"
  by (cases e) (auto simp: lock_view_ops split: if_splits)

definition due_at :: "string \<Rightarrow> int \<Rightarrow> arb_sys \<Rightarrow> bool" where
  "due_at c D s \<longleftrightarrow> (lock_view s = Some c \<longrightarrow>
     (case arb_expireTimer (arb s) of None \<Rightarrow> False
      | Some i \<Rightarrow> i < length (timers s) \<and> t_deadline (timers s ! i) = D))"

lemma due_at_step:
  assumes "due_at c D s" and "arb_do e s = Some t" and "e \<noteq> EAcquire c" and "\<forall>x. e \<noteq> EExtend c x"
  shows "due_at c D t"
proof (cases "lock_view t = Some c")
  case True
  with assms have s: "lock_view s = Some c" by (blast dest: holder_was_holder)
  from deadline_step [OF assms(2) s True assms(4)] assms(1) s show ?thesis
    by (auto simp: due_at_def split: option.splits)
qed (simp add: due_at_def)

lemma due_at_run:
  assumes "due_at c D s" and "arb_run es s = Some t" and "\<forall>e \<in> set es. e \<noteq> EAcquire c \<and> (\<forall>x. e \<noteq> EExtend c x)"
  shows "due_at c D t"
  using assms(2,1)
  by (rule arb_runs.run_keep_on [where Q = "\<lambda>e. e \<noteq> EAcquire c \<and> (\<forall>x. e \<noteq> EExtend c x)"])
    (use assms(3) in \<open>auto intro: due_at_step\<close>)

lemma due_at_Acquire: "lock_view s = None \<Longrightarrow>
    due_at c (clock s + max 0 (arb_timeout (arb s))) (fst (Acquire c s))"
  by (simp add: due_at_def lock_view_def arb_ops Let_def nth_append split: if_splits)

lemma settled_not_due:
  assumes "arb_inv t" and "settled t" and "due_at c D t" and "D \<le> clock t"
  shows "lock_view t \<noteq> Some c"
proof
  assume h: "lock_view t = Some c"
  with assms(1,3) obtain i where i: "i < length (timers t)" "t_deadline (timers t ! i) = D"
      "t_status (timers t ! i) \<in> {Armed, Fired}"
    by (auto simp: arb_inv_def due_at_def lock_view_def split: option.splits if_splits)
  then have "timers t ! i \<in> set (timers t)" by simp
  with assms(2,4) i(2,3) show False by (auto simp: settled_def)
qed

text \<open>C6: a grant is bounded in time. However the other clients and the run-time system act, and
  unless the holder itself acquires again or extends, a client granted the lock no longer holds
  it once the timeout has passed and the due timers have run.\<close>

theorem grant_ends_by_timeout:
  assumes "arb_run pre (NewArbiter d) = Some s" and "lock_view s = None"
    and "arb_run es (fst (Acquire c s)) = Some t"
    and "\<forall>e \<in> set es. e \<noteq> EAcquire c \<and> (\<forall>x. e \<noteq> EExtend c x)"
    and "settled t" and "clock s + max 0 (arb_timeout (arb s)) \<le> clock t"
  shows "lock_view t \<noteq> Some c"
proof -
  have "arb_inv (fst (Acquire c s))"
    by (rule arb_inv_Acquire [OF arb_inv_run [OF arb_inv_new assms(1)]])
  then have "arb_inv t" by (rule arb_inv_run) (rule assms(3))
  moreover have "due_at c (clock s + max 0 (arb_timeout (arb s))) t"
    using due_at_Acquire [OF assms(2)] assms(3,4) by (rule due_at_run)
  ultimately show ?thesis using assms(5,6) by (blast dest: settled_not_due)
qed

text \<open>The bound at work: granted at time 0 for 30, after 30 the fired timer has run.\<close>

theorem grant_ends_by_timeout_witness:
  "\<exists>t. arb_run [ETick 30, EFire 0, ECallback 0] (fst (Acquire ''a'' (NewArbiter 30))) = Some t \<and>
       lock_view t \<noteq> Some ''a''"
proof -
  let ?es = "[ETick 30, EFire 0, ECallback 0]"
  obtain t where t: "arb_run ?es (fst (Acquire ''a'' (NewArbiter 30))) = Some t" "settled t" "30 \<le> clock t"
    by (simp add: NewArbiter_def arb_ops stop_timer_def set_status_def settled_def)
  have "lock_view t \<noteq> Some ''a''"
    by (rule grant_ends_by_timeout [where pre = "[]" and s = "NewArbiter 30" and d = 30 and es = ?es])
      (use t in \<open>simp_all add: lock_view_def NewArbiter_def del: arb_run.simps(2)\<close>)
  with t show ?thesis by blast
qed


text \<open>An extension changes the timeout of everybody's later grants, not only of the grant it
  extends.\<close>

theorem extend_changes_later_grants:
  assumes "lock_view s = Some a" and "ExtendTimeout a d s = (s1, None)" and "Release a s1 = (s2, None)"
  shows "\<exists>i. arb_expireTimer (arb (fst (Acquire c s2))) = Some i \<and>
    t_deadline (timers (fst (Acquire c s2)) ! i) = clock s + max 0 d"
  using assms by (auto simp: lock_view_def arb_ops Let_def nth_append split: if_splits)

theorem extend_changes_later_grants_witness:
  "\<exists>s s1 s2 i. lock_view s = Some ''a'' \<and> ExtendTimeout ''a'' 99 s = (s1, None) \<and> Release ''a'' s1 = (s2, None) \<and>
     arb_expireTimer (arb (fst (Acquire ''b'' s2))) = Some i \<and>
     t_deadline (timers (fst (Acquire ''b'' s2)) ! i) = 99"
proof -
  let ?s = "fst (Acquire ''a'' (NewArbiter 30))"
  let ?s1 = "fst (ExtendTimeout ''a'' 99 ?s)"
  have s: "lock_view ?s = Some ''a''" "clock ?s = 0"
    by (simp_all add: lock_view_def arb_ops NewArbiter_def stop_timer_def)
  have s1: "ExtendTimeout ''a'' 99 ?s = (?s1, None)"
    using arbiter_method_steps(2) [OF s(1), of 99] by (simp add: prod_eq_iff)
  have s2: "Release ''a'' ?s1 = (fst (Release ''a'' ?s1), None)"
    using arbiter_method_steps(1) [of ?s1 "''a''"] s(1) by (simp add: prod_eq_iff lock_view_Extend)
  from extend_changes_later_grants [OF s(1) s1 s2, of "''b''"] s s1 s2 show ?thesis by auto
qed

subsection \<open>The interface the TCP server relies on\<close>

text \<open>
  What \<open>internal/server\<close> calls: \<open>Acquire\<close>, \<open>ForceRelease\<close> and \<open>Owner\<close>. The server decides by
  comparing \<open>Owner()\<close> with a client's id, so the laws speak of the holder as an option, and the
  first lemma says when that comparison means holding the lock: the id must not be empty.
\<close>

locale write_lock =
  fixes view :: "'l \<Rightarrow> string option"
    and acq :: "string \<Rightarrow> 'l \<Rightarrow> 'l \<times> bool"
    and frel :: "string \<Rightarrow> 'l \<Rightarrow> 'l"
    and own :: "'l \<Rightarrow> string"
    and ok :: "'l \<Rightarrow> bool"
  assumes own_eq: "ok l \<Longrightarrow> own l = (case view l of None \<Rightarrow> '''' | Some c \<Rightarrow> c)"
    and acq_free: "ok l \<Longrightarrow> view l = None \<Longrightarrow> snd (acq c l) \<and> view (fst (acq c l)) = Some c"
    and acq_held: "ok l \<Longrightarrow> view l = Some d \<Longrightarrow> acq c l = (l, False)"
    and frel_view: "ok l \<Longrightarrow> view (frel c l) = (if view l = Some c then None else view l)"
    and ok_acq: "ok l \<Longrightarrow> ok (fst (acq c l))"
    and ok_frel: "ok l \<Longrightarrow> ok (frel c l)"
begin

lemma own_iff_holder: "ok l \<Longrightarrow> c \<noteq> '''' \<Longrightarrow> own l = c \<longleftrightarrow> view l = Some c"
  by (auto simp: own_eq split: option.splits)

lemma acq_result: "ok l \<Longrightarrow> snd (acq c l) \<longleftrightarrow> view l = None"
  by (cases "view l") (auto simp: acq_free acq_held)

lemma own_after_acq:
  "ok l \<Longrightarrow> c \<noteq> '''' \<Longrightarrow> own (fst (acq c l)) = c \<longleftrightarrow> view l = None \<or> view l = Some c"
  by (cases "view l") (auto simp: own_iff_holder ok_acq acq_free acq_held)

lemma acq_keeps_others: "ok l \<Longrightarrow> view l = Some d \<Longrightarrow> view (fst (acq c l)) = Some d"
  by (simp add: acq_held)

lemma frel_never_holder: "ok l \<Longrightarrow> view (frel c l) \<noteq> Some c"
  by (simp add: frel_view)

lemma frel_keeps_others: "ok l \<Longrightarrow> d \<noteq> c \<Longrightarrow> view (frel c l) = Some d \<longleftrightarrow> view l = Some d"
  by (simp add: frel_view)

text \<open>The retry loop of a client that nobody disturbs.\<close>

fun attempts :: "nat \<Rightarrow> string \<Rightarrow> 'l \<Rightarrow> 'l \<times> bool" where
  "attempts 0 c l = (l, False)"
| "attempts (Suc n) c l = (let (l', r) = acq c l in if r then (l', True) else attempts n c l')"

lemma attempts_held: "ok l \<Longrightarrow> view l = Some d \<Longrightarrow> attempts n c l = (l, False)"
  by (induction n) (simp_all add: acq_held)

lemma attempts_free: "ok l \<Longrightarrow> view l = None \<Longrightarrow> attempts (Suc n) c l = (fst (acq c l), True)"
  using acq_free [of l c] by (cases "acq c l") simp

end

interpretation arb_lock: write_lock lock_view "\<lambda>c s. (fst (Acquire c s), fst (snd (Acquire c s)))"
  ForceRelease Owner arb_inv
proof unfold_locales
  fix s c assume "arb_inv s" "lock_view s = None"
  then show "snd (fst (Acquire c s), fst (snd (Acquire c s))) \<and>
      lock_view (fst (fst (Acquire c s), fst (snd (Acquire c s)))) = Some c"
    by (simp add: lock_view_def arb_ops Let_def split: if_splits)
next
  fix s d c assume "arb_inv s" "lock_view s = Some d"
  then show "(fst (Acquire c s), fst (snd (Acquire c s))) = (s, False)"
    by (simp add: lock_view_def arb_ops split: if_splits)
qed (simp_all add: owner_view lock_view_ForceRelease arb_inv_Acquire arb_inv_ForceRelease)

end
