(* ===== verification/Buffers.thy ===== *)
theory Buffers
  imports Go_Base
begin

text \<open>
  The two contracts that the byte buffers of the program share, as interfaces. The mock serial
  port, the mock PTY (both of its directions) and the mock client connection are byte streams:
  writers append, a \<open>Read\<close> takes a prefix. The mock client of the broadcaster and the mock
  server keep a bounded log: they append and then drop the oldest bytes. Each provider
  interprets the interface in its own theory.
\<close>

subsection \<open>Byte streams\<close>

datatype stream_op = SPut bytes | SGet nat

locale byte_stream =
  fixes pending :: "'s \<Rightarrow> bytes"
    and put :: "bytes \<Rightarrow> 's \<Rightarrow> 's"
    and get :: "nat \<Rightarrow> 's \<Rightarrow> 's \<times> bytes"
    and live :: "'s \<Rightarrow> bool"
  assumes pending_put: "live s \<Longrightarrow> pending (put d s) = pending s @ d"
    and live_put: "live s \<Longrightarrow> live (put d s)"
    and snd_get: "live s \<Longrightarrow> snd (get n s) = take n (pending s)"
    and pending_get: "live s \<Longrightarrow> pending (fst (get n s)) = drop n (pending s)"
    and live_get: "live s \<Longrightarrow> live (fst (get n s))"
begin

fun run :: "stream_op list \<Rightarrow> 's \<Rightarrow> 's \<times> bytes" where
  "run [] s = (s, [])"
| "run (SPut d # ops) s = run ops (put d s)"
| "run (SGet n # ops) s =
     (let (s', d) = get n s; (s'', ds) = run ops s' in (s'', d @ ds))"

lemma stream_conservation:
  "live s \<Longrightarrow>
     snd (run ops s) @ pending (fst (run ops s)) =
     pending s @ concat (map (\<lambda>x. case x of SPut d \<Rightarrow> d | SGet _ \<Rightarrow> []) ops)"
proof (induction ops arbitrary: s)
  case Nil
  then show ?case by simp
next
  case (Cons x ops)
  show ?case
  proof (cases x)
    case (SPut d)
    with Cons show ?thesis by (simp add: live_put pending_put)
  next
    case (SGet n)
    obtain s' d where g: "get n s = (s', d)" by fastforce
    with Cons.prems have s': "live s'" "d = take n (pending s)" "pending s' = drop n (pending s)"
      using live_get [of s n] snd_get [of s n] pending_get [of s n] by auto
    obtain t ds where r: "run ops s' = (t, ds)" by fastforce
    have "pending s = d @ pending s'" by (simp add: s')
    with Cons.IH [OF s'(1)] r show ?thesis by (simp add: SGet g)
  qed
qed

lemma get_at_most: "live s \<Longrightarrow> length (snd (get n s)) \<le> n"
  by (simp add: snd_get)

lemma get_empty_iff: "live s \<Longrightarrow> 0 < n \<Longrightarrow> snd (get n s) = [] \<longleftrightarrow> pending s = []"
  by (auto simp: snd_get)

end

subsection \<open>Bounded logs\<close>

locale bounded_log =
  fixes stored :: "'s \<Rightarrow> bytes"
    and limit :: "'s \<Rightarrow> int"
    and append_lim :: "bytes \<Rightarrow> 's \<Rightarrow> go_panic + 's"
  assumes append_ok: "0 \<le> limit s \<Longrightarrow> \<exists>s'. append_lim d s = Inr s'"
    and stored_append:
      "0 \<le> limit s \<Longrightarrow> append_lim d s = Inr s' \<Longrightarrow> stored s' = keep_last (nat (limit s)) (stored s @ d)"
    and limit_append: "0 \<le> limit s \<Longrightarrow> append_lim d s = Inr s' \<Longrightarrow> limit s' = limit s"
begin

fun append_all :: "bytes list \<Rightarrow> 's \<Rightarrow> go_panic + 's" where
  "append_all [] s = Inr s"
| "append_all (d # ds) s =
     (case append_lim d s of Inl p \<Rightarrow> Inl p | Inr s' \<Rightarrow> append_all ds s')"

lemma append_all_tail:
  assumes "0 \<le> limit s" and "length (stored s) \<le> nat (limit s)"
  shows "\<exists>s'. append_all ds s = Inr s' \<and> limit s' = limit s \<and>
           stored s' = keep_last (nat (limit s)) (stored s @ concat ds)"
  using assms
proof (induction ds arbitrary: s)
  case Nil
  then show ?case by simp
next
  case (Cons d ds)
  obtain t where t: "append_lim d s = Inr t" using append_ok [OF Cons.prems(1)] by blast
  have lim: "limit t = limit s" and st: "stored t = keep_last (nat (limit s)) (stored s @ d)"
    using limit_append [OF Cons.prems(1) t] stored_append [OF Cons.prems(1) t] by simp_all
  have "length (stored t) \<le> nat (limit t)" using st lim by simp
  with Cons.IH [of t] Cons.prems(1) lim obtain s' where
    "append_all ds t = Inr s'" "limit s' = limit s"
    "stored s' = keep_last (nat (limit s)) (stored t @ concat ds)"
    by auto
  then show ?case using t st by (simp add: keep_last_append_keep)
qed

end

end
