(* ===== verification/Serial_Port.thy ===== *)
theory Serial_Port
  imports Buffers
begin

text \<open>
  Serial ports, \<open>pkg/serial/serial.go\<close> and \<open>pkg/serial/real_serial_*.go\<close>: the configuration,
  the mock port, the real port, the choice between them in \<open>NewPort\<close>, and the handler with its
  write owner. The driver package \<open>go.bug.st/serial\<close> is not part of the repository: its
  operations are the record \<open>'d driver\<close>, an argument of every definition that calls it, where
  \<open>'d\<close> is an open device. \<open>any_port\<close> is the Go interface \<open>Port\<close> with the two implementations
  that the program has.

  The last part models the mutex of the Windows and macOS ports, which \<open>Read\<close> holds while the
  driver blocks, against the Linux port, which has none.
\<close>

subsection \<open>Configuration\<close>

type_synonym parity = int

definition ParityNone :: parity where "ParityNone = 0"
definition ParityOdd :: parity where "ParityOdd = 1"
definition ParityEven :: parity where "ParityEven = 2"

definition BaudRate :: int where "BaudRate = 115200"
definition DataBits :: int where "DataBits = 8"
definition StopBits :: int where "StopBits = 1"

record serial_config =
  sc_BaudRate :: int
  sc_DataBits :: int
  sc_StopBits :: int
  sc_Parity :: parity
  sc_ReadTimeout :: int

definition DefaultConfig :: serial_config where
  "DefaultConfig = \<lparr>sc_BaudRate = BaudRate, sc_DataBits = DataBits, sc_StopBits = StopBits,
     sc_Parity = ParityNone, sc_ReadTimeout = 0\<rparr>"

definition ErrPortNotOpen :: go_error where
  "ErrPortNotOpen = ErrorString ''serial port not open''"

subsection \<open>The mock port\<close>

record mock_serial =
  ms_open :: bool
  ms_path :: string
  ms_inputBuffer :: bytes
  ms_outputBuffer :: bytes

definition NewMockSerialPort :: mock_serial where
  "NewMockSerialPort = \<lparr>ms_open = False, ms_path = '''', ms_inputBuffer = [], ms_outputBuffer = []\<rparr>"

definition MockSerialPort_Open :: "string \<Rightarrow> mock_serial \<Rightarrow> mock_serial \<times> go_error option" where
  "MockSerialPort_Open path m = (m\<lparr>ms_open := True, ms_path := path\<rparr>, None)"

definition MockSerialPort_Close :: "mock_serial \<Rightarrow> mock_serial" where
  "MockSerialPort_Close m = m\<lparr>ms_open := False\<rparr>"

definition MockSerialPort_Read :: "nat \<Rightarrow> mock_serial \<Rightarrow> mock_serial \<times> (go_error + bytes)" where
  "MockSerialPort_Read len m =
     (if ms_inputBuffer m = [] then (m, Inl IoEOF)
      else let (d, rest) = go_copy len (ms_inputBuffer m) in (m\<lparr>ms_inputBuffer := rest\<rparr>, Inr d))"

definition MockSerialPort_Write :: "bytes \<Rightarrow> mock_serial \<Rightarrow> mock_serial \<times> (go_error + nat)" where
  "MockSerialPort_Write buf m = (m\<lparr>ms_outputBuffer := ms_outputBuffer m @ buf\<rparr>, Inr (length buf))"

definition MockSerialPort_IsOpen :: "mock_serial \<Rightarrow> bool" where
  "MockSerialPort_IsOpen m = ms_open m"

definition MockSerialPort_InjectInput :: "bytes \<Rightarrow> mock_serial \<Rightarrow> mock_serial" where
  "MockSerialPort_InjectInput data m = m\<lparr>ms_inputBuffer := ms_inputBuffer m @ data\<rparr>"

definition MockSerialPort_GetWrittenData :: "mock_serial \<Rightarrow> bytes" where
  "MockSerialPort_GetWrittenData m = ms_outputBuffer m"

lemmas mock_serial_defs [go_defs] = NewMockSerialPort_def MockSerialPort_Open_def
  MockSerialPort_Close_def MockSerialPort_Read_def MockSerialPort_Write_def
  MockSerialPort_IsOpen_def MockSerialPort_InjectInput_def MockSerialPort_GetWrittenData_def

interpretation mock_in: byte_stream ms_inputBuffer MockSerialPort_InjectInput
  "\<lambda>n m. (fst (MockSerialPort_Read n m), payload (snd (MockSerialPort_Read n m)))" "\<lambda>_. True"
  by unfold_locales (auto simp: go_defs go_simps)

subsection \<open>The driver and the real port\<close>

record 'd driver =
  drv_open :: "string \<Rightarrow> int \<Rightarrow> go_error + 'd"          \<comment> \<open>\<open>serial.Open(path, mode)\<close>\<close>
  drv_close :: "'d \<Rightarrow> 'd"
  drv_read :: "nat \<Rightarrow> 'd \<Rightarrow> 'd \<times> (go_error + bytes)"
  drv_write :: "bytes \<Rightarrow> 'd \<Rightarrow> 'd \<times> (go_error + nat)"
  drv_setmode :: "int \<Rightarrow> 'd \<Rightarrow> 'd \<times> go_error option"

text \<open>An instance for the runs that are evaluated: a cable that returns what is written to it.\<close>

definition loopback :: "bytes driver" where
  "loopback = \<lparr>drv_open = (\<lambda>path baud. if path = [] then Inl (SysError ''no such device'') else Inr []),
     drv_close = (\<lambda>d. []), drv_read = (\<lambda>n d. (drop n d, Inr (take n d))),
     drv_write = (\<lambda>b d. (d @ b, Inr (length b))), drv_setmode = (\<lambda>m d. (d, None))\<rparr>"

record 'd real_serial =
  rs_port :: "'d option"
  rs_open :: bool
  rs_path :: string
  rs_config :: serial_config

definition NewRealSerialPort :: "'d real_serial" where
  "NewRealSerialPort = \<lparr>rs_port = None, rs_open = False, rs_path = '''', rs_config = DefaultConfig\<rparr>"

definition RealSerialPort_Open ::
    "'d driver \<Rightarrow> string \<Rightarrow> 'd real_serial \<Rightarrow> 'd real_serial \<times> go_error option" where
  "RealSerialPort_Open drv path r =
     (case drv_open drv path (sc_BaudRate (rs_config r)) of
        Inl err \<Rightarrow> (r, Some err)
      | Inr port \<Rightarrow> (r\<lparr>rs_port := Some port, rs_path := path, rs_open := True\<rparr>, None))"

definition RealSerialPort_Close :: "'d driver \<Rightarrow> 'd real_serial \<Rightarrow> 'd real_serial" where
  "RealSerialPort_Close drv r = r\<lparr>rs_port := map_option (drv_close drv) (rs_port r), rs_open := False\<rparr>"

definition RealSerialPort_Read ::
    "'d driver \<Rightarrow> nat \<Rightarrow> 'd real_serial \<Rightarrow> 'd real_serial \<times> (go_error + bytes)" where
  "RealSerialPort_Read drv len r =
     (case rs_port r of
        None \<Rightarrow> (r, Inl ErrPortNotOpen)
      | Some port \<Rightarrow>
          if \<not> rs_open r then (r, Inl ErrPortNotOpen)
          else let (port', res) = drv_read drv len port in (r\<lparr>rs_port := Some port'\<rparr>, res))"

definition RealSerialPort_Write ::
    "'d driver \<Rightarrow> bytes \<Rightarrow> 'd real_serial \<Rightarrow> 'd real_serial \<times> (go_error + nat)" where
  "RealSerialPort_Write drv buf r =
     (case rs_port r of
        None \<Rightarrow> (r, Inl ErrPortNotOpen)
      | Some port \<Rightarrow>
          if \<not> rs_open r then (r, Inl ErrPortNotOpen)
          else let (port', res) = drv_write drv buf port in (r\<lparr>rs_port := Some port'\<rparr>, res))"

definition RealSerialPort_IsOpen :: "'d real_serial \<Rightarrow> bool" where
  "RealSerialPort_IsOpen r = rs_open r"

definition RealSerialPort_SetConfig ::
    "'d driver \<Rightarrow> serial_config \<Rightarrow> 'd real_serial \<Rightarrow> 'd real_serial \<times> go_error option" where
  "RealSerialPort_SetConfig drv config r =
     (let r1 = r\<lparr>rs_config := config\<rparr> in
      case rs_port r1 of
        None \<Rightarrow> (r1, None)
      | Some port \<Rightarrow>
          let (port', res) = drv_setmode drv (sc_BaudRate config) port
          in (r1\<lparr>rs_port := Some port'\<rparr>, res))"

definition RealSerialPort_GetPath :: "'d real_serial \<Rightarrow> string" where
  "RealSerialPort_GetPath r = rs_path r"

lemmas real_serial_defs [go_defs] = NewRealSerialPort_def RealSerialPort_Open_def
  RealSerialPort_Close_def RealSerialPort_Read_def RealSerialPort_Write_def
  RealSerialPort_IsOpen_def RealSerialPort_SetConfig_def RealSerialPort_GetPath_def

subsection \<open>The interface \<open>Port\<close> and \<open>NewPort\<close>\<close>

datatype 'd any_port = MockPort mock_serial | RealPort "'d real_serial"

fun Port_Open :: "'d driver \<Rightarrow> string \<Rightarrow> 'd any_port \<Rightarrow> 'd any_port \<times> go_error option" where
  "Port_Open drv path (MockPort m) = (let (m', e) = MockSerialPort_Open path m in (MockPort m', e))"
| "Port_Open drv path (RealPort r) = (let (r', e) = RealSerialPort_Open drv path r in (RealPort r', e))"

fun Port_Close :: "'d driver \<Rightarrow> 'd any_port \<Rightarrow> 'd any_port" where
  "Port_Close drv (MockPort m) = MockPort (MockSerialPort_Close m)"
| "Port_Close drv (RealPort r) = RealPort (RealSerialPort_Close drv r)"

fun Port_Read :: "'d driver \<Rightarrow> nat \<Rightarrow> 'd any_port \<Rightarrow> 'd any_port \<times> (go_error + bytes)" where
  "Port_Read drv n (MockPort m) = (let (m', x) = MockSerialPort_Read n m in (MockPort m', x))"
| "Port_Read drv n (RealPort r) = (let (r', x) = RealSerialPort_Read drv n r in (RealPort r', x))"

fun Port_Write :: "'d driver \<Rightarrow> bytes \<Rightarrow> 'd any_port \<Rightarrow> 'd any_port \<times> (go_error + nat)" where
  "Port_Write drv buf (MockPort m) = (let (m', x) = MockSerialPort_Write buf m in (MockPort m', x))"
| "Port_Write drv buf (RealPort r) = (let (r', x) = RealSerialPort_Write drv buf r in (RealPort r', x))"

fun Port_IsOpen :: "'d any_port \<Rightarrow> bool" where
  "Port_IsOpen (MockPort m) = MockSerialPort_IsOpen m"
| "Port_IsOpen (RealPort r) = RealSerialPort_IsOpen r"

definition NewPort :: "'d driver \<Rightarrow> string \<Rightarrow> go_error + 'd any_port" where
  "NewPort drv path =
     (let (port, err) = RealSerialPort_Open drv path NewRealSerialPort in
      case err of
        Some e \<Rightarrow>
          let (mockPort, mockErr) = MockSerialPort_Open path NewMockSerialPort in
          (case mockErr of Some _ \<Rightarrow> Inl e | None \<Rightarrow> Inr (MockPort mockPort))
      | None \<Rightarrow> Inr (RealPort port))"

subsection \<open>The handler\<close>

record 'd handler =
  h_port :: "'d any_port"
  h_config :: serial_config
  h_writeOwner :: string

definition NewHandlerWithConfig :: "string \<Rightarrow> serial_config \<Rightarrow> go_error + 'd handler" where
  "NewHandlerWithConfig path config =
     (let (port, err) = MockSerialPort_Open path NewMockSerialPort in
      case err of
        Some e \<Rightarrow> Inl e
      | None \<Rightarrow> Inr \<lparr>h_port = MockPort port, h_config = config, h_writeOwner = ''''\<rparr>)"

definition NewHandler :: "string \<Rightarrow> go_error + 'd handler" where
  "NewHandler path = NewHandlerWithConfig path DefaultConfig"

definition NewHandlerWithPort :: "'d any_port \<Rightarrow> 'd handler" where
  "NewHandlerWithPort port = \<lparr>h_port = port, h_config = DefaultConfig, h_writeOwner = ''''\<rparr>"

definition Handler_Read :: "'d driver \<Rightarrow> nat \<Rightarrow> 'd handler \<Rightarrow> 'd handler \<times> (go_error + bytes)" where
  "Handler_Read drv n h = (let (p, x) = Port_Read drv n (h_port h) in (h\<lparr>h_port := p\<rparr>, x))"

definition Handler_Write :: "'d driver \<Rightarrow> bytes \<Rightarrow> 'd handler \<Rightarrow> 'd handler \<times> (go_error + nat)" where
  "Handler_Write drv buf h = (let (p, x) = Port_Write drv buf (h_port h) in (h\<lparr>h_port := p\<rparr>, x))"

definition Handler_WriteWithLock ::
    "'d driver \<Rightarrow> string \<Rightarrow> bytes \<Rightarrow> 'd handler \<Rightarrow> 'd handler \<times> (go_error + nat)" where
  "Handler_WriteWithLock drv clientID buf h =
     (if h_writeOwner h \<noteq> clientID
      then (h, Inl (ErrorString ''write lock not held by this client''))
      else let (p, x) = Port_Write drv buf (h_port h) in (h\<lparr>h_port := p\<rparr>, x))"

definition Handler_SetWriteLockOwner :: "string \<Rightarrow> 'd handler \<Rightarrow> 'd handler" where
  "Handler_SetWriteLockOwner clientID h = h\<lparr>h_writeOwner := clientID\<rparr>"

definition Handler_ClearWriteLock :: "'d handler \<Rightarrow> 'd handler" where
  "Handler_ClearWriteLock h = h\<lparr>h_writeOwner := ''''\<rparr>"

definition Handler_Close :: "'d driver \<Rightarrow> 'd handler \<Rightarrow> 'd handler" where
  "Handler_Close drv h = h\<lparr>h_port := Port_Close drv (h_port h)\<rparr>"

definition Handler_IsOpen :: "'d handler \<Rightarrow> bool" where
  "Handler_IsOpen h = Port_IsOpen (h_port h)"

lemmas handler_defs [go_defs] = NewHandlerWithConfig_def NewHandler_def NewHandlerWithPort_def
  Handler_Read_def Handler_Write_def Handler_WriteWithLock_def Handler_SetWriteLockOwner_def
  Handler_ClearWriteLock_def Handler_Close_def Handler_IsOpen_def

subsection \<open>The contract of a port\<close>

text \<open>
  What the callers of a port may rely on whatever the driver does. The scanners use it through
  \<open>probe\<close>: open the port and close it again at once.
\<close>

locale serial_port =
  fixes popen :: "string \<Rightarrow> 'p \<Rightarrow> 'p \<times> go_error option"
    and pclose :: "'p \<Rightarrow> 'p"
    and popened :: "'p \<Rightarrow> bool"
  assumes open_ok: "snd (popen path p) = None \<Longrightarrow> popened (fst (popen path p))"
    and open_failed: "snd (popen path p) \<noteq> None \<Longrightarrow> fst (popen path p) = p"
    and closed: "\<not> popened (pclose p)"
begin

definition probe :: "string \<Rightarrow> 'p \<Rightarrow> 'p \<times> bool" where
  "probe path p = (let (p', err) = popen path p in if err = None then (pclose p', True) else (p', False))"

lemma probe_result: "snd (probe path p) \<longleftrightarrow> snd (popen path p) = None"
  by (simp add: probe_def split: prod.splits)

lemma probe_leaves_closed: "\<not> popened p \<Longrightarrow> \<not> popened (fst (probe path p))"
  using open_failed [of path p] by (auto simp: probe_def closed split: prod.splits)

lemma open_iff: "\<not> popened p \<Longrightarrow> popened (fst (popen path p)) \<longleftrightarrow> snd (popen path p) = None"
  using open_ok [of path p] open_failed [of path p] by fastforce

end

interpretation mock_port: serial_port MockSerialPort_Open MockSerialPort_Close MockSerialPort_IsOpen
  by unfold_locales (simp_all add: go_defs)

interpretation real_port: serial_port "RealSerialPort_Open drv" "RealSerialPort_Close drv"
  RealSerialPort_IsOpen for drv :: "'d driver"
  by unfold_locales (auto simp: go_defs split: sum.splits)

interpretation any_port: serial_port "Port_Open drv" "Port_Close drv" Port_IsOpen for drv :: "'d driver"
proof unfold_locales
  fix path and p :: "'d any_port"
  show "snd (Port_Open drv path p) = None \<Longrightarrow> Port_IsOpen (fst (Port_Open drv path p))"
    by (cases p) (auto simp: go_defs split: sum.splits)
  show "snd (Port_Open drv path p) \<noteq> None \<Longrightarrow> fst (Port_Open drv path p) = p"
    by (cases p) (auto simp: go_defs split: sum.splits)
  show "\<not> Port_IsOpen (Port_Close drv p)"
    by (cases p) (simp_all add: go_defs)
qed

text \<open>\<open>NewPort\<close> never returns an error and always an open port: the real device opened at
  115200 baud when the driver can open it, and otherwise a fresh mock port, so its callers'
  error branches are unreachable.\<close>

theorem NewPort_total:
  "NewPort drv path = Inr (case drv_open drv path 115200 of
       Inr dev \<Rightarrow> RealPort \<lparr>rs_port = Some dev, rs_open = True, rs_path = path, rs_config = DefaultConfig\<rparr>
     | Inl _ \<Rightarrow> MockPort \<lparr>ms_open = True, ms_path = path, ms_inputBuffer = [], ms_outputBuffer = []\<rparr>)"
  by (simp add: NewPort_def go_defs DefaultConfig_def BaudRate_def split: sum.splits)

text \<open>An unopened or closed real port refuses to read and write with \<open>ErrPortNotOpen\<close> and never
  reaches the driver.\<close>

theorem real_port_gate:
  "RealSerialPort_Read drv n (RealSerialPort_Close drv r) =
     (RealSerialPort_Close drv r, Inl ErrPortNotOpen) \<and>
   RealSerialPort_Write drv buf (RealSerialPort_Close drv r) =
     (RealSerialPort_Close drv r, Inl ErrPortNotOpen) \<and>
   RealSerialPort_Read drv n NewRealSerialPort = (NewRealSerialPort, Inl ErrPortNotOpen) \<and>
   RealSerialPort_Write drv buf NewRealSerialPort = (NewRealSerialPort, Inl ErrPortNotOpen)"
  by (simp add: go_defs split: option.split)

text \<open>\<open>WriteWithLock\<close> reaches the port exactly when the caller is the recorded write owner, and
  otherwise returns an error with handler and port unchanged.\<close>

theorem write_with_lock_gate:
  "Handler_WriteWithLock drv c buf (Handler_SetWriteLockOwner d h) =
     (if c = d then Handler_Write drv buf (Handler_SetWriteLockOwner d h)
      else (Handler_SetWriteLockOwner d h, Inl (ErrorString ''write lock not held by this client'')))"
  by (simp add: go_defs)

text \<open>A mock port is a lossless FIFO for its reader: after any sequence of injections and reads,
  the bytes read, followed by those still buffered, are the bytes buffered at first followed by
  those injected.\<close>

theorem mock_serial_fifo:
  "snd (mock_in.run ops m) @ ms_inputBuffer (fst (mock_in.run ops m)) =
     ms_inputBuffer m @ concat (map (\<lambda>x. case x of SPut d \<Rightarrow> d | SGet _ \<Rightarrow> []) ops)"
  by (rule mock_in.stream_conservation) simp

end
