(* ===== verification/Port_Sync.thy ===== *)
theory Port_Sync
  imports Serial_Port
begin

text \<open>
  Who waits for whom in \<open>RealSerialPort\<close>. On Windows and macOS both \<open>Read\<close> and \<open>Write\<close> take
  the port's mutex and hold it across the driver call; on Linux neither does. One goroutine
  reads (\<open>readSerialAndBroadcast\<close>), one writes (\<open>handleClient\<close>). The driver's read returns only
  when the device has bytes, as \<open>go.bug.st/serial\<close> documents for a port without a read timeout.

  Proved: on Linux a write goes through whatever the reader does; with the mutex, no write
  reaches the device while the reader waits for a silent device.
\<close>

datatype sync_thread = Reader | Writer

datatype reader_pc = RIdle | RLock nat | RDevice nat

datatype writer_pc = WIdle | WLock bytes | WDevice bytes

record port_sync =
  ps_mutex :: "sync_thread option"
  ps_reader :: reader_pc
  ps_writer :: writer_pc
  ps_in :: bytes
  ps_out :: bytes

datatype sync_event =
    ReadCall nat | ReadLock | ReadReturn bytes
  | WriteCall bytes | WriteLock | WriteReturn
  | DeviceInput bytes

definition sync_init :: port_sync where
  "sync_init = \<lparr>ps_mutex = None, ps_reader = RIdle, ps_writer = WIdle, ps_in = [], ps_out = []\<rparr>"

definition unlock_by :: "sync_thread \<Rightarrow> port_sync \<Rightarrow> port_sync" where
  "unlock_by t s = (if ps_mutex s = Some t then s\<lparr>ps_mutex := None\<rparr> else s)"

inductive port_step :: "bool \<Rightarrow> port_sync \<Rightarrow> sync_event \<Rightarrow> port_sync \<Rightarrow> bool" for locking where
  read_call: "ps_reader s = RIdle \<Longrightarrow>
    port_step locking s (ReadCall n) (s\<lparr>ps_reader := (if locking then RLock n else RDevice n)\<rparr>)"
| read_lock: "ps_reader s = RLock n \<Longrightarrow> ps_mutex s = None \<Longrightarrow>
    port_step locking s ReadLock (s\<lparr>ps_reader := RDevice n, ps_mutex := Some Reader\<rparr>)"
| read_return: "ps_reader s = RDevice n \<Longrightarrow> ps_in s \<noteq> [] \<Longrightarrow> d = take n (ps_in s) \<Longrightarrow>
    port_step locking s (ReadReturn d)
      (unlock_by Reader (s\<lparr>ps_reader := RIdle, ps_in := drop n (ps_in s)\<rparr>))"
| write_call: "ps_writer s = WIdle \<Longrightarrow>
    port_step locking s (WriteCall d) (s\<lparr>ps_writer := (if locking then WLock d else WDevice d)\<rparr>)"
| write_lock: "ps_writer s = WLock d \<Longrightarrow> ps_mutex s = None \<Longrightarrow>
    port_step locking s WriteLock (s\<lparr>ps_writer := WDevice d, ps_mutex := Some Writer\<rparr>)"
| write_return: "ps_writer s = WDevice d \<Longrightarrow>
    port_step locking s WriteReturn
      (unlock_by Writer (s\<lparr>ps_writer := WIdle, ps_out := ps_out s @ d\<rparr>))"
| device_input: "port_step locking s (DeviceInput d) (s\<lparr>ps_in := ps_in s @ d\<rparr>)"

inductive_cases port_stepE: "port_step locking s e t"

inductive port_steps :: "bool \<Rightarrow> port_sync \<Rightarrow> sync_event list \<Rightarrow> port_sync \<Rightarrow> bool" for locking where
  steps_nil: "port_steps locking s [] s"
| steps_cons: "port_step locking s e t \<Longrightarrow> port_steps locking t es u \<Longrightarrow> port_steps locking s (e # es) u"

inductive_simps port_steps_Nil: "port_steps locking s [] u"
inductive_simps port_steps_Cons: "port_steps locking s (e # es) u"

interpretation port_runs: runs "port_step locking" "port_steps locking" for locking
  by unfold_locales (auto simp: port_steps_Nil port_steps_Cons)

definition linux_port_step :: "port_sync \<Rightarrow> sync_event \<Rightarrow> port_sync \<Rightarrow> bool" where
  "linux_port_step = port_step False"

definition windows_port_step :: "port_sync \<Rightarrow> sync_event \<Rightarrow> port_sync \<Rightarrow> bool" where
  "windows_port_step = port_step True"

definition darwin_port_step :: "port_sync \<Rightarrow> sync_event \<Rightarrow> port_sync \<Rightarrow> bool" where
  "darwin_port_step = port_step True"

subsection \<open>The mutex\<close>

text \<open>With the mutex, at most one of the two goroutines is inside the driver: its holder.\<close>

definition mutex_inv :: "port_sync \<Rightarrow> bool" where
  "mutex_inv s \<longleftrightarrow>
     ((\<exists>n. ps_reader s = RDevice n) \<longleftrightarrow> ps_mutex s = Some Reader) \<and>
     ((\<exists>d. ps_writer s = WDevice d) \<longleftrightarrow> ps_mutex s = Some Writer)"

lemma mutex_inv_init: "mutex_inv sync_init"
  by (simp add: mutex_inv_def sync_init_def)

lemma mutex_inv_step: "port_step True s e t \<Longrightarrow> mutex_inv s \<Longrightarrow> mutex_inv t"
  by (induction rule: port_step.induct) (auto simp: mutex_inv_def unlock_by_def)

lemma mutex_inv_steps:
  assumes "port_steps True s es t" and "mutex_inv s"
  shows "mutex_inv t"
  using assms by (rule port_runs.steps_keep) (rule mutex_inv_step)

text \<open>The reader waits in the driver for a device that has nothing to say.\<close>

definition reader_stuck :: "port_sync \<Rightarrow> bool" where
  "reader_stuck s \<longleftrightarrow> ps_mutex s = Some Reader \<and> (\<exists>n. ps_reader s = RDevice n) \<and> ps_in s = [] \<and>
     (\<forall>d. ps_writer s \<noteq> WDevice d)"

lemma reader_stuck_step:
  "port_step True s e t \<Longrightarrow> reader_stuck s \<Longrightarrow> (\<And>d. e \<noteq> DeviceInput d) \<Longrightarrow>
     reader_stuck t \<and> ps_out t = ps_out s"
  by (erule port_stepE) (auto simp: reader_stuck_def)

lemma reader_stuck_steps:
  assumes "port_steps True s es t" and "reader_stuck s" and "\<forall>d. DeviceInput d \<notin> set es"
  shows "reader_stuck t \<and> ps_out t = ps_out s"
  by (rule port_runs.steps_keep_on [OF assms(1), where P = "\<lambda>u. reader_stuck u \<and> ps_out u = ps_out s"
        and Q = "\<lambda>e. \<forall>d. e \<noteq> DeviceInput d"]) (use assms(2,3) in \<open>auto dest: reader_stuck_step\<close>)

text \<open>On Windows and macOS, once \<open>Read\<close> waits in the driver with the port's mutex, nothing
  that \<open>Write\<close> is given reaches the device until the device itself sends something.\<close>

theorem locked_write_blocked:
  assumes "port_steps True sync_init es s" and "ps_reader s = RDevice n" and "ps_in s = []"
    and "port_steps True s es' t" and "\<forall>d. DeviceInput d \<notin> set es'"
  shows "ps_out t = ps_out s"
proof -
  have "mutex_inv s" using assms(1) mutex_inv_init by (rule mutex_inv_steps)
  with assms(2,3) have "reader_stuck s" by (auto simp: mutex_inv_def reader_stuck_def)
  with reader_stuck_steps [OF assms(4) _ assms(5)] show ?thesis by simp
qed

theorem locked_write_blocked_witness:
  "\<exists>s t. port_steps True sync_init [ReadCall 4096, ReadLock] s \<and>
     port_steps True s [WriteCall [13]] t \<and> ps_writer t = WLock [13] \<and> ps_out t = ps_out s"
proof -
  define s where "s = sync_init\<lparr>ps_reader := RDevice 4096, ps_mutex := Some Reader\<rparr>"
  define t where "t = s\<lparr>ps_writer := WLock [13]\<rparr>"
  have 1: "port_steps True sync_init [ReadCall 4096, ReadLock] s"
    by (auto simp: port_steps_Cons port_steps_Nil port_step.simps sync_init_def s_def)
  have 2: "port_steps True s [WriteCall [13]] t"
    by (auto simp: port_steps_Cons port_steps_Nil port_step.simps sync_init_def s_def t_def)
  have "ps_out t = ps_out s"
    by (rule locked_write_blocked [OF 1 _ _ 2]) (simp_all add: s_def sync_init_def)
  moreover have "ps_writer t = WLock [13]" by (simp add: t_def)
  ultimately show ?thesis using 1 2 by blast
qed

text \<open>On Linux a write never waits for the reader: whatever state the port is in, a call of
  \<open>Write\<close> can run to its end on its own, delivering exactly its bytes.\<close>

theorem linux_write_never_waits:
  assumes "ps_writer s = WIdle"
  shows "\<exists>t u. linux_port_step s (WriteCall d) t \<and> linux_port_step t WriteReturn u \<and>
    ps_out u = ps_out s @ d \<and> ps_reader u = ps_reader s"
proof -
  let ?t = "s\<lparr>ps_writer := WDevice d\<rparr>"
  have "linux_port_step s (WriteCall d) ?t"
    using write_call [OF assms, of False d] by (simp add: linux_port_step_def)
  moreover let ?u = "unlock_by Writer (?t\<lparr>ps_writer := WIdle, ps_out := ps_out ?t @ d\<rparr>)"
  have "linux_port_step ?t WriteReturn ?u"
    unfolding linux_port_step_def by (rule write_return) simp
  moreover have "ps_out ?u = ps_out s @ d \<and> ps_reader ?u = ps_reader s"
    by (simp add: unlock_by_def)
  ultimately show ?thesis by blast
qed

theorem linux_write_never_waits_witness:
  "\<exists>t u. linux_port_step (sync_init\<lparr>ps_reader := RDevice 4096\<rparr>) (WriteCall [13]) t \<and>
     linux_port_step t WriteReturn u \<and> ps_out u = [13] \<and> ps_reader u = RDevice 4096"
  using linux_write_never_waits [of "sync_init\<lparr>ps_reader := RDevice 4096\<rparr>" "[13]"]
  by (simp add: sync_init_def)

end
