(* ===== verification/Port_Platforms.thy ===== *)
theory Port_Platforms
  imports Port_Sync
begin

text \<open>
  The ports of Windows and macOS, \<open>real_serial_windows.go\<close> and \<open>real_serial_darwin.go\<close>, which differ from
  each other only in comments: every method takes the port's mutex for its whole body. A call on a
  port whose mutex is taken waits, which is \<open>None\<close>. Callers that come one after the other see the
  port of Linux.
\<close>

record 'd guarded_port =
  gp_mu :: bool
  gp_port :: "'d real_serial"

definition guarded_NewRealSerialPort :: "'d guarded_port" where
  "guarded_NewRealSerialPort = \<lparr>gp_mu = False, gp_port = NewRealSerialPort\<rparr>"

text \<open>\<open>r.mu.Lock()\<close>, the body, and the deferred \<open>r.mu.Unlock()\<close>.\<close>

definition with_mutex :: "('d real_serial \<Rightarrow> 'd real_serial \<times> 'r) \<Rightarrow> 'd guarded_port \<Rightarrow> ('d guarded_port \<times> 'r) option" where
  "with_mutex f g =
     (if gp_mu g then None
      else let (p, r) = f (gp_port g) in Some (g\<lparr>gp_mu := False, gp_port := p\<rparr>, r))"

definition guarded_Open :: "'d driver \<Rightarrow> string \<Rightarrow> 'd guarded_port \<Rightarrow> ('d guarded_port \<times> go_error option) option" where
  "guarded_Open drv path =
     with_mutex (\<lambda>r. case drv_open drv path (sc_BaudRate (rs_config r)) of
       Inl err \<Rightarrow> (r, Some err)
     | Inr port \<Rightarrow> (r\<lparr>rs_port := Some port, rs_path := path, rs_open := True\<rparr>, None))"

definition guarded_Close :: "'d driver \<Rightarrow> 'd guarded_port \<Rightarrow> ('d guarded_port \<times> unit) option" where
  "guarded_Close drv =
     with_mutex (\<lambda>r. (r\<lparr>rs_port := map_option (drv_close drv) (rs_port r), rs_open := False\<rparr>, ()))"

definition guarded_Read :: "'d driver \<Rightarrow> nat \<Rightarrow> 'd guarded_port \<Rightarrow> ('d guarded_port \<times> (go_error + bytes)) option" where
  "guarded_Read drv len =
     with_mutex (\<lambda>r. case rs_port r of
       None \<Rightarrow> (r, Inl ErrPortNotOpen)
     | Some port \<Rightarrow>
         if rs_open r then (let (port', res) = drv_read drv len port in (r\<lparr>rs_port := Some port'\<rparr>, res))
         else (r, Inl ErrPortNotOpen))"

definition guarded_Write :: "'d driver \<Rightarrow> bytes \<Rightarrow> 'd guarded_port \<Rightarrow> ('d guarded_port \<times> (go_error + nat)) option" where
  "guarded_Write drv buf =
     with_mutex (\<lambda>r. case rs_port r of
       None \<Rightarrow> (r, Inl ErrPortNotOpen)
     | Some port \<Rightarrow>
         if rs_open r then (let (port', res) = drv_write drv buf port in (r\<lparr>rs_port := Some port'\<rparr>, res))
         else (r, Inl ErrPortNotOpen))"

definition guarded_IsOpen :: "'d guarded_port \<Rightarrow> ('d guarded_port \<times> bool) option" where
  "guarded_IsOpen = with_mutex (\<lambda>r. (r, rs_open r))"

definition guarded_SetConfig :: "'d driver \<Rightarrow> serial_config \<Rightarrow> 'd guarded_port \<Rightarrow> ('d guarded_port \<times> go_error option) option" where
  "guarded_SetConfig drv config =
     with_mutex (\<lambda>r. let r1 = r\<lparr>rs_config := config\<rparr> in
       case rs_port r1 of
         None \<Rightarrow> (r1, None)
       | Some port \<Rightarrow> (let (port', res) = drv_setmode drv (sc_BaudRate config) port in (r1\<lparr>rs_port := Some port'\<rparr>, res)))"

definition guarded_GetPath :: "'d guarded_port \<Rightarrow> ('d guarded_port \<times> string) option" where
  "guarded_GetPath = with_mutex (\<lambda>r. (r, rs_path r))"

subsection \<open>One call after the other\<close>

datatype port_call = COpen string | CClose | CRead nat | CWrite bytes | CIsOpen | CSetConfig serial_config | CGetPath

datatype port_result = RErr "go_error option" | RUnit | RRead "go_error + bytes" | RWrite "go_error + nat" | RBool bool | RPath string

fun linux_call :: "'d driver \<Rightarrow> port_call \<Rightarrow> 'd real_serial \<Rightarrow> 'd real_serial \<times> port_result" where
  "linux_call drv (COpen path) r = apsnd RErr (RealSerialPort_Open drv path r)"
| "linux_call drv CClose r = (RealSerialPort_Close drv r, RUnit)"
| "linux_call drv (CRead n) r = apsnd RRead (RealSerialPort_Read drv n r)"
| "linux_call drv (CWrite b) r = apsnd RWrite (RealSerialPort_Write drv b r)"
| "linux_call drv CIsOpen r = (r, RBool (RealSerialPort_IsOpen r))"
| "linux_call drv (CSetConfig c) r = apsnd RErr (RealSerialPort_SetConfig drv c r)"
| "linux_call drv CGetPath r = (r, RPath (RealSerialPort_GetPath r))"

fun guarded_call :: "'d driver \<Rightarrow> port_call \<Rightarrow> 'd guarded_port \<Rightarrow> ('d guarded_port \<times> port_result) option" where
  "guarded_call drv (COpen path) g = map_option (apsnd RErr) (guarded_Open drv path g)"
| "guarded_call drv CClose g = map_option (apsnd (\<lambda>_. RUnit)) (guarded_Close drv g)"
| "guarded_call drv (CRead n) g = map_option (apsnd RRead) (guarded_Read drv n g)"
| "guarded_call drv (CWrite b) g = map_option (apsnd RWrite) (guarded_Write drv b g)"
| "guarded_call drv CIsOpen g = map_option (apsnd RBool) (guarded_IsOpen g)"
| "guarded_call drv (CSetConfig c) g = map_option (apsnd RErr) (guarded_SetConfig drv c g)"
| "guarded_call drv CGetPath g = map_option (apsnd RPath) (guarded_GetPath g)"

fun linux_calls :: "'d driver \<Rightarrow> port_call list \<Rightarrow> 'd real_serial \<Rightarrow> 'd real_serial \<times> port_result list" where
  "linux_calls drv [] r = (r, [])"
| "linux_calls drv (c # cs) r =
     (let (r1, x) = linux_call drv c r; (r2, xs) = linux_calls drv cs r1 in (r2, x # xs))"

fun guarded_calls :: "'d driver \<Rightarrow> port_call list \<Rightarrow> 'd guarded_port \<Rightarrow> ('d guarded_port \<times> port_result list) option" where
  "guarded_calls drv [] g = Some (g, [])"
| "guarded_calls drv (c # cs) g =
     (case guarded_call drv c g of
        None \<Rightarrow> None
      | Some (g1, x) \<Rightarrow> map_option (apsnd (Cons x)) (guarded_calls drv cs g1))"

lemmas guarded_defs = guarded_Open_def guarded_Close_def guarded_Read_def guarded_Write_def guarded_IsOpen_def
  guarded_SetConfig_def guarded_GetPath_def with_mutex_def

lemma guarded_call_free:
  "\<not> gp_mu g \<Longrightarrow> guarded_call drv c g =
     Some (g\<lparr>gp_mu := False, gp_port := fst (linux_call drv c (gp_port g))\<rparr>, snd (linux_call drv c (gp_port g)))"
  by (cases c) (auto simp: guarded_defs go_defs Let_def split: sum.splits option.splits prod.splits)

text \<open>A caller that makes its calls one after the other never waits for itself, and gets the results of
  the port of Linux: no method leaves the mutex taken, on any of its paths.\<close>

theorem guarded_calls_are_linux:
  "case linux_calls drv cs NewRealSerialPort of (r, xs) \<Rightarrow>
     guarded_calls drv cs guarded_NewRealSerialPort = Some (\<lparr>gp_mu = False, gp_port = r\<rparr>, xs)"
proof -
  have "guarded_calls drv cs \<lparr>gp_mu = False, gp_port = p\<rparr> =
      Some (\<lparr>gp_mu = False, gp_port = fst (linux_calls drv cs p)\<rparr>, snd (linux_calls drv cs p))" for p
    by (induction cs arbitrary: p) (simp_all add: guarded_call_free split: prod.split)
  from this [of NewRealSerialPort] show ?thesis
    by (simp add: guarded_NewRealSerialPort_def split: prod.split)
qed

end
