(* ===== verification/Broadcast.thy ===== *)
theory Broadcast
  imports Buffers "HOL-Library.Multiset"
begin

text \<open>
  The one-to-many broadcaster, \<open>internal/broadcast/broadcast.go\<close>, with the mock client that is
  the only implementation of its \<open>Client\<close> interface. \<open>process\<close> starts one goroutine per client
  and chunk (\<open>go client.Send(data)\<close>); those that have not run yet are the multiset
  \<open>bs_pending\<close>, because the scheduler may run them in any order. Clients are pointers: the map
  of the struct holds references into the store \<open>bs_objs\<close>. The two ghost fields record, per
  client, what \<open>process\<close> has handed to goroutines and what the client has taken from its queue.

  Proved: nothing is lost, duplicated or invented on the way to a client; a client with a full
  queue holds up nobody else; the order of the chunks is not kept; the received buffer is the
  tail of what was taken; and how sends and closes panic.
\<close>

subsection \<open>The mock client\<close>

record mock_client =
  mc_id :: string
  mc_delay :: int
  mc_received :: bytes
  mc_sendQueue :: "bytes chan"
  mc_MaxBufferSize :: int

definition DefaultMaxBufferSize :: int where
  "DefaultMaxBufferSize = 1 * 1024 * 1024"

definition NewMockClientWithDelay :: "string \<Rightarrow> int \<Rightarrow> mock_client" where
  "NewMockClientWithDelay i delay =
     \<lparr>mc_id = i, mc_delay = delay, mc_received = [], mc_sendQueue = make_chan 1024,
      mc_MaxBufferSize = DefaultMaxBufferSize\<rparr>"

definition NewMockClient :: "string \<Rightarrow> mock_client" where
  "NewMockClient i =
     \<lparr>mc_id = i, mc_delay = 0, mc_received = [], mc_sendQueue = make_chan 1024,
      mc_MaxBufferSize = DefaultMaxBufferSize\<rparr>"

text \<open>The slice \<open>xs[len(xs)-m:]\<close> of \<open>m < len(xs)\<close> panics when \<open>m\<close> is negative.\<close>

definition tail_slice :: "int \<Rightarrow> 'a list \<Rightarrow> go_panic + 'a list" where
  "tail_slice m xs = (if m < 0 then Inl SliceBounds else Inr (keep_last (nat m) xs))"

definition appendWithLimit :: "bytes \<Rightarrow> mock_client \<Rightarrow> go_panic + mock_client" where
  "appendWithLimit data mc =
     (let r = mc_received mc @ data in
      if mc_MaxBufferSize mc < int (length r)
      then (case tail_slice (mc_MaxBufferSize mc) r of
              Inl p \<Rightarrow> Inl p
            | Inr r' \<Rightarrow> Inr (mc\<lparr>mc_received := r'\<rparr>))
      else Inr (mc\<lparr>mc_received := r\<rparr>))"

text \<open>One turn of the loops \<open>for data := range mc.sendQueue\<close>; the delay only passes time.\<close>

definition processQueue_iter :: "mock_client \<Rightarrow> (go_panic + mock_client) option" where
  "processQueue_iter mc =
     (case chan_recv (mc_sendQueue mc) of
        (Got data, q) \<Rightarrow> Some (appendWithLimit data (mc\<lparr>mc_sendQueue := q\<rparr>))
      | _ \<Rightarrow> None)"

definition MockClient_ID :: "mock_client \<Rightarrow> string" where
  "MockClient_ID mc = mc_id mc"

definition MockClient_Send :: "bytes \<Rightarrow> mock_client \<Rightarrow> go_panic + mock_client option" where
  "MockClient_Send data mc =
     (case chan_send data (mc_sendQueue mc) of
        Inl p \<Rightarrow> Inl p
      | Inr None \<Rightarrow> Inr None
      | Inr (Some q) \<Rightarrow> Inr (Some (mc\<lparr>mc_sendQueue := q\<rparr>)))"

definition GetReceivedData :: "mock_client \<Rightarrow> bytes" where
  "GetReceivedData mc = mc_received mc"

lemma appendWithLimit_eq:
  "0 \<le> mc_MaxBufferSize mc \<Longrightarrow>
     appendWithLimit d mc =
       Inr (mc\<lparr>mc_received := keep_last (nat (mc_MaxBufferSize mc)) (mc_received mc @ d)\<rparr>)"
  by (simp add: appendWithLimit_def tail_slice_def Let_def)

interpretation mock_client_log: bounded_log mc_received mc_MaxBufferSize appendWithLimit
  by unfold_locales (auto simp: appendWithLimit_eq)

subsection \<open>The broadcaster\<close>

record broadcaster =
  bc_clients :: "string \<rightharpoonup> nat"
  bc_input :: "bytes chan"

definition NewBroadcaster :: broadcaster where
  "NewBroadcaster = \<lparr>bc_clients = Map.empty, bc_input = make_chan 1024\<rparr>"

definition AddClient :: "mock_client \<Rightarrow> nat \<Rightarrow> broadcaster \<Rightarrow> broadcaster" where
  "AddClient client ref b = b\<lparr>bc_clients := (bc_clients b)(MockClient_ID client \<mapsto> ref)\<rparr>"

definition RemoveClient :: "mock_client \<Rightarrow> broadcaster \<Rightarrow> broadcaster" where
  "RemoveClient client b = b\<lparr>bc_clients := (bc_clients b)(MockClient_ID client := None)\<rparr>"

definition Broadcaster_Broadcast :: "bytes \<Rightarrow> broadcaster \<Rightarrow> go_panic + broadcaster option" where
  "Broadcaster_Broadcast data b =
     (case chan_send data (bc_input b) of
        Inl p \<Rightarrow> Inl p
      | Inr None \<Rightarrow> Inr None
      | Inr (Some q) \<Rightarrow> Inr (Some (b\<lparr>bc_input := q\<rparr>)))"

definition Broadcaster_ClientCount :: "broadcaster \<Rightarrow> nat" where
  "Broadcaster_ClientCount b = card (dom (bc_clients b))"

text \<open>\<open>Close\<close> also waits for \<open>bc.wg\<close>, to which nothing is ever added: the wait returns at once.\<close>

definition Broadcaster_Close :: "broadcaster \<Rightarrow> go_panic + broadcaster" where
  "Broadcaster_Close b =
     (case chan_close (bc_input b) of Inl p \<Rightarrow> Inl p | Inr q \<Rightarrow> Inr (b\<lparr>bc_input := q\<rparr>))"

subsection \<open>The running system\<close>

record bc_sys =
  bs_bc :: broadcaster
  bs_objs :: "nat \<Rightarrow> mock_client"
  bs_pending :: "(nat \<times> bytes) multiset"
  bs_sent :: "nat \<Rightarrow> bytes multiset"
  bs_taken :: "nat \<Rightarrow> bytes list"

datatype bc_event =
    BSend bytes | BProcess bytes | BDeliver nat bytes | BTake nat bytes
  | BAdd nat | BRemove nat | BClose

text \<open>The references to which one turn of \<open>process\<close> sends, one for each entry of the map.\<close>

definition recipients :: "broadcaster \<Rightarrow> nat multiset" where
  "recipients b = image_mset (\<lambda>k. the (bc_clients b k)) (mset_set (dom (bc_clients b)))"

inductive bc_step :: "bc_sys \<Rightarrow> bc_event \<Rightarrow> bc_sys \<Rightarrow> bool" where
  send: "Broadcaster_Broadcast d (bs_bc s) = Inr (Some b) \<Longrightarrow> bc_step s (BSend d) (s\<lparr>bs_bc := b\<rparr>)"
| process: "chan_recv (bc_input (bs_bc s)) = (Got d, q) \<Longrightarrow>
    bc_step s (BProcess d)
      (s\<lparr>bs_bc := (bs_bc s)\<lparr>bc_input := q\<rparr>,
         bs_pending := bs_pending s + image_mset (\<lambda>r. (r, d)) (recipients (bs_bc s)),
         bs_sent := (\<lambda>r. bs_sent s r + replicate_mset (count (recipients (bs_bc s)) r) d)\<rparr>)"
| deliver: "(r, d) \<in># bs_pending s \<Longrightarrow> MockClient_Send d (bs_objs s r) = Inr (Some mc) \<Longrightarrow>
    bc_step s (BDeliver r d)
      (s\<lparr>bs_objs := (bs_objs s)(r := mc), bs_pending := bs_pending s - {#(r, d)#}\<rparr>)"
| take: "chan_recv (mc_sendQueue (bs_objs s r)) = (Got d, q) \<Longrightarrow>
    processQueue_iter (bs_objs s r) = Some (Inr mc) \<Longrightarrow>
    bc_step s (BTake r d)
      (s\<lparr>bs_objs := (bs_objs s)(r := mc), bs_taken := (bs_taken s)(r := bs_taken s r @ [d])\<rparr>)"
| add: "bc_step s (BAdd r) (s\<lparr>bs_bc := AddClient (bs_objs s r) r (bs_bc s)\<rparr>)"
| remove: "bc_step s (BRemove r) (s\<lparr>bs_bc := RemoveClient (bs_objs s r) (bs_bc s)\<rparr>)"
| close: "Broadcaster_Close (bs_bc s) = Inr b \<Longrightarrow> bc_step s BClose (s\<lparr>bs_bc := b\<rparr>)"

definition bc_init :: "(nat \<Rightarrow> mock_client) \<Rightarrow> bc_sys" where
  "bc_init objs = \<lparr>bs_bc = NewBroadcaster, bs_objs = objs, bs_pending = {#},
     bs_sent = (\<lambda>_. {#}), bs_taken = (\<lambda>_. [])\<rparr>"

inductive bc_steps :: "bc_sys \<Rightarrow> bc_event list \<Rightarrow> bc_sys \<Rightarrow> bool" where
  bc_nil: "bc_steps s [] s"
| bc_cons: "bc_step s e t \<Longrightarrow> bc_steps t es u \<Longrightarrow> bc_steps s (e # es) u"

inductive_cases bc_stepE: "bc_step s e t"
inductive_simps bc_steps_Nil: "bc_steps s [] u"
inductive_simps bc_steps_Cons: "bc_steps s (e # es) u"

interpretation bc_runs: runs bc_step bc_steps
  by unfold_locales (auto simp: bc_steps_Nil bc_steps_Cons)

subsection \<open>Conservation\<close>

definition in_flight :: "nat \<Rightarrow> bc_sys \<Rightarrow> bytes multiset" where
  "in_flight r s = image_mset snd (filter_mset (\<lambda>p. fst p = r) (bs_pending s))"

definition queued :: "nat \<Rightarrow> bc_sys \<Rightarrow> bytes list" where
  "queued r s = ch_buf (mc_sendQueue (bs_objs s r))"

definition bc_inv :: "bc_sys \<Rightarrow> bool" where
  "bc_inv s \<longleftrightarrow> (\<forall>r.
     bs_sent s r = in_flight r s + mset (queued r s) + mset (bs_taken s r) \<and>
     mc_MaxBufferSize (bs_objs s r) = DefaultMaxBufferSize \<and>
     mc_received (bs_objs s r) = keep_last (nat DefaultMaxBufferSize) (concat (bs_taken s r)) \<and>
     \<not> ch_closed (mc_sendQueue (bs_objs s r)) \<and> ch_cap (mc_sendQueue (bs_objs s r)) = 1024)"

lemma image_filter_pairs:
  "image_mset snd (filter_mset (\<lambda>p. fst p = r) (image_mset (\<lambda>q. (q, d)) M)) = replicate_mset (count M r) d"
  by (induction M) auto

lemma processQueue_iter_step:
  assumes "chan_recv (mc_sendQueue mc) = (Got d, q)" and "processQueue_iter mc = Some (Inr mc')"
    and "0 \<le> mc_MaxBufferSize mc"
  shows "mc' = mc\<lparr>mc_sendQueue := q,
    mc_received := keep_last (nat (mc_MaxBufferSize mc)) (mc_received mc @ d)\<rparr>"
  using assms by (simp add: processQueue_iter_def appendWithLimit_eq)

lemma MockClient_Send_Some:
  "MockClient_Send d mc = Inr (Some mc') \<longleftrightarrow>
     \<not> ch_closed (mc_sendQueue mc) \<and> length (ch_buf (mc_sendQueue mc)) < ch_cap (mc_sendQueue mc) \<and>
     mc' = mc\<lparr>mc_sendQueue := (mc_sendQueue mc)\<lparr>ch_buf := ch_buf (mc_sendQueue mc) @ [d]\<rparr>\<rparr>"
  by (auto simp: MockClient_Send_def chan_send_def)

lemma bc_inv_process:
  assumes "bc_inv s"
  shows "bc_inv (s\<lparr>bs_bc := b,
         bs_pending := bs_pending s + image_mset (\<lambda>r. (r, d)) M,
         bs_sent := (\<lambda>r. bs_sent s r + replicate_mset (count M r) d)\<rparr>)"
  using assms by (simp add: bc_inv_def in_flight_def queued_def image_filter_pairs ac_simps)

lemma bc_inv_deliver:
  assumes "bc_inv s" and "(r, d) \<in># bs_pending s" and "MockClient_Send d (bs_objs s r) = Inr (Some mc)"
  shows "bc_inv (s\<lparr>bs_objs := (bs_objs s)(r := mc), bs_pending := bs_pending s - {#(r, d)#}\<rparr>)"
proof -
  from assms(2) obtain P where P: "bs_pending s = add_mset (r, d) P" by (metis multi_member_split)
  with assms(1,3) show ?thesis
    by (auto simp: bc_inv_def in_flight_def queued_def MockClient_Send_Some)
qed

lemma bc_inv_take:
  assumes "bc_inv s" and "chan_recv (mc_sendQueue (bs_objs s r)) = (Got d, q)"
    and "processQueue_iter (bs_objs s r) = Some (Inr mc)"
  shows "bc_inv (s\<lparr>bs_objs := (bs_objs s)(r := mc), bs_taken := (bs_taken s)(r := bs_taken s r @ [d])\<rparr>)"
proof -
  have max: "mc_MaxBufferSize (bs_objs s r) = DefaultMaxBufferSize" using assms(1) by (simp add: bc_inv_def)
  have mc: "mc = (bs_objs s r)\<lparr>mc_sendQueue := q,
      mc_received := keep_last (nat DefaultMaxBufferSize) (mc_received (bs_objs s r) @ d)\<rparr>"
    using processQueue_iter_step [OF assms(2,3)] by (simp add: max DefaultMaxBufferSize_def)
  from assms(1,2) show ?thesis
    by (auto simp: bc_inv_def in_flight_def queued_def mc chan_recv_Got keep_last_append_keep)
qed

lemma bc_inv_step: "bc_step s e t \<Longrightarrow> bc_inv s \<Longrightarrow> bc_inv t"
proof (induction rule: bc_step.induct)
  case (process s d q)
  show ?case by (rule bc_inv_process [OF process.prems])
next
  case (deliver r d s mc)
  then show ?case by (simp add: bc_inv_deliver)
next
  case (take s r d q mc)
  show ?case by (rule bc_inv_take [OF take.prems take.hyps])
qed (simp_all add: bc_inv_def in_flight_def queued_def)

lemma bc_inv_steps:
  assumes "bc_steps s es t" and "bc_inv s"
  shows "bc_inv t"
  using assms by (rule bc_runs.steps_keep) (rule bc_inv_step)

lemma bc_inv_init: "bc_inv (bc_init (\<lambda>r. NewMockClient (ids r)))"
  by (simp add: bc_inv_def bc_init_def in_flight_def queued_def NewMockClient_def DefaultMaxBufferSize_def)

text \<open>C22: nothing is lost, duplicated or invented between the broadcaster and a client: what
  \<open>process\<close> has handed out for it is, as a multiset, what still waits to be sent, what is in its
  queue and what it has taken; and its buffer is the last megabyte of the chunks taken.\<close>

theorem broadcast_conservation:
  assumes "bc_steps (bc_init (\<lambda>r. NewMockClient (ids r))) es s"
  shows "bs_sent s r = in_flight r s + mset (queued r s) + mset (bs_taken s r) \<and>
    mc_received (bs_objs s r) = keep_last 1048576 (concat (bs_taken s r))"
  using bc_inv_steps [OF assms bc_inv_init] by (simp add: bc_inv_def DefaultMaxBufferSize_def)

text \<open>A slow client holds up nobody: in every reachable state a chunk that waits for a client
  with room in its queue can be delivered at once, whatever the other clients' queues, and a
  queued broadcast can always be processed.\<close>

theorem slow_client_is_isolated:
  assumes "bc_steps (bc_init (\<lambda>r. NewMockClient (ids r))) es s"
    and "(r, d) \<in># bs_pending s" and "length (queued r s) < 1024"
  shows "\<exists>t. bc_step s (BDeliver r d) t \<and> queued r t = queued r s @ [d] \<and>
    (\<forall>q. q \<noteq> r \<longrightarrow> bs_objs t q = bs_objs s q)"
proof -
  have "bc_inv s" using assms(1) bc_inv_init by (rule bc_inv_steps)
  then obtain mc where mc: "MockClient_Send d (bs_objs s r) = Inr (Some mc)"
      "ch_buf (mc_sendQueue mc) = queued r s @ [d]"
    using assms(3) by (simp add: bc_inv_def MockClient_Send_Some queued_def)
  let ?t = "s\<lparr>bs_objs := (bs_objs s)(r := mc), bs_pending := bs_pending s - {#(r, d)#}\<rparr>"
  have "bc_step s (BDeliver r d) ?t" by (rule deliver [OF assms(2) mc(1)])
  moreover have "queued r ?t = queued r s @ [d]" "\<forall>q. q \<noteq> r \<longrightarrow> bs_objs ?t q = bs_objs s q"
    using mc(2) by (simp_all add: queued_def)
  ultimately show ?thesis by blast
qed


subsection \<open>Running the system\<close>

text \<open>The step relation as a function of the event, for concrete runs.\<close>

fun bc_exec :: "bc_event \<Rightarrow> bc_sys \<Rightarrow> bc_sys option" where
  "bc_exec (BSend d) s =
     (case Broadcaster_Broadcast d (bs_bc s) of Inr (Some b) \<Rightarrow> Some (s\<lparr>bs_bc := b\<rparr>) | _ \<Rightarrow> None)"
| "bc_exec (BProcess d) s =
     (case chan_recv (bc_input (bs_bc s)) of
        (Got d', q) \<Rightarrow>
          if d' = d
          then Some (s\<lparr>bs_bc := (bs_bc s)\<lparr>bc_input := q\<rparr>,
                 bs_pending := bs_pending s + image_mset (\<lambda>r. (r, d)) (recipients (bs_bc s)),
                 bs_sent := (\<lambda>r. bs_sent s r + replicate_mset (count (recipients (bs_bc s)) r) d)\<rparr>)
          else None
      | _ \<Rightarrow> None)"
| "bc_exec (BDeliver r d) s =
     (if (r, d) \<in># bs_pending s
      then (case MockClient_Send d (bs_objs s r) of
              Inr (Some mc) \<Rightarrow> Some (s\<lparr>bs_objs := (bs_objs s)(r := mc), bs_pending := bs_pending s - {#(r, d)#}\<rparr>)
            | _ \<Rightarrow> None)
      else None)"
| "bc_exec (BTake r d) s =
     (case (fst (chan_recv (mc_sendQueue (bs_objs s r))), processQueue_iter (bs_objs s r)) of
        (Got d', Some (Inr mc)) \<Rightarrow>
          if d' = d
          then Some (s\<lparr>bs_objs := (bs_objs s)(r := mc), bs_taken := (bs_taken s)(r := bs_taken s r @ [d])\<rparr>)
          else None
      | _ \<Rightarrow> None)"
| "bc_exec (BAdd r) s = Some (s\<lparr>bs_bc := AddClient (bs_objs s r) r (bs_bc s)\<rparr>)"
| "bc_exec (BRemove r) s = Some (s\<lparr>bs_bc := RemoveClient (bs_objs s r) (bs_bc s)\<rparr>)"
| "bc_exec BClose s =
     (case Broadcaster_Close (bs_bc s) of Inr b \<Rightarrow> Some (s\<lparr>bs_bc := b\<rparr>) | _ \<Rightarrow> None)"

fun bc_execs :: "bc_event list \<Rightarrow> bc_sys \<Rightarrow> bc_sys option" where
  "bc_execs [] s = Some s"
| "bc_execs (e # es) s = (case bc_exec e s of None \<Rightarrow> None | Some t \<Rightarrow> bc_execs es t)"

lemma bc_exec_step: "bc_exec e s = Some t \<Longrightarrow> bc_step s e t"
proof (cases e)
  case (BTake r d)
  assume "bc_exec e s = Some t"
  with BTake show ?thesis
    by (auto intro!: bc_step.take [of s r d "snd (chan_recv (mc_sendQueue (bs_objs s r)))"]
        simp: prod_eq_iff split: option.splits sum.splits if_splits received.splits)
qed (auto intro: bc_step.intros split: sum.splits option.splits if_splits prod.splits received.splits)

interpretation bc_execution: exec_runs bc_step bc_steps bc_exec bc_execs
  by unfold_locales (simp_all add: bc_exec_step)

lemmas bc_execs_steps = bc_execution.run_steps

lemmas bc_run_simps = bc_init_def NewBroadcaster_def AddClient_def NewMockClient_def MockClient_ID_def
  Broadcaster_Broadcast_def chan_send_def chan_recv_def recipients_def MockClient_Send_def
  processQueue_iter_def appendWithLimit_def make_chan_def DefaultMaxBufferSize_def

text \<open>The broadcaster does not keep the order of the chunks: two chunks broadcast and processed
  one after the other can arrive in a client's buffer the other way round.\<close>

theorem broadcast_can_reorder:
  "\<exists>t. bc_steps (bc_init (\<lambda>_. NewMockClient ''c''))
       [BAdd 0, BSend [1], BSend [2], BProcess [1], BProcess [2],
        BDeliver 0 [2], BDeliver 0 [1], BTake 0 [2], BTake 0 [1]] t \<and>
     GetReceivedData (bs_objs t 0) = [2, 1]"
proof -
  let ?es = "[BAdd 0, BSend [1], BSend [2], BProcess [1], BProcess [2],
        BDeliver 0 [2], BDeliver 0 [1], BTake 0 [2], BTake 0 [1]]"
  have "\<exists>t. bc_execs ?es (bc_init (\<lambda>_. NewMockClient ''c'')) = Some t \<and> GetReceivedData (bs_objs t 0) = [2, 1]"
    by (simp add: bc_run_simps GetReceivedData_def)
  then show ?thesis by (blast dest: bc_execs_steps)
qed

theorem slow_client_is_isolated_witness:
  "\<exists>s t. bc_steps (bc_init (\<lambda>_. NewMockClient ''c'')) [BAdd 0, BSend [1], BProcess [1]] s \<and>
     bc_step s (BDeliver 0 [1]) t \<and> queued 0 t = [[1]]"
proof -
  let ?es = "[BAdd 0, BSend [1], BProcess [1]]"
  obtain s where s: "bc_execs ?es (bc_init (\<lambda>_. NewMockClient ''c'')) = Some s"
      "(0, [1]) \<in># bs_pending s" "queued 0 s = []"
    by (simp add: bc_run_simps queued_def)
  note steps = bc_execs_steps [OF s(1)]
  from slow_client_is_isolated [OF steps s(2)] s(3) steps show ?thesis by auto
qed

theorem broadcast_conservation_witness:
  "\<exists>s. bc_steps (bc_init (\<lambda>_. NewMockClient ''c'')) [BAdd 0, BSend [1], BProcess [1]] s \<and>
     in_flight 0 s = {#[1]#} \<and> bs_sent s 0 = in_flight 0 s + mset (queued 0 s) + mset (bs_taken s 0)"
proof -
  let ?es = "[BAdd 0, BSend [1], BProcess [1]]"
  obtain s where s: "bc_execs ?es (bc_init (\<lambda>_. NewMockClient ''c'')) = Some s" "in_flight 0 s = {#[1]#}"
    by (simp add: bc_run_simps in_flight_def)
  note steps = bc_execs_steps [OF s(1)]
  from broadcast_conservation [OF steps, of 0] s(2) steps show ?thesis by blast
qed

text \<open>After \<open>Close\<close>, broadcasting panics and closing again panics, and what was queued is still
  processed: closing changes nothing but the closed flag.\<close>

theorem broadcaster_close_panics:
  assumes "Broadcaster_Close b = Inr b'"
  shows "Broadcaster_Broadcast d b' = Inl SendOnClosed \<and> Broadcaster_Close b' = Inl CloseOfClosed \<and>
    ch_buf (bc_input b') = ch_buf (bc_input b) \<and> bc_clients b' = bc_clients b"
  using assms
  by (auto simp: Broadcaster_Close_def Broadcaster_Broadcast_def chan_close_def chan_send_def split: if_splits)

theorem broadcaster_close_panics_witness:
  "\<exists>b. Broadcaster_Close NewBroadcaster = Inr b \<and> Broadcaster_Broadcast [1] b = Inl SendOnClosed"
proof -
  obtain b where "Broadcaster_Close NewBroadcaster = Inr b"
    by (simp add: Broadcaster_Close_def NewBroadcaster_def chan_close_def)
  from broadcaster_close_panics [OF this, of "[1]"] this show ?thesis by blast
qed

text \<open>The mock client's buffer after any sequence of appended chunks is the last
  \<open>MaxBufferSize\<close> bytes of everything appended.\<close>

theorem mock_client_keeps_newest:
  assumes "0 \<le> mc_MaxBufferSize mc" and "length (mc_received mc) \<le> nat (mc_MaxBufferSize mc)"
  shows "\<exists>mc'. mock_client_log.append_all ds mc = Inr mc' \<and>
    GetReceivedData mc' = keep_last (nat (mc_MaxBufferSize mc)) (mc_received mc @ concat ds)"
  using mock_client_log.append_all_tail [OF assms, of ds] by (auto simp: GetReceivedData_def)

theorem mock_client_keeps_newest_witness:
  "\<exists>mc'. mock_client_log.append_all [[1, 2], [3]] ((NewMockClient ''c'')\<lparr>mc_MaxBufferSize := 2\<rparr>) = Inr mc' \<and>
    GetReceivedData mc' = [2, 3]"
  using mock_client_keeps_newest [of "(NewMockClient ''c'')\<lparr>mc_MaxBufferSize := 2\<rparr>" "[[1, 2], [3]]"]
  by (simp add: NewMockClient_def keep_last_def)

end
