(* ===== verification/Tcp_Server.thy ===== *)
theory Tcp_Server
  imports Arbiter Serial_Port "HOL-Library.Sublist" "HOL-Library.Multiset"
begin

text \<open>
  The TCP server, \<open>internal/server/server.go\<close>: the struct and its methods, and the three kinds of
  goroutines it starts. \<open>srv_step\<close> interleaves the accept loop, one handler per connection and the
  broadcast loop with the calls of the server's methods, the arbiter's timers and the network.
  A goroutine's program counter stands between two atomic actions: a method of the arbiter (its
  own mutex), a block under \<open>s.mu\<close>, or one read or write of a connection or the serial port.

  Connections are numbered; \<open>cn_stalled\<close> says that the peer does not read and the connection's
  buffers are full, so that a write to it blocks until the peer reads or the connection is
  closed. The listener gives each connection an address that is not empty and not that of
  another open one, as TCP does. The ghost fields \<open>g_writes\<close> and \<open>g_bcast\<close> record what was
  written to the serial port and what the broadcast loop has taken from its channel.
\<close>

subsection \<open>The struct and its methods\<close>

record 'd tcp_server =
  ts_listener :: "bool option"      \<comment> \<open>nil, or whether it is open\<close>
  ts_addr :: string
  ts_running :: bool
  ts_clients :: "string \<rightharpoonup> nat"
  ts_arbiter :: arb_sys
  ts_serial :: "'d any_port option"
  ts_broadcast :: "bytes chan"

text \<open>30 seconds in nanoseconds, whatever the configuration says.\<close>

definition lock_timeout :: int where
  "lock_timeout = 30 * 1000000000"

definition NewTCPServer :: "'d tcp_server" where
  "NewTCPServer = \<lparr>ts_listener = None, ts_addr = '''', ts_running = False, ts_clients = Map.empty,
     ts_arbiter = NewArbiter lock_timeout, ts_serial = None, ts_broadcast = make_chan 1024\<rparr>"

text \<open>\<open>listen\<close> is the outcome of \<open>net.Listen\<close>: an error or the listener's address.\<close>

definition TCPServer_Start :: "(go_error + string) \<Rightarrow> 'd tcp_server \<Rightarrow> 'd tcp_server \<times> go_error option" where
  "TCPServer_Start listen s =
     (case listen of
        Inl err \<Rightarrow> (s, Some err)
      | Inr addr \<Rightarrow> (s\<lparr>ts_listener := Some True, ts_addr := addr, ts_running := True\<rparr>, None))"

text \<open>\<open>Stop\<close> also yields the connections it closes.\<close>

definition TCPServer_Stop :: "'d tcp_server \<Rightarrow> go_panic + 'd tcp_server \<times> nat set" where
  "TCPServer_Stop s =
     (if \<not> ts_running s then Inr (s, {})
      else case chan_close (ts_broadcast s) of
             Inl p \<Rightarrow> Inl p
           | Inr q \<Rightarrow> Inr (s\<lparr>ts_clients := Map.empty, ts_listener := map_option (\<lambda>_. False) (ts_listener s),
                           ts_broadcast := q, ts_running := False\<rparr>, ran (ts_clients s)))"

definition TCPServer_IsRunning :: "'d tcp_server \<Rightarrow> bool" where
  "TCPServer_IsRunning s = ts_running s"

definition TCPServer_Addr :: "'d tcp_server \<Rightarrow> string" where
  "TCPServer_Addr s = ts_addr s"

definition TCPServer_ClientCount :: "'d tcp_server \<Rightarrow> nat" where
  "TCPServer_ClientCount s = card (dom (ts_clients s))"

definition TCPServer_GetClientIDs :: "'d tcp_server \<Rightarrow> string set" where
  "TCPServer_GetClientIDs s = dom (ts_clients s)"

definition TCPServer_Broadcast :: "bytes \<Rightarrow> 'd tcp_server \<Rightarrow> go_panic + 'd tcp_server option" where
  "TCPServer_Broadcast data s =
     (case chan_send data (ts_broadcast s) of
        Inl p \<Rightarrow> Inl p
      | Inr None \<Rightarrow> Inr None
      | Inr (Some q) \<Rightarrow> Inr (Some (s\<lparr>ts_broadcast := q\<rparr>)))"

definition AcquireWriteLock :: "string \<Rightarrow> 'd tcp_server \<Rightarrow> 'd tcp_server \<times> bool \<times> arb_error option" where
  "AcquireWriteLock clientID s =
     (let (a, res) = Acquire clientID (ts_arbiter s) in (s\<lparr>ts_arbiter := a\<rparr>, res))"

definition ReleaseWriteLock :: "string \<Rightarrow> 'd tcp_server \<Rightarrow> 'd tcp_server" where
  "ReleaseWriteLock clientID s = s\<lparr>ts_arbiter := fst (Release clientID (ts_arbiter s))\<rparr>"

definition HasWriteLock :: "'d tcp_server \<Rightarrow> bool" where
  "HasWriteLock s = IsLocked (ts_arbiter s)"

definition SetSerial :: "'d any_port \<Rightarrow> 'd tcp_server \<Rightarrow> 'd tcp_server" where
  "SetSerial port s = s\<lparr>ts_serial := Some port\<rparr>"

text \<open>The block of \<open>acceptLoop\<close> under the mutex.\<close>

definition register_client :: "string \<Rightarrow> nat \<Rightarrow> 'd tcp_server \<Rightarrow> 'd tcp_server" where
  "register_client i h s = s\<lparr>ts_clients := (ts_clients s)(i \<mapsto> h)\<rparr>"

text \<open>The block of \<open>handleClient\<close> after a failed read.\<close>

definition drop_client :: "string \<Rightarrow> 'd tcp_server \<Rightarrow> 'd tcp_server" where
  "drop_client i s =
     (let s1 = s\<lparr>ts_clients := (ts_clients s)(i := None)\<rparr> in
      if Owner (ts_arbiter s1) = i then s1\<lparr>ts_arbiter := ForceRelease i (ts_arbiter s1)\<rparr> else s1)"

subsection \<open>Connections and goroutines\<close>

record conn =
  cn_remote :: string
  cn_out :: "bytes list"
  cn_closed :: bool
  cn_stalled :: bool

definition Conn_Write :: "bytes \<Rightarrow> conn \<Rightarrow> conn" where
  "Conn_Write d c = (if cn_closed c then c else c\<lparr>cn_out := cn_out c @ [d]\<rparr>)"

definition write_returns :: "conn \<Rightarrow> bool" where
  "write_returns c \<longleftrightarrow> cn_closed c \<or> \<not> cn_stalled c"

definition generateClientID :: "conn \<Rightarrow> string" where
  generateClientID_eq [simp]: "generateClientID c = cn_remote c"

text \<open>
  The handler of a client: waiting in \<open>Read\<close>; with a chunk before the first \<open>Owner()\<close>; before the
  first \<open>Acquire\<close>; before attempt \<open>i\<close> of the retry loop; before the second \<open>Owner()\<close>; before the
  write; gone.
\<close>

datatype handler_pc =
    HNone | HRead | HCheck bytes | HFirst bytes | HRetry bytes nat | HGuard bytes | HWrite bytes | HDone

datatype accept_pc = AWait | AGot nat | AExit

datatype bcast_pc = BWait | BGot bytes | BLoop bytes "nat list" | BExit

record 'd srv_sys =
  sv :: "'d tcp_server"
  cn :: "nat \<Rightarrow> conn"
  hp :: "nat \<Rightarrow> handler_pc"
  ap :: accept_pc
  bp :: bcast_pc
  g_writes :: "(nat \<times> bytes) list"
  g_bcast :: "bytes list"

datatype srv_event =
    Accept nat string | Register nat | AcceptStops
  | ReadOk nat bytes | ReadErr nat | Check nat | First nat | Retry nat | Guard nat | SerialWrite nat
  | LoopRecv | LoopSnapshot "nat list" | LoopWrite | LoopNext | LoopEnds
  | CallBroadcast bytes | CallStop | CallAcquire string | CallRelease string
  | ArbTimer arb_event
  | Stall nat | Unstall nat

text \<open>What the handler \<open>h\<close> does with its chunk, as a function of the server and its counter.\<close>

definition after_check :: "string \<Rightarrow> bytes \<Rightarrow> arb_sys \<Rightarrow> handler_pc" where
  "after_check i d a = (if Owner a \<noteq> i then HFirst d else HGuard d)"

definition after_first :: "bytes \<Rightarrow> bool \<Rightarrow> handler_pc" where
  "after_first d acquired = (if acquired then HGuard d else HRetry d 0)"

definition after_retry :: "bytes \<Rightarrow> nat \<Rightarrow> bool \<Rightarrow> handler_pc" where
  "after_retry d i acquired =
     (if acquired then HGuard d else if Suc i < 10 then HRetry d (Suc i) else HGuard d)"

definition after_guard :: "string \<Rightarrow> bytes \<Rightarrow> 'd tcp_server \<Rightarrow> handler_pc" where
  "after_guard i d s = (if Owner (ts_arbiter s) = i \<and> ts_serial s \<noteq> None then HWrite d else HRead)"

abbreviation hid :: "'d srv_sys \<Rightarrow> nat \<Rightarrow> string" where
  "hid s h \<equiv> cn_remote (cn s h)"

definition with_arb :: "'d srv_sys \<Rightarrow> arb_sys \<Rightarrow> 'd srv_sys" where
  "with_arb s a = s\<lparr>sv := (sv s)\<lparr>ts_arbiter := a\<rparr>\<rparr>"

definition at :: "'d srv_sys \<Rightarrow> nat \<Rightarrow> handler_pc \<Rightarrow> 'd srv_sys" where
  "at s h p = s\<lparr>hp := (hp s)(h := p)\<rparr>"

abbreviation the_arb :: "'d srv_sys \<Rightarrow> arb_sys" where
  "the_arb s \<equiv> ts_arbiter (sv s)"

inductive srv_step :: "'d driver \<Rightarrow> 'd srv_sys \<Rightarrow> srv_event \<Rightarrow> 'd srv_sys \<Rightarrow> bool" for drv where
  accept: "ap s = AWait \<Longrightarrow> ts_listener (sv s) = Some True \<Longrightarrow> hp s h = HNone \<Longrightarrow> i \<noteq> '''' \<Longrightarrow>
    (\<forall>h'. hp s h' \<noteq> HNone \<and> hp s h' \<noteq> HDone \<longrightarrow> hid s h' \<noteq> i) \<Longrightarrow>
    srv_step drv s (Accept h i)
      (s\<lparr>ap := AGot h, cn := (cn s)(h := \<lparr>cn_remote = i, cn_out = [], cn_closed = False, cn_stalled = False\<rparr>)\<rparr>)"
| accept_register: "ap s = AGot h \<Longrightarrow>
    srv_step drv s (Register h)
      ((at s h HRead)\<lparr>ap := AWait, sv := register_client (generateClientID (cn s h)) h (sv s)\<rparr>)"
| accept_stops: "ap s = AWait \<Longrightarrow> ts_listener (sv s) = Some False \<Longrightarrow>
    srv_step drv s AcceptStops (s\<lparr>ap := AExit\<rparr>)"
| read_ok: "hp s h = HRead \<Longrightarrow> \<not> cn_closed (cn s h) \<Longrightarrow> length d \<le> 1024 \<Longrightarrow>
    srv_step drv s (ReadOk h d) (at s h (if d = [] then HRead else HCheck d))"
| read_err: "hp s h = HRead \<Longrightarrow>
    srv_step drv s (ReadErr h) ((at s h HDone)\<lparr>sv := drop_client (hid s h) (sv s)\<rparr>)"
| check: "hp s h = HCheck d \<Longrightarrow>
    srv_step drv s (Check h) (at s h (after_check (hid s h) d (the_arb s)))"
| first: "hp s h = HFirst d \<Longrightarrow> Acquire (hid s h) (the_arb s) = (a, acquired, err) \<Longrightarrow>
    srv_step drv s (First h) (at (with_arb s a) h (after_first d acquired))"
| retry: "hp s h = HRetry d i \<Longrightarrow> Acquire (hid s h) (the_arb s) = (a, acquired, err) \<Longrightarrow>
    srv_step drv s (Retry h) (at (with_arb s a) h (after_retry d i acquired))"
| guard: "hp s h = HGuard d \<Longrightarrow>
    srv_step drv s (Guard h) (at s h (after_guard (hid s h) d (sv s)))"
| serial_write: "hp s h = HWrite d \<Longrightarrow> ts_serial (sv s) = Some p \<Longrightarrow>
    srv_step drv s (SerialWrite h)
      ((at s h HRead)\<lparr>sv := (sv s)\<lparr>ts_serial := Some (fst (Port_Write drv d p))\<rparr>, g_writes := g_writes s @ [(h, d)]\<rparr>)"
| loop_recv: "bp s = BWait \<Longrightarrow> chan_recv (ts_broadcast (sv s)) = (Got d, q) \<Longrightarrow>
    srv_step drv s LoopRecv
      (s\<lparr>bp := BGot d, sv := (sv s)\<lparr>ts_broadcast := q\<rparr>, g_bcast := g_bcast s @ [d]\<rparr>)"
| loop_snapshot: "bp s = BGot d \<Longrightarrow> distinct hs \<Longrightarrow> set hs = ran (ts_clients (sv s)) \<Longrightarrow>
    srv_step drv s (LoopSnapshot hs) (s\<lparr>bp := BLoop d hs\<rparr>)"
| loop_write: "bp s = BLoop d (h # hs) \<Longrightarrow> write_returns (cn s h) \<Longrightarrow>
    srv_step drv s LoopWrite (s\<lparr>bp := BLoop d hs, cn := (cn s)(h := Conn_Write d (cn s h))\<rparr>)"
| loop_next: "bp s = BLoop d [] \<Longrightarrow> srv_step drv s LoopNext (s\<lparr>bp := BWait\<rparr>)"
| loop_ends: "bp s = BWait \<Longrightarrow> chan_recv (ts_broadcast (sv s)) = (ClosedChan, q) \<Longrightarrow>
    srv_step drv s LoopEnds (s\<lparr>bp := BExit\<rparr>)"
| call_broadcast: "TCPServer_Broadcast d (sv s) = Inr (Some v) \<Longrightarrow>
    srv_step drv s (CallBroadcast d) (s\<lparr>sv := v\<rparr>)"
| call_stop: "TCPServer_Stop (sv s) = Inr (v, closed) \<Longrightarrow>
    srv_step drv s CallStop
      (s\<lparr>sv := v, cn := (\<lambda>h. if h \<in> closed then (cn s h)\<lparr>cn_closed := True\<rparr> else cn s h)\<rparr>)"
| call_acquire: "srv_step drv s (CallAcquire i) (s\<lparr>sv := fst (AcquireWriteLock i (sv s))\<rparr>)"
| call_release: "srv_step drv s (CallRelease i) (s\<lparr>sv := ReleaseWriteLock i (sv s)\<rparr>)"
| arb_timer: "timer_event e \<Longrightarrow> arb_do e (the_arb s) = Some a \<Longrightarrow>
    srv_step drv s (ArbTimer e) (with_arb s a)"
| stall: "srv_step drv s (Stall h) (s\<lparr>cn := (cn s)(h := (cn s h)\<lparr>cn_stalled := True\<rparr>)\<rparr>)"
| unstall: "srv_step drv s (Unstall h) (s\<lparr>cn := (cn s)(h := (cn s h)\<lparr>cn_stalled := False\<rparr>)\<rparr>)"

inductive srv_steps :: "'d driver \<Rightarrow> 'd srv_sys \<Rightarrow> srv_event list \<Rightarrow> 'd srv_sys \<Rightarrow> bool" for drv where
  srv_nil: "srv_steps drv s [] s"
| srv_cons: "srv_step drv s e t \<Longrightarrow> srv_steps drv t es u \<Longrightarrow> srv_steps drv s (e # es) u"

inductive_cases srv_stepE: "srv_step drv s e t"
inductive_simps srv_steps_Nil: "srv_steps drv s [] u"
inductive_simps srv_steps_Cons: "srv_steps drv s (e # es) u"

text \<open>A server just started on a serial port.\<close>

definition srv_init :: "string \<Rightarrow> 'd any_port \<Rightarrow> 'd srv_sys" where
  "srv_init addr port =
     \<lparr>sv = fst (TCPServer_Start (Inr addr) (SetSerial port NewTCPServer)),
      cn = (\<lambda>_. \<lparr>cn_remote = '''', cn_out = [], cn_closed = False, cn_stalled = False\<rparr>),
      hp = (\<lambda>_. HNone), ap = AWait, bp = BWait, g_writes = [], g_bcast = []\<rparr>"

interpretation srv_runs: runs "srv_step drv" "srv_steps drv" for drv :: "'d driver"
  by unfold_locales (auto simp: srv_steps_Nil srv_steps_Cons)

text \<open>The laws of runs; invariants go over a run step by step.\<close>

lemmas srv_steps_append = srv_runs.steps_append
lemmas srv_steps_snoc = srv_runs.steps_snoc
lemmas srv_steps_inv = srv_runs.steps_keep

lemmas srv_simps = with_arb_def at_def register_client_def drop_client_def AcquireWriteLock_def
  ReleaseWriteLock_def TCPServer_Broadcast_def TCPServer_Stop_def Conn_Write_def

subsection \<open>The invariant of the running server\<close>

text \<open>
  Live handlers have distinct non-empty addresses; the connection that the accept loop holds has
  a fresh one; and the map of clients names only live handlers, each under its own address.
\<close>

definition live :: "'d srv_sys \<Rightarrow> nat \<Rightarrow> bool" where
  "live s h \<longleftrightarrow> hp s h \<noteq> HNone \<and> hp s h \<noteq> HDone"

definition ids_ok :: "'d srv_sys \<Rightarrow> bool" where
  "ids_ok s \<longleftrightarrow>
     (\<forall>h. live s h \<longrightarrow> hid s h \<noteq> '''') \<and>
     (\<forall>h k. live s h \<longrightarrow> live s k \<longrightarrow> hid s h = hid s k \<longrightarrow> h = k) \<and>
     (\<forall>h. ap s = AGot h \<longrightarrow> hp s h = HNone \<and> hid s h \<noteq> '''' \<and> (\<forall>k. live s k \<longrightarrow> hid s k \<noteq> hid s h))"

definition clients_ok :: "'d srv_sys \<Rightarrow> bool" where
  "clients_ok s \<longleftrightarrow> (\<forall>i h. ts_clients (sv s) i = Some h \<longrightarrow> live s h \<and> hid s h = i)"

definition srv_inv :: "'d srv_sys \<Rightarrow> bool" where
  "srv_inv s \<longleftrightarrow> arb_inv (the_arb s) \<and> ids_ok s \<and> clients_ok s"

lemma live_after:
  "after_check i d a \<noteq> HNone" "after_check i d a \<noteq> HDone"
  "after_first d x \<noteq> HNone" "after_first d x \<noteq> HDone"
  "after_retry d n x \<noteq> HNone" "after_retry d n x \<noteq> HDone"
  "after_guard i d v \<noteq> HNone" "after_guard i d v \<noteq> HDone"
  by (simp_all add: after_check_def after_first_def after_retry_def after_guard_def)

lemma drop_client_arb:
  "the_arb s = a \<Longrightarrow> ts_arbiter (drop_client i (sv s)) = (if Owner a = i then ForceRelease i a else a)"
  by (simp add: drop_client_def Let_def)

lemma arb_inv_srv_step:
  assumes "srv_step drv s e t" and "arb_inv (the_arb s)"
  shows "arb_inv (the_arb t)"
  using assms
proof (induction rule: srv_step.induct)
  case (arb_timer e s a)
  then show ?case by (simp add: with_arb_def arb_inv_do)
next
  case (first s h d a acquired err)
  then show ?case using arb_inv_Acquire [of "the_arb s" "hid s h"] by (simp add: srv_simps)
next
  case (retry s h d i a acquired err)
  then show ?case using arb_inv_Acquire [of "the_arb s" "hid s h"] by (simp add: srv_simps)
next
  case (call_stop s v closed)
  then show ?case by (auto simp: TCPServer_Stop_def split: if_splits sum.splits)
next
  case (call_broadcast d s v)
  then show ?case by (auto simp: TCPServer_Broadcast_def split: option.splits sum.splits)
next
  case (read_err s h)
  then show ?case by (simp add: srv_simps Let_def arb_inv_ForceRelease)
next
  case (call_acquire s i)
  then show ?case using arb_inv_Acquire [of "the_arb s" i]
    by (cases "Acquire i (the_arb s)") (simp add: srv_simps)
qed (simp_all add: srv_simps arb_inv_Release)

text \<open>Only accepting, registering and a failed read change who is live and under which address.\<close>

fun moves_live :: "srv_event \<Rightarrow> bool" where
  "moves_live (Accept h i) = True"
| "moves_live (Register h) = True"
| "moves_live (ReadErr h) = True"
| "moves_live e = False"

lemma live_frame:
  assumes "srv_step drv s e t" and "\<not> moves_live e"
  shows "hid t k = hid s k \<and> live t k = live s k \<and> (hp t k = HNone \<longleftrightarrow> hp s k = HNone) \<and>
    (ap t = AGot h \<longrightarrow> ap s = AGot h)"
  using assms
  by (induction rule: srv_step.induct) (simp_all add: live_def srv_simps live_after)

lemma ids_ok_frame:
  assumes "ids_ok s" and "\<And>k. hid t k = hid s k \<and> live t k = live s k \<and> (hp t k = HNone \<longleftrightarrow> hp s k = HNone)"
    and "\<And>h. ap t = AGot h \<Longrightarrow> ap s = AGot h"
  shows "ids_ok t"
  using assms by (simp add: ids_ok_def)

lemma ids_ok_accept:
  assumes "ids_ok s" and "hp s h = HNone" and "i \<noteq> ''''" and "\<forall>k. live s k \<longrightarrow> hid s k \<noteq> i"
    and c: "cn_remote c = i"
  shows "ids_ok (s\<lparr>ap := AGot h, cn := (cn s)(h := c)\<rparr>)"
  using assms unfolding ids_ok_def live_def by simp

lemma ids_ok_register:
  assumes "ids_ok s" and "ap s = AGot h"
  shows "ids_ok ((at s h HRead)\<lparr>ap := AWait, sv := v\<rparr>)" (is "ids_ok ?t")
proof -
  have l: "live ?t k \<longleftrightarrow> live s k \<or> k = h" for k
    by (auto simp: live_def at_def)
  have i: "hid ?t k = hid s k" for k
    by (simp add: at_def)
  have ne: "hid s h \<noteq> ''''" and f: "\<And>k. live s k \<Longrightarrow> hid s k \<noteq> hid s h"
    using assms by (auto simp: ids_ok_def)
  from assms(1) have "\<And>k. live s k \<Longrightarrow> hid s k \<noteq> ''''"
    and inj: "\<And>k j. live s k \<Longrightarrow> live s j \<Longrightarrow> hid s k = hid s j \<Longrightarrow> k = j"
    by (auto simp: ids_ok_def)
  moreover have "ap ?t = AWait" by simp
  ultimately show ?thesis
    unfolding ids_ok_def l i using ne f by (metis accept_pc.distinct(1))
qed

lemma ids_ok_done:
  assumes "ids_ok s" and "hp s h = HRead"
  shows "ids_ok ((at s h HDone)\<lparr>sv := v\<rparr>)" (is "ids_ok ?t")
proof -
  have l: "live ?t k \<Longrightarrow> live s k" and i: "hid ?t k = hid s k" and n: "ap ?t = ap s" for k
    using assms(2) by (auto simp: live_def at_def split: if_splits)
  moreover have "hp s k = HNone \<Longrightarrow> hp ?t k = HNone" for k
    using assms(2) by (auto simp: at_def)
  ultimately show ?thesis
    using assms(1) unfolding ids_ok_def by (metis (no_types, lifting))
qed

lemma ids_ok_srv_step:
  assumes "srv_step drv s e t" and "ids_ok s"
  shows "ids_ok t"
proof (cases "moves_live e")
  case False
  then show ?thesis using live_frame [OF assms(1)] by (intro ids_ok_frame [OF assms(2)]) blast+
next
  case True
  with assms show ?thesis
    by (elim srv_stepE) (simp_all add: ids_ok_accept ids_ok_register ids_ok_done live_def)
qed

lemma clients_ok_srv_step: "srv_step drv s e t \<Longrightarrow> clients_ok s \<and> ids_ok s \<Longrightarrow> clients_ok t"
proof (induction rule: srv_step.induct)
  case (accept s h i)
  then show ?case by (auto simp: clients_ok_def live_def)
next
  case (accept_register s h)
  then show ?case by (simp add: clients_ok_def ids_ok_def live_def srv_simps)
next
  case (read_err s h)
  then have "ts_clients (drop_client (hid s h) (sv s)) = (ts_clients (sv s))(hid s h := None)"
    by (simp add: srv_simps Let_def)
  with read_err show ?case by (auto simp: clients_ok_def live_def srv_simps)
next
  case (call_stop s v closed)
  then show ?case by (auto simp: clients_ok_def live_def TCPServer_Stop_def split: if_splits sum.splits)
next
  case (call_broadcast d s v)
  then show ?case by (auto simp: clients_ok_def live_def TCPServer_Broadcast_def split: option.splits sum.splits)
qed (simp_all add: clients_ok_def live_def srv_simps live_after split: prod.splits)

lemma srv_inv_step: "srv_step drv s e t \<Longrightarrow> srv_inv s \<Longrightarrow> srv_inv t"
  by (auto simp: srv_inv_def intro: arb_inv_srv_step ids_ok_srv_step clients_ok_srv_step)

lemma srv_inv_init: "srv_inv (srv_init addr port)"
  by (simp add: srv_inv_def srv_init_def ids_ok_def clients_ok_def live_def NewTCPServer_def
      TCPServer_Start_def SetSerial_def arb_inv_new)

lemma srv_inv_reach: "srv_steps drv (srv_init addr port) es s \<Longrightarrow> srv_inv s"
  by (erule srv_steps_inv) (auto intro: srv_inv_init srv_inv_step)

end
