(* ===== verification/Tcp_Exec.thy ===== *)
theory Tcp_Exec
  imports Tcp_Server
begin

text \<open>
  Executing the TCP server: \<open>srv_exec\<close> computes the successor of every event but \<open>Accept\<close>, whose
  freshness condition ranges over all handlers; \<open>connected\<close> is the state after accepting and
  registering one connection. Both are sound for \<open>srv_step\<close>, so a concrete run is evaluated
  and then holds of the model.
\<close>

fun srv_exec :: "'d driver \<Rightarrow> srv_event \<Rightarrow> 'd srv_sys \<Rightarrow> 'd srv_sys option" where
  "srv_exec drv (Accept h i) s = None"
| "srv_exec drv (Register h) s =
     (if ap s = AGot h then Some ((at s h HRead)\<lparr>ap := AWait, sv := register_client (hid s h) h (sv s)\<rparr>) else None)"
| "srv_exec drv AcceptStops s =
     (if ap s = AWait \<and> ts_listener (sv s) = Some False then Some (s\<lparr>ap := AExit\<rparr>) else None)"
| "srv_exec drv (ReadOk h d) s =
     (if hp s h = HRead \<and> \<not> cn_closed (cn s h) \<and> length d \<le> 1024
      then Some (at s h (if d = [] then HRead else HCheck d)) else None)"
| "srv_exec drv (ReadErr h) s =
     (if hp s h = HRead then Some ((at s h HDone)\<lparr>sv := drop_client (hid s h) (sv s)\<rparr>) else None)"
| "srv_exec drv (Check h) s =
     (case hp s h of HCheck d \<Rightarrow> Some (at s h (after_check (hid s h) d (the_arb s))) | _ \<Rightarrow> None)"
| "srv_exec drv (First h) s =
     (case hp s h of
        HFirst d \<Rightarrow> (let (a, ok, _) = Acquire (hid s h) (the_arb s) in Some (at (with_arb s a) h (after_first d ok)))
      | _ \<Rightarrow> None)"
| "srv_exec drv (Retry h) s =
     (case hp s h of
        HRetry d i \<Rightarrow> (let (a, ok, _) = Acquire (hid s h) (the_arb s) in Some (at (with_arb s a) h (after_retry d i ok)))
      | _ \<Rightarrow> None)"
| "srv_exec drv (Guard h) s =
     (case hp s h of HGuard d \<Rightarrow> Some (at s h (after_guard (hid s h) d (sv s))) | _ \<Rightarrow> None)"
| "srv_exec drv (SerialWrite h) s =
     (case hp s h of
        HWrite d \<Rightarrow> (case ts_serial (sv s) of
            None \<Rightarrow> None
          | Some p \<Rightarrow> Some ((at s h HRead)\<lparr>sv := (sv s)\<lparr>ts_serial := Some (fst (Port_Write drv d p))\<rparr>,
                              g_writes := g_writes s @ [(h, d)]\<rparr>))
      | _ \<Rightarrow> None)"
| "srv_exec drv LoopRecv s =
     (case (bp s, chan_recv (ts_broadcast (sv s))) of
        (BWait, Got d, q) \<Rightarrow>
          Some (s\<lparr>bp := BGot d, sv := (sv s)\<lparr>ts_broadcast := q\<rparr>, g_bcast := g_bcast s @ [d]\<rparr>)
      | _ \<Rightarrow> None)"
| "srv_exec drv (LoopSnapshot hs) s =
     (case bp s of
        BGot d \<Rightarrow> if distinct hs \<and> set hs = ran (ts_clients (sv s)) then Some (s\<lparr>bp := BLoop d hs\<rparr>) else None
      | _ \<Rightarrow> None)"
| "srv_exec drv LoopWrite s =
     (case bp s of
        BLoop d (h # hs) \<Rightarrow>
          if write_returns (cn s h)
          then Some (s\<lparr>bp := BLoop d hs, cn := (cn s)(h := Conn_Write d (cn s h))\<rparr>) else None
      | _ \<Rightarrow> None)"
| "srv_exec drv LoopNext s = (case bp s of BLoop d [] \<Rightarrow> Some (s\<lparr>bp := BWait\<rparr>) | _ \<Rightarrow> None)"
| "srv_exec drv LoopEnds s =
     (case (bp s, chan_recv (ts_broadcast (sv s))) of
        (BWait, ClosedChan, q) \<Rightarrow> Some (s\<lparr>bp := BExit\<rparr>) | _ \<Rightarrow> None)"
| "srv_exec drv (CallBroadcast d) s =
     (case TCPServer_Broadcast d (sv s) of Inr (Some v) \<Rightarrow> Some (s\<lparr>sv := v\<rparr>) | _ \<Rightarrow> None)"
| "srv_exec drv CallStop s =
     (case TCPServer_Stop (sv s) of
        Inr (v, closed) \<Rightarrow>
          Some (s\<lparr>sv := v, cn := (\<lambda>h. if h \<in> closed then (cn s h)\<lparr>cn_closed := True\<rparr> else cn s h)\<rparr>)
      | Inl _ \<Rightarrow> None)"
| "srv_exec drv (CallAcquire i) s = Some (s\<lparr>sv := fst (AcquireWriteLock i (sv s))\<rparr>)"
| "srv_exec drv (CallRelease i) s = Some (s\<lparr>sv := ReleaseWriteLock i (sv s)\<rparr>)"
| "srv_exec drv (ArbTimer e) s =
     (if timer_event e then map_option (with_arb s) (arb_do e (the_arb s)) else None)"
| "srv_exec drv (Stall h) s = Some (s\<lparr>cn := (cn s)(h := (cn s h)\<lparr>cn_stalled := True\<rparr>)\<rparr>)"
| "srv_exec drv (Unstall h) s = Some (s\<lparr>cn := (cn s)(h := (cn s h)\<lparr>cn_stalled := False\<rparr>)\<rparr>)"

lemma srv_exec_step: "srv_exec drv e s = Some t \<Longrightarrow> srv_step drv s e t"
proof (cases e)
  case (ReadOk h d)
  assume "srv_exec drv e s = Some t"
  with ReadOk show ?thesis using srv_step.read_ok [of s h d drv] by (simp split: if_splits)
qed (auto simp: Let_def intro: srv_step.intros srv_step.accept_register [unfolded generateClientID_eq] split: if_splits option.splits sum.splits prod.splits
      handler_pc.splits bcast_pc.splits received.splits list.splits)

fun srv_execs :: "'d driver \<Rightarrow> srv_event list \<Rightarrow> 'd srv_sys \<Rightarrow> 'd srv_sys option" where
  "srv_execs drv [] s = Some s"
| "srv_execs drv (e # es) s = (case srv_exec drv e s of None \<Rightarrow> None | Some t \<Rightarrow> srv_execs drv es t)"

interpretation srv_execution: exec_runs "srv_step drv" "srv_steps drv" "srv_exec drv" "srv_execs drv" for drv :: "'d driver"
  by unfold_locales (simp_all add: srv_exec_step)

lemmas srv_execs_steps = srv_execution.run_steps

text \<open>The state after one more connection.\<close>

definition connected :: "nat \<Rightarrow> string \<Rightarrow> 'd srv_sys \<Rightarrow> 'd srv_sys" where
  "connected h i s =
     s\<lparr>cn := (cn s)(h := \<lparr>cn_remote = i, cn_out = [], cn_closed = False, cn_stalled = False\<rparr>),
       hp := (hp s)(h := HRead), ap := AWait, sv := register_client i h (sv s)\<rparr>"

lemma connected_steps:
  assumes "ap s = AWait" and "ts_listener (sv s) = Some True" and "hp s h = HNone" and "i \<noteq> ''''"
    and "\<forall>h'. live s h' \<longrightarrow> hid s h' \<noteq> i"
  shows "srv_steps drv s [Accept h i, Register h] (connected h i s)"
proof -
  let ?t = "s\<lparr>ap := AGot h, cn := (cn s)(h := \<lparr>cn_remote = i, cn_out = [], cn_closed = False, cn_stalled = False\<rparr>)\<rparr>"
  have "srv_step drv s (Accept h i) ?t"
    using assms by (intro srv_step.accept) (auto simp: live_def)
  moreover have "srv_step drv ?t (Register h) (connected h i s)"
    using srv_step.accept_register [of ?t h drv] by (simp add: connected_def at_def)
  ultimately show ?thesis by (simp only: srv_steps_Cons srv_steps_Nil) blast
qed

text \<open>The runs below start with one or two clients.\<close>

definition one_client :: "'d any_port \<Rightarrow> 'd srv_sys" where
  "one_client port = connected 0 ''a'' (srv_init '':9999'' port)"

definition two_clients :: "'d any_port \<Rightarrow> 'd srv_sys" where
  "two_clients port = connected 1 ''b'' (one_client port)"

lemma one_client_reached: "srv_steps drv (srv_init '':9999'' port) [Accept 0 ''a'', Register 0] (one_client port)"
  unfolding one_client_def
  by (rule connected_steps) (simp_all add: srv_init_def TCPServer_Start_def live_def)

lemma two_clients_reached:
  "srv_steps drv (srv_init '':9999'' port) ([Accept 0 ''a'', Register 0] @ [Accept 1 ''b'', Register 1]) (two_clients port)"
proof -
  have "srv_steps drv (one_client port) [Accept 1 ''b'', Register 1] (two_clients port)"
    unfolding two_clients_def
    by (rule connected_steps)
      (auto simp: one_client_def connected_def srv_init_def TCPServer_Start_def register_client_def live_def)
  with one_client_reached show ?thesis unfolding srv_steps_append by blast
qed

lemma run_two_clients:
  "srv_execs drv es (two_clients port) = Some t \<Longrightarrow>
     srv_steps drv (srv_init '':9999'' port)
       (([Accept 0 ''a'', Register 0] @ [Accept 1 ''b'', Register 1]) @ es) t"
  using two_clients_reached srv_execs_steps unfolding srv_steps_append by blast

lemmas srv_run_simps = two_clients_def one_client_def connected_def srv_init_def TCPServer_Start_def
  NewTCPServer_def SetSerial_def srv_simps after_check_def after_first_def after_retry_def after_guard_def
  NewArbiter_def Acquire_def ForceRelease_def Release_def Owner_def stop_timer_def after_func_def set_status_def
  expire_callback_def timer_event_def lock_timeout_def chan_send_def chan_recv_def make_chan_def
  chan_close_def MockSerialPort_Write_def NewMockSerialPort_def write_returns_def

end
