(* ===== verification/Tcp_Safety.thy ===== *)
theory Tcp_Safety
  imports Tcp_Exec
begin

text \<open>
  What the TCP server does with the bytes of its clients: what can reach the serial port, who can
  write, what a disconnect and a stop do, and the runs that show where the exclusion ends. The
  last part executes concrete runs with \<open>srv_exec\<close>, which is sound for \<open>srv_step\<close>.
\<close>

subsection \<open>What reaches the serial port\<close>

text \<open>The chunks read from a connection, the chunks written for it, and the one in hand.\<close>

fun read_from :: "nat \<Rightarrow> srv_event list \<Rightarrow> bytes list" where
  "read_from h [] = []"
| "read_from h (ReadOk k d # es) = (if k = h \<and> d \<noteq> [] then d # read_from h es else read_from h es)"
| "read_from h (e # es) = read_from h es"

definition written_for :: "nat \<Rightarrow> 'd srv_sys \<Rightarrow> bytes list" where
  "written_for h s = map snd (filter (\<lambda>w. fst w = h) (g_writes s))"

fun in_hand :: "handler_pc \<Rightarrow> bytes list" where
  "in_hand (HCheck d) = [d]"
| "in_hand (HFirst d) = [d]"
| "in_hand (HRetry d i) = [d]"
| "in_hand (HGuard d) = [d]"
| "in_hand (HWrite d) = [d]"
| "in_hand p = []"

lemma in_hand_after [simp]:
  "in_hand (after_check i d a) = [d]" "in_hand (after_first d x) = [d]" "in_hand (after_retry d n x) = [d]"
  by (simp_all add: after_check_def after_first_def after_retry_def)

lemma in_hand_guard: "subseq (in_hand (after_guard i d v)) [d]"
  by (simp add: after_guard_def)

lemma read_from_append: "read_from h (es @ fs) = read_from h es @ read_from h fs"
  by (induction h es rule: read_from.induct) simp_all

lemma in_hand_step:
  assumes "srv_step drv s e t"
  shows "subseq (written_for h t @ in_hand (hp t h)) (written_for h s @ in_hand (hp s h) @ read_from h [e])"
  using assms
proof (induction rule: srv_step.induct)
  case (guard s k d)
  then show ?case using in_hand_guard [of "hid s k" d "sv s"]
    by (auto simp: written_for_def at_def list_emb_append_mono)
qed (auto simp: written_for_def srv_simps)

lemma written_in_order_gen:
  "srv_steps drv s es t \<Longrightarrow>
     subseq (written_for h t @ in_hand (hp t h)) (written_for h s @ in_hand (hp s h) @ read_from h es)"
proof (induction rule: srv_steps.induct)
  case (srv_nil s)
  then show ?case by simp
next
  case (srv_cons s e t es u)
  have "subseq (written_for h u @ in_hand (hp u h)) ((written_for h t @ in_hand (hp t h)) @ read_from h es)"
    using srv_cons.IH by simp
  also have "subseq \<dots> ((written_for h s @ in_hand (hp s h) @ read_from h [e]) @ read_from h es)"
    by (rule list_emb_append_mono [OF in_hand_step [OF srv_cons.hyps(1)]]) simp
  finally have "subseq (written_for h u @ in_hand (hp u h))
      (written_for h s @ in_hand (hp s h) @ read_from h ([e] @ es))"
    by (simp only: read_from_append append_assoc)
  then show ?case by simp
qed

lemma written_in_order:
  assumes "srv_steps drv (srv_init addr port) es s"
  shows "subseq (written_for h s) (read_from h es)"
proof -
  have "subseq (written_for h s @ in_hand (hp s h)) (read_from h es)"
    using written_in_order_gen [OF assms, of h] by (simp add: srv_init_def written_for_def)
  moreover have "subseq (written_for h s) (written_for h s @ in_hand (hp s h))"
    by (rule list_emb_prefix) simp
  ultimately show ?thesis by (rule subseq_order.order_trans [rotated])
qed

text \<open>C9: for every connection, the chunks that reach the serial port are whole chunks read from that
  connection, in the order in which they were read: nothing is duplicated, split or reordered,
  whatever the interleaving with the other clients, the broadcast loop and the timers.\<close>

theorem serial_writes_in_order:
  assumes "srv_steps drv (srv_init addr port) es s"
  shows "subseq (written_for h s) (read_from h es)"
  by (rule written_in_order [OF assms])

text \<open>The chunks of a run with the mock port are exactly the port's output.\<close>

lemma mock_output_step:
  assumes "srv_step drv s e t" and "ts_serial (sv s) = Some (MockPort m)"
  shows "\<exists>m'. ts_serial (sv t) = Some (MockPort m') \<and>
    (ms_outputBuffer m' = ms_outputBuffer m \<and> g_writes t = g_writes s \<or>
     (\<exists>w. ms_outputBuffer m' = ms_outputBuffer m @ snd w \<and> g_writes t = g_writes s @ [w]))"
  using assms
proof (induction rule: srv_step.induct)
  case (call_stop s v closed)
  then show ?case by (auto simp: TCPServer_Stop_def split: if_splits sum.splits)
next
  case (call_broadcast d s v)
  then show ?case by (auto simp: TCPServer_Broadcast_def split: option.splits sum.splits)
qed (auto simp: srv_simps Let_def MockSerialPort_Write_def split: prod.splits)

text \<open>The output of the serial port (the mock port of a run) is the concatenation of the chunks
  written by the handlers: chunks of different clients never mix inside a chunk.\<close>

theorem serial_output_is_chunks:
  assumes "srv_steps drv s es t" and "ts_serial (sv s) = Some (MockPort m)"
  shows "\<exists>m' ws. ts_serial (sv t) = Some (MockPort m') \<and> g_writes t = g_writes s @ ws \<and>
    MockSerialPort_GetWrittenData m' = MockSerialPort_GetWrittenData m @ concat (map snd ws)"
  using assms
proof (induction arbitrary: m rule: srv_steps.induct)
  case (srv_nil s)
  then show ?case by simp
next
  case (srv_cons s e t es u)
  from mock_output_step [OF srv_cons.hyps(1) srv_cons.prems] obtain m1 ws
    where m1: "ts_serial (sv t) = Some (MockPort m1)" "g_writes t = g_writes s @ ws"
      "ms_outputBuffer m1 = ms_outputBuffer m @ concat (map snd ws)"
    by (metis append.right_neutral concat.simps list.map(1) list.map(2))
  from srv_cons.IH [OF m1(1)] obtain m2 ws' where "ts_serial (sv u) = Some (MockPort m2)"
      "g_writes u = g_writes t @ ws'" "ms_outputBuffer m2 = ms_outputBuffer m1 @ concat (map snd ws')"
    by (auto simp: MockSerialPort_GetWrittenData_def)
  with m1 show ?case
    by (intro exI [of _ m2] exI [of _ "ws @ ws'"]) (simp add: MockSerialPort_GetWrittenData_def)
qed

lemma serial_stays_step: "srv_step drv s e t \<Longrightarrow> ts_serial (sv s) \<noteq> None \<Longrightarrow> ts_serial (sv t) \<noteq> None"
proof (induction rule: srv_step.induct)
  case (call_stop s v closed)
  then show ?case by (auto simp: TCPServer_Stop_def split: if_splits sum.splits)
next
  case (call_broadcast d s v)
  then show ?case by (auto simp: TCPServer_Broadcast_def split: option.splits sum.splits)
qed (auto simp: srv_simps Let_def split: prod.splits)

lemma serial_stays_set: "srv_steps drv (srv_init addr port) es s \<Longrightarrow> \<exists>p. ts_serial (sv s) = Some p"
  using srv_steps_inv [of drv "srv_init addr port" es s "\<lambda>s. ts_serial (sv s) \<noteq> None"] serial_stays_step
  by (fastforce simp: srv_init_def TCPServer_Start_def SetSerial_def)

subsection \<open>Only the lock's holder writes\<close>

lemma after_not_write [simp]:
  "after_check i d a \<noteq> HWrite d'" "after_first d x \<noteq> HWrite d'" "after_retry d n x \<noteq> HWrite d'"
  by (simp_all add: after_check_def after_first_def after_retry_def)

lemma after_guard_write:
  "after_guard i d v = HWrite d' \<longleftrightarrow> d' = d \<and> Owner (ts_arbiter v) = i \<and> ts_serial v \<noteq> None"
  by (auto simp: after_guard_def)

lemma enters_write:
  assumes "srv_step drv s e t" and "hp t h = HWrite d" and "hp s h \<noteq> HWrite d"
  shows "e = Guard h \<and> hp s h = HGuard d \<and> Owner (the_arb s) = hid s h \<and> ts_serial (sv s) \<noteq> None"
  using assms
  by (induction rule: srv_step.induct)
    (auto simp: srv_simps after_guard_write split: if_splits)

text \<open>The contract of the arbiter, on the server's state.\<close>

lemma owner_is_holder:
  assumes "srv_inv s" and "live s h"
  shows "Owner (the_arb s) = hid s h \<longleftrightarrow> lock_view (the_arb s) = Some (hid s h)"
proof -
  have "hid s h \<noteq> ''''" using assms by (auto simp: srv_inv_def ids_ok_def)
  with assms show ?thesis by (auto simp: srv_inv_def arb_lock.own_iff_holder)
qed

text \<open>A handler gets to the write of the serial port in one way only: from its second check of the
  owner, at a moment when its client holds the write lock and a serial port is set.\<close>

theorem only_holder_reaches_write:
  assumes "srv_steps drv (srv_init addr port) es s" and "srv_step drv s e t"
    and "hp t h = HWrite d" and "hp s h \<noteq> HWrite d"
  shows "e = Guard h \<and> hp s h = HGuard d \<and> lock_view (the_arb s) = Some (hid s h)"
proof -
  have g: "e = Guard h \<and> hp s h = HGuard d \<and> Owner (the_arb s) = hid s h"
    using enters_write [OF assms(2-4)] by blast
  then have "live s h" by (simp add: live_def)
  with g owner_is_holder [OF srv_inv_reach [OF assms(1)]] show ?thesis by blast
qed

text \<open>Between the check and the write the lock can only be lost to a timer or to an explicit release.\<close>

fun revokes :: "srv_event \<Rightarrow> bool" where
  "revokes (ArbTimer (ECallback i)) = True"
| "revokes (CallRelease i) = True"
| "revokes e = False"

definition writers_hold :: "'d srv_sys \<Rightarrow> bool" where
  "writers_hold s \<longleftrightarrow> (\<forall>h d. hp s h = HWrite d \<longrightarrow> lock_view (the_arb s) = Some (hid s h))"

lemma timer_keeps_view:
  assumes "timer_event e" and "arb_do e a = Some b" and "\<not> revokes (ArbTimer e)"
  shows "lock_view b = lock_view a"
  using assms arb_refines_lock_step [OF assms(2)] by (cases e) (auto simp: timer_event_def)

lemma view_kept:
  assumes "srv_step drv s e t" and "\<not> revokes e" and "lock_view (the_arb s) = Some c"
    and "\<And>h. e = ReadErr h \<Longrightarrow> hid s h \<noteq> c"
  shows "lock_view (the_arb t) = Some c"
  using assms
proof (induction rule: srv_step.induct)
  case (arb_timer e s a)
  then show ?case by (simp add: with_arb_def timer_keeps_view)
next
  case (first s h d a acquired err)
  then show ?case using lock_view_Acquire [of "hid s h" "the_arb s"] by (simp add: srv_simps)
next
  case (retry s h d i a acquired err)
  then show ?case using lock_view_Acquire [of "hid s h" "the_arb s"] by (simp add: srv_simps)
next
  case (call_stop s v closed)
  then show ?case by (auto simp: TCPServer_Stop_def split: if_splits sum.splits)
next
  case (call_broadcast d s v)
  then show ?case by (auto simp: TCPServer_Broadcast_def split: option.splits sum.splits)
next
  case (call_acquire s i)
  then show ?case using lock_view_Acquire [of i "the_arb s"]
    by (cases "Acquire i (the_arb s)") (simp add: srv_simps)
qed (auto simp: srv_simps Let_def lock_view_ForceRelease)

lemma writers_hold_step:
  assumes st: "srv_step drv s e t" and nr: "\<not> revokes e" and inv: "srv_inv s" and wh: "writers_hold s"
  shows "writers_hold t"
  unfolding writers_hold_def
proof (intro allI impI)
  fix h d assume w: "hp t h = HWrite d"
  have ht: "live t h" using w by (simp add: live_def)
  show "lock_view (the_arb t) = Some (hid t h)"
  proof (cases "hp s h = HWrite d")
    case False
    with enters_write [OF st w] have g: "e = Guard h" "hp s h = HGuard d" "Owner (the_arb s) = hid s h" by auto
    then have "lock_view (the_arb s) = Some (hid s h)"
      using owner_is_holder [OF inv] by (simp add: live_def)
    moreover from g(1) st have "the_arb t = the_arb s" "hid t h = hid s h"
      by (auto elim: srv_stepE simp: at_def)
    ultimately show ?thesis by simp
  next
    case True
    then have v: "lock_view (the_arb s) = Some (hid s h)" using wh by (simp add: writers_hold_def)
    have same: "hid t h = hid s h"
    proof (cases "moves_live e")
      case True
      with \<open>hp s h = HWrite d\<close> st show ?thesis by (elim srv_stepE) (auto simp: at_def)
    next
      case False
      with live_frame [OF st] show ?thesis by blast
    qed
    have "hid s k \<noteq> hid s h" if e: "e = ReadErr k" for k
    proof -
      from e st have "hp s k = HRead" by (auto elim: srv_stepE)
      with True have "k \<noteq> h" "live s k" "live s h" by (auto simp: live_def)
      with inv show ?thesis by (auto simp: srv_inv_def ids_ok_def)
    qed
    from view_kept [OF st nr v this] same show ?thesis by simp
  qed
qed

text \<open>C1: as long as no expiry callback runs and nobody calls \<open>ReleaseWriteLock\<close>, writing to the serial
  port is exclusive: every handler at its write holds the lock, so no two handlers are at their
  writes at the same time, and the holder keeps the lock until its own connection fails.\<close>

theorem exclusive_writers:
  assumes "srv_steps drv (srv_init addr port) es s" and "\<forall>e \<in> set es. \<not> revokes e"
    and "hp s h = HWrite d" and "hp s k = HWrite d'"
  shows "h = k \<and> lock_view (the_arb s) = Some (hid s h)"
proof -
  have "srv_inv t \<and> writers_hold t" if "srv_steps drv u es t" "\<forall>e \<in> set es. \<not> revokes e" "srv_inv u" "writers_hold u" for u t
    using that by (induction rule: srv_steps.induct) (auto intro: srv_inv_step writers_hold_step)
  from this [OF assms(1,2) srv_inv_init] have inv: "srv_inv s" "writers_hold s"
    by (simp_all add: writers_hold_def srv_init_def)
  with assms(3,4) have "lock_view (the_arb s) = Some (hid s h)" "lock_view (the_arb s) = Some (hid s k)"
    unfolding writers_hold_def by blast+
  then have "lock_view (the_arb s) = Some (hid s h)" "hid s h = hid s k" by simp_all
  moreover have "live s h" "live s k" using assms(3,4) by (simp_all add: live_def)
  ultimately show ?thesis using inv(1) unfolding srv_inv_def ids_ok_def by blast
qed

subsection \<open>A chunk without interference\<close>

inductive_simps srv_Check [go_simps]: "srv_step drv s (Check h) t"
inductive_simps srv_First [go_simps]: "srv_step drv s (First h) t"
inductive_simps srv_Retry [go_simps]: "srv_step drv s (Retry h) t"
inductive_simps srv_Guard [go_simps]: "srv_step drv s (Guard h) t"
inductive_simps srv_SerialWrite [go_simps]: "srv_step drv s (SerialWrite h) t"
inductive_simps srv_ReadErr [go_simps]: "srv_step drv s (ReadErr h) t"

text \<open>A handler's steps are deterministic.\<close>

lemma do_Check: "hp s h = HCheck d \<Longrightarrow> srv_step drv s (Check h) t \<longleftrightarrow> t = at s h (after_check (hid s h) d (the_arb s))"
  and do_First: "hp s h = HFirst d \<Longrightarrow> Acquire (hid s h) (the_arb s) = (a, ok, err) \<Longrightarrow>
    srv_step drv s (First h) t \<longleftrightarrow> t = at (with_arb s a) h (after_first d ok)"
  and do_Retry: "hp s h = HRetry d n \<Longrightarrow> Acquire (hid s h) (the_arb s) = (a, ok, err) \<Longrightarrow>
    srv_step drv s (Retry h) t \<longleftrightarrow> t = at (with_arb s a) h (after_retry d n ok)"
  and do_Guard: "hp s h = HGuard d \<Longrightarrow> srv_step drv s (Guard h) t \<longleftrightarrow> t = at s h (after_guard (hid s h) d (sv s))"
  and do_SerialWrite: "hp s h = HWrite d \<Longrightarrow> ts_serial (sv s) = Some p \<Longrightarrow>
    srv_step drv s (SerialWrite h) t \<longleftrightarrow> t = (at s h HRead)\<lparr>sv := (sv s)\<lparr>ts_serial := Some (fst (Port_Write drv d p))\<rparr>,
      g_writes := g_writes s @ [(h, d)]\<rparr>"
  by (auto simp: srv_Check srv_First srv_Retry srv_Guard srv_SerialWrite)

lemmas do_handler = do_Check do_First do_Retry do_Guard do_SerialWrite

lemma with_arb_same [simp]: "with_arb s (the_arb s) = s"
  by (simp add: with_arb_def)

lemma at_at [simp]: "at (at s h p) h q = at s h q"
  and at_sel [simp]: "hp (at s h p) h = p" "sv (at s h p) = sv s" "cn (at s h p) = cn s"
    "g_writes (at s h p) = g_writes s"
  and with_arb_sel [simp]: "the_arb (with_arb s a) = a" "cn (with_arb s a) = cn s" "hp (with_arb s a) = hp s"
    "g_writes (with_arb s a) = g_writes s" "ts_serial (sv (with_arb s a)) = ts_serial (sv s)"
  by (simp_all add: at_def with_arb_def)

lemma Acquire_held: "lock_view a \<noteq> None \<Longrightarrow> Acquire c a = (a, False, Some ErrLockAlreadyHeld)"
  by (auto simp: lock_view_def Acquire_def split: if_splits)

lemma do_Retry_held: "hp s h = HRetry d n \<Longrightarrow> lock_view (the_arb s) = Some c \<Longrightarrow>
    srv_step drv s (Retry h) t \<longleftrightarrow> t = at s h (after_retry d n False)"
  and do_First_held: "hp s h = HFirst d \<Longrightarrow> lock_view (the_arb s) = Some c \<Longrightarrow>
    srv_step drv s (First h) t \<longleftrightarrow> t = at s h (HRetry d 0)"
  using do_Retry [OF _ Acquire_held] do_First [OF _ Acquire_held] by (fastforce simp: after_first_def)+

lemma retries_locked_out:
  "n \<le> 9 \<Longrightarrow> hp s h = HRetry d n \<Longrightarrow> lock_view (the_arb s) = Some c \<Longrightarrow>
     srv_steps drv s (replicate (10 - n) (Retry h)) t \<longleftrightarrow> t = at s h (HGuard d)"
proof (induction "9 - n" arbitrary: n s)
  case 0
  then have "n = 9" by simp
  with 0 show ?case
    by (simp add: srv_steps_Cons srv_steps_Nil do_Retry_held after_retry_def)
next
  case (Suc m)
  then have r: "replicate (10 - n) (Retry h) = Retry h # replicate (10 - Suc n) (Retry h)" and n: "n < 9"
    by (simp_all flip: replicate_Suc add: Suc_diff_le)
  have m: "m = 9 - Suc n" using Suc.hyps(2) by simp
  have "srv_steps drv (at s h (HRetry d (Suc n))) (replicate (10 - Suc n) (Retry h)) t \<longleftrightarrow> t = at s h (HGuard d)"
    using Suc.hyps(1) [OF m, of "at s h (HRetry d (Suc n))"] n Suc.prems(3) by simp
  moreover have "srv_step drv s (Retry h) u \<longleftrightarrow> u = at s h (HRetry d (Suc n))" for u
    using Suc.prems n by (simp add: do_Retry_held after_retry_def)
  ultimately show ?case unfolding r srv_steps_Cons by simp
qed

lemma locked_out_chunk:
  assumes "srv_steps drv (srv_init addr port) es s" and "hp s h = HCheck d"
    and "lock_view (the_arb s) = Some c" and "c \<noteq> hid s h"
  shows "srv_steps drv s ([Check h, First h] @ replicate 10 (Retry h) @ [Guard h]) t \<longleftrightarrow> t = at s h HRead"
proof -
  have "live s h" using assms(2) by (simp add: live_def)
  then have ow: "Owner (the_arb s) \<noteq> hid s h"
    using owner_is_holder [OF srv_inv_reach [OF assms(1)]] assms(3,4) by simp
  have "srv_steps drv s [Check h, First h] u \<longleftrightarrow> u = at s h (HRetry d 0)" for u
    using assms(2,3) ow
    by (simp add: srv_steps_Cons srv_steps_Nil do_Check do_First_held after_check_def)
  moreover have "srv_steps drv (at s h (HRetry d 0)) (replicate 10 (Retry h)) u \<longleftrightarrow> u = at s h (HGuard d)" for u
    using retries_locked_out [of 0 "at s h (HRetry d 0)" h d c drv u] assms(3) by simp
  moreover have "srv_step drv (at s h (HGuard d)) (Guard h) t \<longleftrightarrow> t = at s h HRead"
    using ow by (simp add: do_Guard after_guard_def)
  ultimately show ?thesis unfolding srv_steps_append by (simp add: srv_steps_Cons [of _ _ "Guard h"] srv_steps_Nil)
qed

text \<open>C16: while another client holds the lock, a chunk is dropped: after the eleven failed attempts the
  handler is back at its read, and neither the server nor the port has changed. The client is
  not told.\<close>

theorem locked_out_chunk_is_dropped:
  assumes "srv_steps drv (srv_init addr port) es s" and "hp s h = HCheck d"
    and "lock_view (the_arb s) = Some c" and "c \<noteq> hid s h"
  shows "srv_steps drv s ([Check h, First h] @ replicate 10 (Retry h) @ [Guard h]) t \<longleftrightarrow> t = at s h HRead"
  using assms by (rule locked_out_chunk)

lemma free_lock_chunk:
  assumes "srv_steps drv (srv_init addr port) es s" and "hp s h = HCheck d"
    and "lock_view (the_arb s) = None"
  shows "\<exists>t. srv_steps drv s [Check h, First h, Guard h, SerialWrite h] t \<and>
    g_writes t = g_writes s @ [(h, d)] \<and> hp t h = HRead \<and> lock_view (the_arb t) = Some (hid s h) \<and>
    ts_serial (sv t) = map_option (\<lambda>p. fst (Port_Write drv d p)) (ts_serial (sv s))"
proof -
  have i: "srv_inv s" using srv_inv_reach [OF assms(1)] .
  have l: "live s h" using assms(2) by (simp add: live_def)
  then have ow: "Owner (the_arb s) \<noteq> hid s h"
    using owner_is_holder [OF i] assms(3) by simp
  obtain a ok err where a: "Acquire (hid s h) (the_arb s) = (a, ok, err)" by (cases "Acquire (hid s h) (the_arb s)")
  have v: "lock_view a = Some (hid s h)" "ok"
    using a assms(3) lock_view_Acquire [of "hid s h" "the_arb s"]
    by (auto simp: lock_view_def Acquire_def Let_def split: if_splits prod.splits)
  have "arb_inv a" using a arb_inv_Acquire [of "the_arb s" "hid s h"] i by (simp add: srv_inv_def)
  moreover have "hid s h \<noteq> ''''" using i l by (auto simp: srv_inv_def ids_ok_def)
  ultimately have o2: "Owner a = hid s h" using v by (simp add: arb_lock.own_iff_holder)
  obtain p where p: "ts_serial (sv s) = Some p" using serial_stays_set [OF assms(1)] by blast
  let ?u = "at (with_arb s a) h (HWrite d)"
  have "srv_step drv s (Check h) (at s h (HFirst d))"
    using assms(2) ow by (simp add: do_Check after_check_def)
  moreover have "srv_step drv (at s h (HFirst d)) (First h) (at (with_arb s a) h (HGuard d))"
    using a v by (simp add: do_First [of _ _ d a ok err] after_first_def) (simp add: at_def with_arb_def)
  moreover have "srv_step drv (at (with_arb s a) h (HGuard d)) (Guard h) ?u"
    using o2 p by (simp add: do_Guard after_guard_def)
  moreover have "srv_step drv ?u (SerialWrite h) ((at ?u h HRead)\<lparr>sv := (sv ?u)\<lparr>ts_serial := Some (fst (Port_Write drv d p))\<rparr>,
      g_writes := g_writes ?u @ [(h, d)]\<rparr>)"
    using p by (subst do_SerialWrite) simp_all
  ultimately have "srv_steps drv s [Check h, First h, Guard h, SerialWrite h]
      ((at ?u h HRead)\<lparr>sv := (sv ?u)\<lparr>ts_serial := Some (fst (Port_Write drv d p))\<rparr>, g_writes := g_writes ?u @ [(h, d)]\<rparr>)"
    unfolding srv_steps_Cons srv_steps_Nil by blast
  moreover have "sv ?u = (sv s)\<lparr>ts_arbiter := a\<rparr>" by (simp add: with_arb_def)
  ultimately show ?thesis using p v by (intro exI conjI) (assumption | simp)+
qed

text \<open>When the lock is free, a chunk takes the lock, reaches the serial port as it was read, and
  leaves the lock with its client (until a timer, a release or the connection's end).\<close>

theorem free_lock_chunk_is_written:
  assumes "srv_steps drv (srv_init addr port) es s" and "hp s h = HCheck d"
    and "lock_view (the_arb s) = None"
  shows "\<exists>t. srv_steps drv s [Check h, First h, Guard h, SerialWrite h] t \<and>
    g_writes t = g_writes s @ [(h, d)] \<and> hp t h = HRead \<and> lock_view (the_arb t) = Some (hid s h) \<and>
    ts_serial (sv t) = map_option (\<lambda>p. fst (Port_Write drv d p)) (ts_serial (sv s))"
  by (rule free_lock_chunk [OF assms])

text \<open>C15: when a client's read fails, the client leaves the map and its lock is free; a lock held by
  somebody else, the other clients and the serial port are left alone.\<close>

theorem disconnect_releases_lock:
  assumes "srv_steps drv (srv_init addr port) es s" and "srv_step drv s (ReadErr h) t"
  shows "lock_view (the_arb t) = (if lock_view (the_arb s) = Some (hid s h) then None else lock_view (the_arb s)) \<and>
    ts_clients (sv t) = (ts_clients (sv s))(hid s h := None) \<and> ts_serial (sv t) = ts_serial (sv s)"
proof -
  have "live s h" using assms(2) by (auto simp: srv_ReadErr live_def)
  then have "Owner (the_arb s) = hid s h \<longleftrightarrow> lock_view (the_arb s) = Some (hid s h)"
    using owner_is_holder [OF srv_inv_reach [OF assms(1)]] by blast
  with assms(2) show ?thesis
    by (auto simp: srv_ReadErr srv_simps Let_def lock_view_ForceRelease)
qed

subsection \<open>Concrete runs\<close>


text \<open>One run with a write of the first client and a second client locked out.\<close>

lemma demo_run:
  "\<exists>t. srv_steps loopback (srv_init '':9999'' (MockPort NewMockSerialPort))
      (([Accept 0 ''a'', Register 0] @ [Accept 1 ''b'', Register 1]) @
       [ReadOk 0 [1], Check 0, First 0, Guard 0, SerialWrite 0, ReadOk 1 [2]]) t \<and>
    hp t 1 = HCheck [2] \<and> lock_view (the_arb t) = Some ''a'' \<and> hid t 1 = ''b'' \<and> g_writes t = [(0, [1])] \<and> hp t 0 = HRead \<and> hid t 0 = ''a''"
proof -
  let ?es = "[ReadOk 0 [1], Check 0, First 0, Guard 0, SerialWrite 0, ReadOk 1 [2]]"
  obtain t where "srv_execs loopback ?es (two_clients (MockPort NewMockSerialPort)) = Some t"
      "hp t 1 = HCheck [2]" "lock_view (the_arb t) = Some ''a''" "hid t 1 = ''b''" "g_writes t = [(0, [1])]" "hp t 0 = HRead" "hid t 0 = ''a''"
    by (simp add: srv_run_simps lock_view_def)
  then show ?thesis using run_two_clients by blast
qed

lemma demo_guard:
  "\<exists>es s t. srv_steps loopback (srv_init '':9999'' (MockPort NewMockSerialPort)) es s \<and> (\<forall>e \<in> set es. \<not> revokes e) \<and>
    srv_step loopback s (Guard 0) t \<and> srv_steps loopback (srv_init '':9999'' (MockPort NewMockSerialPort)) (es @ [Guard 0]) t \<and>
    hp s 0 = HGuard [1] \<and> hp t 0 = HWrite [1]"
proof -
  let ?es = "[ReadOk 0 [1], Check 0, First 0]"
  obtain s where s: "srv_execs loopback ?es (two_clients (MockPort NewMockSerialPort)) = Some s" "hp s 0 = HGuard [1]"
    and g: "srv_exec loopback (Guard 0) s = Some (at s 0 (HWrite [1]))"
    by (simp add: srv_run_simps)
  note r = run_two_clients [OF s(1)]
  from srv_exec_step [OF g] r s(2) show ?thesis
    by (intro exI [of _ "([Accept 0 ''a'', Register 0] @ [Accept 1 ''b'', Register 1]) @ ?es"] exI [of _ s]
        exI [of _ "at s 0 (HWrite [1])"]) (auto simp: srv_steps_snoc simp del: append_assoc append.simps)
qed

theorem serial_writes_in_order_witness:
  "\<exists>es s. srv_steps loopback (srv_init '':9999'' (MockPort NewMockSerialPort)) es s \<and>
     written_for 0 s = [[1]] \<and> subseq (written_for 0 s) (read_from 0 es)"
proof -
  obtain es s where s: "srv_steps loopback (srv_init '':9999'' (MockPort NewMockSerialPort)) es s" "g_writes s = [(0, [1])]"
    using demo_run by blast
  from serial_writes_in_order [OF s(1), of 0] s show ?thesis
    by (intro exI [of _ es] exI [of _ s]) (simp add: written_for_def)
qed

theorem serial_output_is_chunks_witness:
  "\<exists>es s m ws. srv_steps loopback (srv_init '':9999'' (MockPort NewMockSerialPort)) es s \<and> g_writes s = [(0, [1])] \<and>
     ts_serial (sv s) = Some (MockPort m) \<and> MockSerialPort_GetWrittenData m = [1]"
proof -
  obtain es s where s: "srv_steps loopback (srv_init '':9999'' (MockPort NewMockSerialPort)) es s" "g_writes s = [(0, [1])]"
    using demo_run by blast
  have "ts_serial (sv (srv_init '':9999'' (MockPort NewMockSerialPort))) = Some (MockPort NewMockSerialPort)"
    by (simp add: srv_init_def TCPServer_Start_def SetSerial_def)
  from serial_output_is_chunks [OF s(1) this] s show ?thesis
    by (auto simp: srv_init_def MockSerialPort_GetWrittenData_def NewMockSerialPort_def)
qed

theorem only_holder_reaches_write_witness:
  "\<exists>es s t. srv_steps loopback (srv_init '':9999'' (MockPort NewMockSerialPort)) es s \<and> srv_step loopback s (Guard 0) t \<and>
     hp t 0 = HWrite [1] \<and> lock_view (the_arb s) = Some (hid s 0)"
proof -
  obtain es s t where s: "srv_steps loopback (srv_init '':9999'' (MockPort NewMockSerialPort)) es s"
      "srv_step loopback s (Guard 0) t" "hp t 0 = HWrite [1]" "hp s 0 = HGuard [1]"
    using demo_guard by blast
  then have "hp s 0 \<noteq> HWrite [1]" by simp
  from only_holder_reaches_write [OF s(1-3) this] s show ?thesis by blast
qed

theorem exclusive_writers_witness:
  "\<exists>es s. srv_steps loopback (srv_init '':9999'' (MockPort NewMockSerialPort)) es s \<and>
     hp s 0 = HWrite [1] \<and> lock_view (the_arb s) = Some (hid s 0)"
proof -
  obtain es t where s: "srv_steps loopback (srv_init '':9999'' (MockPort NewMockSerialPort)) (es @ [Guard 0]) t"
      "\<forall>e \<in> set es. \<not> revokes e" "hp t 0 = HWrite [1]"
    using demo_guard by blast
  then have "\<forall>e \<in> set (es @ [Guard 0]). \<not> revokes e" by auto
  from exclusive_writers [OF s(1) this s(3) s(3)] s show ?thesis by blast
qed

theorem locked_out_chunk_is_dropped_witness:
  "\<exists>s t. hp s 1 = HCheck [2] \<and> hp t 1 = HRead \<and> sv t = sv s \<and>
     srv_steps loopback s ([Check 1, First 1] @ replicate 10 (Retry 1) @ [Guard 1]) t"
proof -
  obtain es s where s: "srv_steps loopback (srv_init '':9999'' (MockPort NewMockSerialPort)) es s"
      "hp s 1 = HCheck [2]" "lock_view (the_arb s) = Some ''a''" "hid s 1 = ''b''"
    using demo_run by blast
  then have "''a'' \<noteq> hid s 1" by simp
  from locked_out_chunk_is_dropped [OF s(1-3) this, of "at s 1 HRead"] s
  show ?thesis by (intro exI [of _ s] exI [of _ "at s 1 HRead"]) simp
qed

theorem free_lock_chunk_is_written_witness:
  "\<exists>s t. srv_steps loopback s [Check 0, First 0, Guard 0, SerialWrite 0] t \<and> g_writes t = [(0, [1])]"
proof -
  let ?s = "at (two_clients (MockPort NewMockSerialPort)) 0 (HCheck [1])"
  have "srv_execs loopback [ReadOk 0 [1]] (two_clients (MockPort NewMockSerialPort)) = Some ?s"
    by (simp add: srv_run_simps)
  note r = run_two_clients [OF this]
  have "lock_view (the_arb ?s) = None" "hp ?s 0 = HCheck [1]" "g_writes ?s = []"
    by (simp_all add: srv_run_simps lock_view_def)
  with free_lock_chunk_is_written [OF r, of 0 "[1]"] show ?thesis by (metis append_Nil)
qed

theorem disconnect_releases_lock_witness:
  "\<exists>s t. srv_step loopback s (ReadErr 0) t \<and> lock_view (the_arb s) = Some (hid s 0) \<and> lock_view (the_arb t) = None"
proof -
  obtain es s where s: "srv_steps loopback (srv_init '':9999'' (MockPort NewMockSerialPort)) es s"
      "hp s 0 = HRead" "lock_view (the_arb s) = Some ''a''" "hid s 0 = ''a''"
    using demo_run by blast
  note st = srv_step.read_err [OF s(2)]
  from disconnect_releases_lock [OF s(1) st] st s(3,4) show ?thesis by metis
qed

end
