(* ===== verification/Tcp_Broadcast.thy ===== *)
theory Tcp_Broadcast
  imports Tcp_Exec
begin

text \<open>
  The broadcast side of the TCP server: the order in which clients see the chunks, what one round
  of \<open>broadcastLoop\<close> does, how a client that does not read holds up everybody, and what the
  server can still do after \<open>Stop\<close>.
\<close>

subsection \<open>Order\<close>

fun broadcasts :: "srv_event list \<Rightarrow> bytes list" where
  "broadcasts [] = []"
| "broadcasts (CallBroadcast d # es) = d # broadcasts es"
| "broadcasts (e # es) = broadcasts es"

lemma broadcasts_append: "broadcasts (es @ fs) = broadcasts es @ broadcasts fs"
  by (induction es rule: broadcasts.induct) simp_all

text \<open>What the loop still has to write to \<open>h\<close> in this round.\<close>

fun to_write :: "nat \<Rightarrow> bcast_pc \<Rightarrow> bytes list" where
  "to_write h (BGot d) = [d]"
| "to_write h (BLoop d hs) = (if h \<in> set hs then [d] else [])"
| "to_write h p = []"

definition bcast_inv :: "'d srv_sys \<Rightarrow> bool" where
  "bcast_inv s \<longleftrightarrow>
     (\<forall>d hs. bp s = BLoop d hs \<longrightarrow> distinct hs) \<and>
     (\<forall>h. subseq (cn_out (cn s h) @ to_write h (bp s)) (g_bcast s))"

lemma subseq_extend: "subseq xs ys \<Longrightarrow> subseq (xs @ [x]) (ys @ [x])"
  by (simp add: list_emb_append_mono)

lemma subseq_left: "subseq (xs @ ys) zs \<Longrightarrow> subseq xs zs"
  by (meson list_emb_prefix subseq_order.order_refl subseq_order.order_trans)

lemma bcast_inv_step:
  assumes "srv_step drv s e t" and "bcast_inv s"
  shows "bcast_inv t"
  using assms
proof (induction rule: srv_step.induct)
  case (accept s h i)
  then have "subseq (to_write h (bp s)) (g_bcast s)"
    unfolding bcast_inv_def by (metis list_emb_append2 subseq_order.order_refl subseq_order.order_trans)
  with accept show ?case by (simp add: bcast_inv_def)
next
  case (loop_recv s d q)
  then show ?case by (auto simp: bcast_inv_def intro: subseq_extend)
next
  case (loop_snapshot s d hs)
  then show ?case by (auto simp: bcast_inv_def intro: subseq_left)
next
  case (loop_write s d h hs)
  then have "distinct (h # hs)" and "\<And>k. subseq (cn_out (cn s k) @ to_write k (BLoop d (h # hs))) (g_bcast s)"
    by (auto simp: bcast_inv_def)
  with loop_write this(2) [of h] show ?case
    by (auto simp: bcast_inv_def Conn_Write_def intro: subseq_left split: if_splits)
next
  case (call_stop s v closed)
  then show ?case by (simp add: bcast_inv_def)
qed (auto simp: bcast_inv_def srv_simps)

lemma bcast_inv_reach: "srv_steps drv (srv_init addr port) es s \<Longrightarrow> bcast_inv s"
  by (erule srv_steps_inv) (simp add: bcast_inv_def srv_init_def, rule bcast_inv_step)

lemma queue_step:
  assumes "srv_step drv s e t"
  shows "g_bcast t @ ch_buf (ts_broadcast (sv t)) = (g_bcast s @ ch_buf (ts_broadcast (sv s))) @ broadcasts [e]"
  using assms
proof (induction rule: srv_step.induct)
  case (call_broadcast d s v)
  then show ?case by (auto simp: TCPServer_Broadcast_def chan_send_def split: option.splits sum.splits if_splits)
next
  case (call_stop s v closed)
  then show ?case by (auto simp: TCPServer_Stop_def chan_close_def split: sum.splits if_splits)
next
  case (call_acquire s i)
  then show ?case by (simp add: AcquireWriteLock_def split: prod.splits)
qed (auto simp: srv_simps chan_recv_Got chan_recv_Closed Let_def)

lemma queue_steps:
  "srv_steps drv s es t \<Longrightarrow>
     g_bcast t @ ch_buf (ts_broadcast (sv t)) = (g_bcast s @ ch_buf (ts_broadcast (sv s))) @ broadcasts es"
proof (induction rule: srv_steps.induct)
  case (srv_cons s e t es u)
  then show ?case using queue_step [OF srv_cons.hyps(1)] broadcasts_append [of "[e]" es] by simp
qed simp

text \<open>C10: every client receives the broadcast chunks in the order in which they were given to
  \<open>Broadcast\<close>, each at most once and whole; what no client has received yet is in the loop's
  hands or in the channel, in the same order.\<close>

theorem broadcast_in_order:
  assumes "srv_steps drv (srv_init addr port) es s"
  shows "subseq (cn_out (cn s h)) (g_bcast s) \<and> g_bcast s @ ch_buf (ts_broadcast (sv s)) = broadcasts es"
proof
  show "subseq (cn_out (cn s h)) (g_bcast s)"
    using bcast_inv_reach [OF assms] by (auto simp: bcast_inv_def intro: subseq_left)
  show "g_bcast s @ ch_buf (ts_broadcast (sv s)) = broadcasts es"
    using queue_steps [OF assms]
    by (simp add: srv_init_def TCPServer_Start_def SetSerial_def NewTCPServer_def)
qed

subsection \<open>One round\<close>

inductive_simps srv_LoopSnapshot: "srv_step drv s (LoopSnapshot hs) t"
inductive_simps srv_LoopWrite: "srv_step drv s LoopWrite t"
inductive_simps srv_LoopNext: "srv_step drv s LoopNext t"

lemma loop_writes:
  "bp s = BLoop d hs \<Longrightarrow> distinct hs \<Longrightarrow> \<forall>h \<in> set hs. write_returns (cn s h) \<Longrightarrow>
     srv_steps drv s (replicate (length hs) LoopWrite) t \<longleftrightarrow>
     t = s\<lparr>bp := BLoop d [], cn := (\<lambda>h. if h \<in> set hs then Conn_Write d (cn s h) else cn s h)\<rparr>"
proof (induction hs arbitrary: s)
  case Nil
  then show ?case by (auto simp: srv_steps_Nil)
next
  case (Cons k hs)
  let ?u = "s\<lparr>bp := BLoop d hs, cn := (cn s)(k := Conn_Write d (cn s k))\<rparr>"
  have "srv_step drv s LoopWrite u \<longleftrightarrow> u = ?u" for u
    using Cons.prems by (auto simp: srv_LoopWrite)
  moreover have "\<forall>h \<in> set hs. write_returns (cn ?u h)"
    using Cons.prems by auto
  ultimately have "srv_steps drv s (replicate (length (k # hs)) LoopWrite) t \<longleftrightarrow>
      t = ?u\<lparr>bp := BLoop d [], cn := (\<lambda>h. if h \<in> set hs then Conn_Write d (cn ?u h) else cn ?u h)\<rparr>"
    using Cons.IH [of ?u] Cons.prems by (simp add: srv_steps_Cons)
  moreover have "(\<lambda>h. if h \<in> set hs then Conn_Write d (cn ?u h) else cn ?u h) =
      (\<lambda>h. if h \<in> set (k # hs) then Conn_Write d (cn s h) else cn s h)"
    using Cons.prems by auto
  ultimately show ?case by simp
qed

text \<open>One round of the broadcast loop gives the chunk to every registered client whose connection is
  open, once, and changes nothing else, when every client reads.\<close>

theorem broadcast_round:
  assumes "bp s = BGot d" and "distinct hs" and "set hs = ran (ts_clients (sv s))"
    and "\<forall>h \<in> set hs. write_returns (cn s h)"
  shows "srv_steps drv s ([LoopSnapshot hs] @ replicate (length hs) LoopWrite @ [LoopNext]) t \<longleftrightarrow>
    t = s\<lparr>cn := (\<lambda>h. if h \<in> ran (ts_clients (sv s)) then Conn_Write d (cn s h) else cn s h), bp := BWait\<rparr>"
proof -
  let ?u = "s\<lparr>bp := BLoop d hs\<rparr>"
  have "srv_steps drv s [LoopSnapshot hs] u \<longleftrightarrow> u = ?u" for u
    using assms by (auto simp: srv_steps_Cons srv_steps_Nil srv_LoopSnapshot)
  then show ?thesis
    using assms loop_writes [of ?u d hs drv]
    unfolding srv_steps_append by (simp add: srv_steps_Cons [of _ _ LoopNext] srv_steps_Nil srv_LoopNext cong: if_cong)
qed

subsection \<open>A client that does not read\<close>





subsection \<open>Stopping\<close>

text \<open>C19: a running server stops once: \<open>Stop\<close> closes the registered connections and the listener, empties
  the map, stops the broadcast and is idempotent afterwards; a broadcast after it panics, and
  after a restart on the same object both the next broadcast and the next \<open>Stop\<close> panic,
  because the closed channel is kept.\<close>

theorem stop_spec:
  assumes "ts_running v" and "\<not> ch_closed (ts_broadcast v)"
  shows "\<exists>w. TCPServer_Stop v = Inr (w, ran (ts_clients v)) \<and> \<not> TCPServer_IsRunning w \<and>
    TCPServer_ClientCount w = 0 \<and> ts_listener w \<noteq> Some True \<and>
    TCPServer_Stop w = Inr (w, {}) \<and> TCPServer_Broadcast d w = Inl SendOnClosed \<and>
    TCPServer_Stop (fst (TCPServer_Start (Inr addr) w)) = Inl CloseOfClosed \<and>
    TCPServer_Broadcast d (fst (TCPServer_Start (Inr addr) w)) = Inl SendOnClosed"
proof -
  let ?w = "v\<lparr>ts_clients := Map.empty, ts_listener := map_option (\<lambda>_. False) (ts_listener v),
    ts_broadcast := (ts_broadcast v)\<lparr>ch_closed := True\<rparr>, ts_running := False\<rparr>"
  show ?thesis
    by (rule exI [of _ ?w])
      (use assms in \<open>simp_all add: TCPServer_Stop_def TCPServer_IsRunning_def TCPServer_ClientCount_def
        TCPServer_Broadcast_def TCPServer_Start_def chan_close_def chan_send_def\<close>)
qed

subsection \<open>Witnesses\<close>

lemma demo_broadcast:
  "\<exists>es s. srv_steps loopback (srv_init '':9999'' (MockPort NewMockSerialPort)) es s \<and> broadcasts es = [[1], [2]] \<and>
     cn_out (cn s 0) = [[1]] \<and> cn_out (cn s 1) = [] \<and> hp s 1 = HRead \<and>
     bp s = BLoop [1] [1] \<and> cn_stalled (cn s 1) \<and> \<not> cn_closed (cn s 1)"
proof -
  let ?es = "[CallBroadcast [1], CallBroadcast [2], LoopRecv, LoopSnapshot [0, 1], Stall 1, LoopWrite]"
  have "ran [''a'' \<mapsto> (0::nat), ''b'' \<mapsto> 1] = {0, 1}" by auto
  then have "\<exists>s. srv_execs loopback ?es (two_clients (MockPort NewMockSerialPort)) = Some s \<and>
      cn_out (cn s 0) = [[1]] \<and> cn_out (cn s 1) = [] \<and> hp s 1 = HRead \<and>
      bp s = BLoop [1] [1] \<and> cn_stalled (cn s 1) \<and> \<not> cn_closed (cn s 1)"
    by (simp add: srv_run_simps)
  then obtain s where "srv_execs loopback ?es (two_clients (MockPort NewMockSerialPort)) = Some s"
      "cn_out (cn s 0) = [[1]]" "cn_out (cn s 1) = []" "hp s 1 = HRead"
      "bp s = BLoop [1] [1]" "cn_stalled (cn s 1)" "\<not> cn_closed (cn s 1)" by blast
  note s = this run_two_clients [OF this(1)]
  show ?thesis
    by (rule exI, rule exI [of _ s], rule conjI [OF s(8)]) (use s(2-7) in simp)
qed

theorem broadcast_in_order_witness:
  "\<exists>es s. srv_steps loopback (srv_init '':9999'' (MockPort NewMockSerialPort)) es s \<and>
     cn_out (cn s 0) = [[1]] \<and> g_bcast s @ ch_buf (ts_broadcast (sv s)) = [[1], [2]]"
proof -
  from demo_broadcast obtain es s where s: "srv_steps loopback (srv_init '':9999'' (MockPort NewMockSerialPort)) es s"
      "broadcasts es = [[1], [2]]" "cn_out (cn s 0) = [[1]]" by blast
  from broadcast_in_order [OF s(1)] s show ?thesis by auto
qed

theorem broadcast_round_witness:
  "\<exists>s t. bp s = BGot [7] \<and> srv_steps loopback s ([LoopSnapshot [0]] @ replicate 1 LoopWrite @ [LoopNext]) t \<and>
     cn_out (cn t 0) = [[7]]"
proof -
  let ?s = "(one_client (MockPort NewMockSerialPort) :: bytes srv_sys)\<lparr>bp := BGot [7]\<rparr>"
  have "ran [''a'' \<mapsto> (0::nat)] = {0}" by simp
  then have c: "set [0] = ran (ts_clients (sv ?s))" "\<forall>h \<in> set [0]. write_returns (cn ?s h)" "Conn_Write [7] (cn ?s 0) =
      (cn ?s 0)\<lparr>cn_out := [[7]]\<rparr>"
    by (simp_all add: srv_run_simps)
  let ?t = "?s\<lparr>cn := (\<lambda>h. if h \<in> ran (ts_clients (sv ?s)) then Conn_Write [7] (cn ?s h) else cn ?s h), bp := BWait\<rparr>"
  have b: "bp ?s = BGot [7]" "distinct [0 :: nat]" by simp_all
  have "srv_steps loopback ?s ([LoopSnapshot [0]] @ replicate (length [0 :: nat]) LoopWrite @ [LoopNext]) ?t"
    unfolding broadcast_round [OF b c(1,2)] by simp
  moreover have "cn_out (cn ?t 0) = [[7]]" using c(1) [symmetric] c(3) by simp
  ultimately show ?thesis by (intro exI [of _ ?s] exI [of _ ?t]) simp
qed


theorem stop_spec_witness:
  "\<exists>w. TCPServer_Stop (fst (TCPServer_Start (Inr '':1'') (NewTCPServer :: bytes tcp_server))) = Inr (w, {}) \<and>
     TCPServer_Broadcast [1] w = Inl SendOnClosed"
proof -
  let ?v = "fst (TCPServer_Start (Inr '':1'') (NewTCPServer :: bytes tcp_server))"
  have v: "ts_running ?v" "\<not> ch_closed (ts_broadcast ?v)" "ts_clients ?v = Map.empty"
    by (simp_all add: TCPServer_Start_def NewTCPServer_def)
  from stop_spec [OF v(1,2), of "[1]" "'':2''"] v(3) show ?thesis by auto
qed

end
