(* ===== verification/Mock_Server.thy ===== *)
theory Mock_Server
  imports Arbiter Serial_Port Broadcast
begin

text \<open>
  The mock server and the mock connection of \<open>internal/server/server.go\<close>. The connections of the
  map are references: accepted TCP connections, or mock connections, whose contents live in a
  heap. \<open>Broadcast\<close> starts one goroutine per client, whose unsynchronised \<open>Write\<close> on a mock
  connection first reads and then stores the buffer; the system \<open>mk_sys\<close> interleaves those two
  halves with the methods.
\<close>

subsection \<open>The mock connection\<close>

record mock_conn =
  mcc_id :: string
  mcc_data :: bytes

definition MockClientConn_Read :: "nat \<Rightarrow> mock_conn \<Rightarrow> mock_conn \<times> (go_error + bytes)" where
  "MockClientConn_Read n c =
     (if mcc_data c = [] then (c, Inr [])
      else let (d, rest) = go_copy n (mcc_data c) in (c\<lparr>mcc_data := rest\<rparr>, Inr d))"

definition MockClientConn_Write :: "bytes \<Rightarrow> mock_conn \<Rightarrow> mock_conn \<times> (go_error + nat)" where
  "MockClientConn_Write b c = (c\<lparr>mcc_data := mcc_data c @ b\<rparr>, Inr (length b))"

text \<open>The rest of \<open>net.Conn\<close>: nothing is closed, there are no addresses (\<open>nil\<close>) and no deadlines.\<close>

definition MockClientConn_Close :: "mock_conn \<Rightarrow> mock_conn \<times> go_error option" where
  "MockClientConn_Close c = (c, None)"

definition MockClientConn_LocalAddr :: "mock_conn \<Rightarrow> string option" where
  "MockClientConn_LocalAddr c = None"

definition MockClientConn_RemoteAddr :: "mock_conn \<Rightarrow> string option" where
  "MockClientConn_RemoteAddr c = None"

definition MockClientConn_SetDeadline :: "int \<Rightarrow> mock_conn \<Rightarrow> mock_conn \<times> go_error option" where
  "MockClientConn_SetDeadline t c = (c, None)"

definition MockClientConn_SetReadDeadline :: "int \<Rightarrow> mock_conn \<Rightarrow> mock_conn \<times> go_error option" where
  "MockClientConn_SetReadDeadline t c = (c, None)"

definition MockClientConn_SetWriteDeadline :: "int \<Rightarrow> mock_conn \<Rightarrow> mock_conn \<times> go_error option" where
  "MockClientConn_SetWriteDeadline t c = (c, None)"

interpretation mock_conn_stream: byte_stream mcc_data "\<lambda>b c. fst (MockClientConn_Write b c)"
  "\<lambda>n c. (fst (MockClientConn_Read n c), payload (snd (MockClientConn_Read n c)))" "\<lambda>_. True"
  by unfold_locales (auto simp: MockClientConn_Write_def MockClientConn_Read_def go_simps)

subsection \<open>The mock server\<close>

datatype conn_ref = TcpConn nat | MockConn nat

record 'd mock_server =
  mks_running :: bool
  mks_addr :: string
  mks_listener :: "bool option"
  mks_clients :: "string \<rightharpoonup> conn_ref"
  mks_arbiter :: arb_sys
  mks_serial :: "'d any_port option"
  mks_data :: bytes
  mks_MaxBufferSize :: int

definition DefaultServerMaxBufferSize :: int where
  "DefaultServerMaxBufferSize = 1 * 1024 * 1024"

definition NewMockServer :: "'d mock_server" where
  "NewMockServer = \<lparr>mks_running = False, mks_addr = '''', mks_listener = None, mks_clients = Map.empty,
     mks_arbiter = NewArbiter (30 * 1000000000), mks_serial = None, mks_data = [],
     mks_MaxBufferSize = DefaultServerMaxBufferSize\<rparr>"

definition NewMockServerWithSerial :: "arb_sys \<Rightarrow> 'd any_port \<Rightarrow> 'd mock_server" where
  "NewMockServerWithSerial a serialPort = NewMockServer\<lparr>mks_arbiter := a, mks_serial := Some serialPort\<rparr>"

definition appendDataWithLimit :: "bytes \<Rightarrow> 'd mock_server \<Rightarrow> go_panic + 'd mock_server" where
  "appendDataWithLimit newData m =
     (let d = mks_data m @ newData in
      if mks_MaxBufferSize m < int (length d)
      then (case tail_slice (mks_MaxBufferSize m) d of
              Inl p \<Rightarrow> Inl p
            | Inr d' \<Rightarrow> Inr (m\<lparr>mks_data := d'\<rparr>))
      else Inr (m\<lparr>mks_data := d\<rparr>))"

lemma appendDataWithLimit_eq:
  "0 \<le> mks_MaxBufferSize m \<Longrightarrow>
     appendDataWithLimit d m = Inr (m\<lparr>mks_data := keep_last (nat (mks_MaxBufferSize m)) (mks_data m @ d)\<rparr>)"
  by (simp add: appendDataWithLimit_def tail_slice_def Let_def)

interpretation mock_server_log: bounded_log mks_data mks_MaxBufferSize appendDataWithLimit
  by unfold_locales (auto simp: appendDataWithLimit_eq)

definition MockServer_Start :: "(go_error + string) \<Rightarrow> 'd mock_server \<Rightarrow> 'd mock_server \<times> go_error option" where
  "MockServer_Start listen m =
     (case listen of
        Inl err \<Rightarrow> (m, Some err)
      | Inr addr \<Rightarrow> (m\<lparr>mks_listener := Some True, mks_addr := addr, mks_running := True\<rparr>, None))"

text \<open>The accept loop registers a connection under its remote address.\<close>

definition accept_mock_conn :: "string \<Rightarrow> nat \<Rightarrow> 'd mock_server \<Rightarrow> 'd mock_server" where
  "accept_mock_conn clientAddr h m = m\<lparr>mks_clients := (mks_clients m)(clientAddr \<mapsto> TcpConn h)\<rparr>"

text \<open>
  One turn of \<open>handleMockConn\<close>; \<open>IsLocked\<close> and \<open>Owner\<close> lock the arbiter separately, so they may
  see two different states of it, \<open>a1\<close> and \<open>a2\<close>.
\<close>

definition handleMockConn_iter ::
    "arb_sys \<Rightarrow> arb_sys \<Rightarrow> string \<Rightarrow> go_error + bytes \<Rightarrow> 'd mock_server \<Rightarrow> go_panic + 'd mock_server" where
  "handleMockConn_iter a1 a2 clientAddr read m =
     (case read of
        Inl err \<Rightarrow> Inr (m\<lparr>mks_clients := (mks_clients m)(clientAddr := None)\<rparr>)
      | Inr buf \<Rightarrow>
          if IsLocked a1 \<and> Owner a2 = clientAddr then appendDataWithLimit buf m else Inr m)"

definition MockServer_Stop :: "'d mock_server \<Rightarrow> 'd mock_server" where
  "MockServer_Stop m =
     m\<lparr>mks_running := False, mks_clients := Map.empty, mks_listener := map_option (\<lambda>_. False) (mks_listener m)\<rparr>"

definition MockServer_IsRunning :: "'d mock_server \<Rightarrow> bool" where
  "MockServer_IsRunning m = mks_running m"

definition MockServer_Addr :: "'d mock_server \<Rightarrow> string" where
  "MockServer_Addr m = mks_addr m"

definition MockServer_ClientCount :: "'d mock_server \<Rightarrow> nat" where
  "MockServer_ClientCount m = card (dom (mks_clients m))"

definition MockServer_GetClientIDs :: "'d mock_server \<Rightarrow> string set" where
  "MockServer_GetClientIDs m = dom (mks_clients m)"

text \<open>\<open>Broadcast\<close> records the data and names the connections it starts a goroutine for.\<close>

definition MockServer_Broadcast :: "bytes \<Rightarrow> 'd mock_server \<Rightarrow> go_panic + 'd mock_server \<times> conn_ref set" where
  "MockServer_Broadcast data m =
     (case appendDataWithLimit data m of
        Inl p \<Rightarrow> Inl p
      | Inr m' \<Rightarrow> Inr (m', ran (mks_clients m')))"

definition MockServer_AcquireWriteLock :: "string \<Rightarrow> 'd mock_server \<Rightarrow> 'd mock_server \<times> bool \<times> arb_error option" where
  "MockServer_AcquireWriteLock clientID m =
     (let (a, res) = Acquire clientID (mks_arbiter m) in (m\<lparr>mks_arbiter := a\<rparr>, res))"

definition MockServer_ReleaseWriteLock :: "string \<Rightarrow> 'd mock_server \<Rightarrow> 'd mock_server" where
  "MockServer_ReleaseWriteLock clientID m = m\<lparr>mks_arbiter := fst (Release clientID (mks_arbiter m))\<rparr>"

definition MockServer_HasWriteLock :: "'d mock_server \<Rightarrow> bool" where
  "MockServer_HasWriteLock m = IsLocked (mks_arbiter m)"

subsection \<open>Mock clients\<close>

text \<open>The heap of mock connections, and the goroutines of \<open>Broadcast\<close>: not started, or past the read.\<close>

datatype write_pc = WStart conn_ref bytes | WLoaded nat bytes bytes

record 'd mk_sys =
  mk_srv :: "'d mock_server"
  mk_heap :: "nat \<rightharpoonup> mock_conn"
  mk_writes :: "write_pc list"

definition AddMockClient :: "string \<Rightarrow> nat \<Rightarrow> 'd mk_sys \<Rightarrow> 'd mk_sys" where
  "AddMockClient clientID r s =
     s\<lparr>mk_srv := (mk_srv s)\<lparr>mks_clients := (mks_clients (mk_srv s))(clientID \<mapsto> MockConn r)\<rparr>,
       mk_heap := (mk_heap s)(r \<mapsto> \<lparr>mcc_id = clientID, mcc_data = []\<rparr>)\<rparr>"

definition GetMockClientData :: "string \<Rightarrow> 'd mk_sys \<Rightarrow> bytes" where
  "GetMockClientData clientID s =
     (case mks_clients (mk_srv s) clientID of
        Some (MockConn r) \<Rightarrow> (case mk_heap s r of Some c \<Rightarrow> mcc_data c | None \<Rightarrow> [])
      | _ \<Rightarrow> [])"

datatype mk_event =
    MkAdd string nat | MkBroadcast bytes "conn_ref list" | MkLoad nat | MkStore nat

text \<open>\<open>m.data = append(m.data, b...)\<close> of the goroutine number \<open>i\<close> in two steps.\<close>

fun mk_do :: "mk_event \<Rightarrow> 'd mk_sys \<Rightarrow> 'd mk_sys option" where
  "mk_do (MkAdd c r) s = (if mk_heap s r = None then Some (AddMockClient c r s) else None)"
| "mk_do (MkBroadcast d rs) s =
     (case MockServer_Broadcast d (mk_srv s) of
        Inl p \<Rightarrow> None
      | Inr (m, refs) \<Rightarrow>
          if distinct rs \<and> set rs = refs
          then Some (s\<lparr>mk_srv := m, mk_writes := mk_writes s @ map (\<lambda>r. WStart r d) rs\<rparr>) else None)"
| "mk_do (MkLoad i) s =
     (if i < length (mk_writes s)
      then (case mk_writes s ! i of
              WStart (MockConn r) d \<Rightarrow>
                (case mk_heap s r of
                   Some c \<Rightarrow> Some (s\<lparr>mk_writes := (mk_writes s)[i := WLoaded r (mcc_data c) d]\<rparr>)
                 | None \<Rightarrow> None)
            | _ \<Rightarrow> None)
      else None)"
| "mk_do (MkStore i) s =
     (if i < length (mk_writes s)
      then (case mk_writes s ! i of
              WLoaded r old d \<Rightarrow>
                (case mk_heap s r of
                   Some c \<Rightarrow> Some (s\<lparr>mk_heap := (mk_heap s)(r \<mapsto> c\<lparr>mcc_data := old @ d\<rparr>),
                                     mk_writes := take i (mk_writes s) @ drop (Suc i) (mk_writes s)\<rparr>)
                 | None \<Rightarrow> None)
            | _ \<Rightarrow> None)
      else None)"

fun mk_run :: "mk_event list \<Rightarrow> 'd mk_sys \<Rightarrow> 'd mk_sys option" where
  "mk_run [] s = Some s"
| "mk_run (e # es) s = (case mk_do e s of None \<Rightarrow> None | Some t \<Rightarrow> mk_run es t)"

interpretation mk_runs: event_runs mk_do mk_run
  by unfold_locales simp_all

definition mk_init :: "'d mk_sys" where
  "mk_init = \<lparr>mk_srv = NewMockServer, mk_heap = Map.empty, mk_writes = []\<rparr>"

subsection \<open>Properties\<close>

text \<open>The mock server's record of what it received and broadcast is always the last
  \<open>MaxBufferSize\<close> bytes of everything recorded.\<close>

theorem mock_server_keeps_newest:
  assumes "0 \<le> mks_MaxBufferSize m" and "length (mks_data m) \<le> nat (mks_MaxBufferSize m)"
  shows "\<exists>m'. mock_server_log.append_all ds m = Inr m' \<and>
    mks_data m' = keep_last (nat (mks_MaxBufferSize m)) (mks_data m @ concat ds)"
  using mock_server_log.append_all_tail [OF assms, of ds] by auto

theorem mock_server_keeps_newest_witness:
  "\<exists>m'. mock_server_log.append_all [[1], [2, 3]] ((NewMockServer :: bytes mock_server)\<lparr>mks_MaxBufferSize := 2\<rparr>) = Inr m' \<and>
    mks_data m' = [2, 3]"
  using mock_server_keeps_newest [of "(NewMockServer :: bytes mock_server)\<lparr>mks_MaxBufferSize := 2\<rparr>" "[[1], [2, 3]]"]
  by (simp add: NewMockServer_def keep_last_def)

text \<open>What a connection sends is recorded exactly when its client holds the write lock at the second
  check; anything else, and a failed read, leaves the record alone.\<close>

theorem mock_server_records_holder:
  assumes "arb_inv a" and "clientAddr \<noteq> ''''" and "0 \<le> mks_MaxBufferSize m"
  shows "\<exists>m'. handleMockConn_iter a a clientAddr (Inr buf) m = Inr m' \<and>
    mks_data m' = (if lock_view a = Some clientAddr then keep_last (nat (mks_MaxBufferSize m)) (mks_data m @ buf)
                   else mks_data m)"
proof -
  have "Owner a = clientAddr \<longleftrightarrow> lock_view a = Some clientAddr"
    using assms(1,2) by (rule arb_lock.own_iff_holder)
  moreover have "lock_view a = Some clientAddr \<Longrightarrow> IsLocked a"
    by (simp add: lock_view_def IsLocked_def split: if_splits)
  ultimately show ?thesis
    using appendDataWithLimit_eq [OF assms(3), of buf] by (auto simp: handleMockConn_iter_def)
qed

theorem mock_server_records_holder_witness:
  "\<exists>m'. handleMockConn_iter (fst (Acquire ''a'' (NewArbiter 30))) (fst (Acquire ''a'' (NewArbiter 30))) ''a'' (Inr [7])
      (NewMockServer :: bytes mock_server) = Inr m' \<and> mks_data m' = [7]"
proof -
  let ?a = "fst (Acquire ''a'' (NewArbiter 30))"
  have a: "arb_inv ?a" "lock_view ?a = Some ''a''"
    by (simp_all add: arb_inv_Acquire arb_inv_new lock_view_Acquire)
  show ?thesis
    using mock_server_records_holder [OF a(1), of "''a''" "NewMockServer :: bytes mock_server" "[7]"] a(2)
    by (simp add: NewMockServer_def DefaultServerMaxBufferSize_def)
qed

text \<open>The goroutines of two broadcasts write to a mock connection without synchronisation: one of the
  two chunks can be lost although both writes return.\<close>

theorem mock_broadcast_can_lose:
  "\<exists>s. mk_run [MkAdd ''c'' 0, MkBroadcast [1] [MockConn 0], MkBroadcast [2] [MockConn 0],
        MkLoad 0, MkLoad 1, MkStore 0, MkStore 0] (mk_init :: bytes mk_sys) = Some s \<and>
     mk_writes s = [] \<and> GetMockClientData ''c'' s = [2] \<and> mks_data (mk_srv s) = [1, 2]"
  by (simp add: mk_init_def NewMockServer_def DefaultServerMaxBufferSize_def AddMockClient_def
      MockServer_Broadcast_def appendDataWithLimit_def GetMockClientData_def)

end
