(* ===== verification/Reconnect.thy ===== *)
theory Reconnect
  imports Go_Base
begin

text \<open>
  Reconnecting, \<open>internal/reconnect/reconnect.go\<close>: the manager's methods, and the goroutine of
  \<open>AutoReconnect\<close> as a state machine that interleaves with them. The outcome of every
  \<open>net.Dial\<close> (an error or a new connection, named by a number) is a parameter of the event.
  \<open>g_failed\<close> counts the dials that failed since the last success.
\<close>

subsection \<open>The manager\<close>

record reconnect_manager =
  rm_serverAddr :: string
  rm_conn :: "nat option"
  rm_connected :: bool
  rm_maxRetry :: int
  rm_retryCount :: int
  rm_retryInterval :: int
  rm_stopChan :: "unit chan"

definition NewReconnectManager :: "string \<Rightarrow> int \<Rightarrow> int \<Rightarrow> reconnect_manager" where
  "NewReconnectManager serverAddr maxRetry retryInterval =
     \<lparr>rm_serverAddr = serverAddr, rm_conn = None, rm_connected = False, rm_maxRetry = maxRetry,
      rm_retryCount = 0, rm_retryInterval = retryInterval, rm_stopChan = make_chan 0\<rparr>"

definition ReconnectManager_Connect :: "go_error + nat \<Rightarrow> reconnect_manager \<Rightarrow> reconnect_manager \<times> go_error option" where
  "ReconnectManager_Connect dial r =
     (case dial of
        Inl err \<Rightarrow> (r, Some err)
      | Inr conn \<Rightarrow> (r\<lparr>rm_conn := Some conn, rm_connected := True, rm_retryCount := 0\<rparr>, None))"

text \<open>\<open>Disconnect\<close> closes the connection, if there is one, but keeps it in the field.\<close>

definition ReconnectManager_Disconnect :: "reconnect_manager \<Rightarrow> reconnect_manager \<times> nat option" where
  "ReconnectManager_Disconnect r = (r\<lparr>rm_connected := False\<rparr>, rm_conn r)"

definition ReconnectManager_IsConnected :: "reconnect_manager \<Rightarrow> bool" where
  "ReconnectManager_IsConnected r = rm_connected r"

definition ReconnectManager_GetConnection :: "reconnect_manager \<Rightarrow> nat option" where
  "ReconnectManager_GetConnection r = rm_conn r"

definition tryReconnect :: "go_error + nat \<Rightarrow> reconnect_manager \<Rightarrow> reconnect_manager \<times> go_error option" where
  "tryReconnect dial r =
     (let r1 = r\<lparr>rm_retryCount := wrap64 (rm_retryCount r + 1)\<rparr> in
      if 0 < rm_maxRetry r1 \<and> rm_maxRetry r1 < rm_retryCount r1
      then (r1, Some (ErrorString ''max retry count exceeded''))
      else case dial of
             Inl err \<Rightarrow> (r1, Some err)
           | Inr conn \<Rightarrow> (r1\<lparr>rm_conn := Some conn, rm_connected := True, rm_retryCount := 0\<rparr>, None))"

definition ReconnectManager_Stop :: "reconnect_manager \<Rightarrow> go_panic + reconnect_manager" where
  "ReconnectManager_Stop r =
     (case chan_close (rm_stopChan r) of Inl p \<Rightarrow> Inl p | Inr c \<Rightarrow> Inr (r\<lparr>rm_stopChan := c\<rparr>))"

text \<open>Whether \<open>tryReconnect\<close> gets to its dial.\<close>

definition dials :: "reconnect_manager \<Rightarrow> bool" where
  "dials r \<longleftrightarrow> \<not> (0 < rm_maxRetry r \<and> rm_maxRetry r < wrap64 (rm_retryCount r + 1))"

subsection \<open>The goroutine of AutoReconnect\<close>

datatype auto_pc = ASelect | ATry | ASend go_error | ASleep | AExit

record rc_sys =
  rc_mgr :: reconnect_manager
  rc_pc :: auto_pc
  rc_errChan :: "go_error chan"
  g_failed :: int

datatype rc_event =
    AutoSelect | AutoTry "go_error + nat" | AutoSend | AutoWake
  | RecvErr | UserConnect "go_error + nat" | UserDisconnect | UserStop

definition AutoReconnect :: "reconnect_manager \<Rightarrow> rc_sys" where
  "AutoReconnect r = \<lparr>rc_mgr = r, rc_pc = ASelect, rc_errChan = make_chan 1, g_failed = 0\<rparr>"

text \<open>
  The receive from \<open>stopChan\<close> succeeds when the channel is closed; otherwise the default branch
  checks the connection, and tries to reconnect in a second critical section.
\<close>

fun rc_do :: "rc_event \<Rightarrow> rc_sys \<Rightarrow> rc_sys option" where
  "rc_do AutoSelect s =
     (if rc_pc s = ASelect
      then Some (s\<lparr>rc_pc := (case fst (chan_recv (rm_stopChan (rc_mgr s))) of
                               Blocked \<Rightarrow> (if ReconnectManager_IsConnected (rc_mgr s) then ASleep else ATry)
                             | _ \<Rightarrow> AExit)\<rparr>)
      else None)"
| "rc_do (AutoTry dial) s =
     (if rc_pc s = ATry
      then (let (r, err) = tryReconnect dial (rc_mgr s) in
            Some (s\<lparr>rc_mgr := r, rc_pc := (case err of None \<Rightarrow> ASleep | Some e \<Rightarrow> ASend e),
                    g_failed := (if err = None then 0 else if dials (rc_mgr s) then g_failed s + 1 else g_failed s)\<rparr>))
      else None)"
| "rc_do AutoSend s =
     (case rc_pc s of
        ASend e \<Rightarrow>
          (case chan_send e (rc_errChan s) of
             Inr (Some c) \<Rightarrow> Some (s\<lparr>rc_pc := ASleep, rc_errChan := c\<rparr>)
           | _ \<Rightarrow> None)
      | _ \<Rightarrow> None)"
| "rc_do AutoWake s = (if rc_pc s = ASleep then Some (s\<lparr>rc_pc := ASelect\<rparr>) else None)"
| "rc_do RecvErr s =
     (case chan_recv (rc_errChan s) of (Got e, c) \<Rightarrow> Some (s\<lparr>rc_errChan := c\<rparr>) | _ \<Rightarrow> None)"
| "rc_do (UserConnect dial) s =
     (let (r, err) = ReconnectManager_Connect dial (rc_mgr s) in
      Some (s\<lparr>rc_mgr := r, g_failed := (if err = None then 0 else g_failed s)\<rparr>))"
| "rc_do UserDisconnect s = Some (s\<lparr>rc_mgr := fst (ReconnectManager_Disconnect (rc_mgr s))\<rparr>)"
| "rc_do UserStop s =
     (case ReconnectManager_Stop (rc_mgr s) of Inl p \<Rightarrow> None | Inr r \<Rightarrow> Some (s\<lparr>rc_mgr := r\<rparr>))"

fun rc_run :: "rc_event list \<Rightarrow> rc_sys \<Rightarrow> rc_sys option" where
  "rc_run [] s = Some s"
| "rc_run (e # es) s = (case rc_do e s of None \<Rightarrow> None | Some t \<Rightarrow> rc_run es t)"

interpretation rc_runs: event_runs rc_do rc_run
  by unfold_locales simp_all

lemmas reconnect_defs = NewReconnectManager_def ReconnectManager_Connect_def ReconnectManager_Disconnect_def
  ReconnectManager_IsConnected_def ReconnectManager_GetConnection_def tryReconnect_def
  ReconnectManager_Stop_def AutoReconnect_def dials_def

subsection \<open>The mock manager\<close>

record mock_reconnect =
  mrm_connected :: bool
  mrm_conn :: "nat option"

definition NewMockReconnectManager :: mock_reconnect where
  "NewMockReconnectManager = \<lparr>mrm_connected = False, mrm_conn = None\<rparr>"

definition MockReconnectManager_Connect :: "mock_reconnect \<Rightarrow> mock_reconnect" where
  "MockReconnectManager_Connect m = m\<lparr>mrm_connected := True\<rparr>"

definition MockReconnectManager_Disconnect :: "mock_reconnect \<Rightarrow> mock_reconnect" where
  "MockReconnectManager_Disconnect m = m\<lparr>mrm_connected := False\<rparr>"

text \<open>The mock never sends an error, and its \<open>Stop\<close> does nothing.\<close>

definition MockReconnectManager_AutoReconnect :: "mock_reconnect \<Rightarrow> go_error chan" where
  "MockReconnectManager_AutoReconnect m = make_chan 1"

definition MockReconnectManager_Stop :: "mock_reconnect \<Rightarrow> mock_reconnect" where
  "MockReconnectManager_Stop m = m"

definition MockReconnectManager_IsConnected :: "mock_reconnect \<Rightarrow> bool" where
  "MockReconnectManager_IsConnected m = mrm_connected m"

definition MockReconnectManager_SetConnection :: "nat option \<Rightarrow> mock_reconnect \<Rightarrow> mock_reconnect" where
  "MockReconnectManager_SetConnection conn m = m\<lparr>mrm_conn := conn\<rparr>"

definition MockReconnectManager_GetConnection :: "mock_reconnect \<Rightarrow> nat option" where
  "MockReconnectManager_GetConnection m = mrm_conn m"

subsection \<open>The interface of a connection manager\<close>

text \<open>
  What the client program relies on, whichever manager it has: connecting and disconnecting set
  the state that \<open>IsConnected\<close> reports.
\<close>

locale connection_state =
  fixes connect :: "'m \<Rightarrow> 'm" and disconnect :: "'m \<Rightarrow> 'm" and connected :: "'m \<Rightarrow> bool"
  assumes connect_sets: "connected (connect m)"
    and disconnect_clears: "\<not> connected (disconnect m)"
begin

fun replay :: "bool list \<Rightarrow> 'm \<Rightarrow> 'm" where
  "replay [] m = m"
| "replay (b # bs) m = replay bs (if b then connect m else disconnect m)"

lemma replay_last: "connected (replay (bs @ [b]) m) \<longleftrightarrow> b"
  by (induction bs arbitrary: m) (simp_all add: connect_sets disconnect_clears)

end

interpretation real_state: connection_state
  "\<lambda>r. fst (ReconnectManager_Connect (Inr n) r)" "\<lambda>r. fst (ReconnectManager_Disconnect r)" ReconnectManager_IsConnected
  for n
  by unfold_locales (simp_all add: reconnect_defs)

interpretation mock_state: connection_state
  MockReconnectManager_Connect MockReconnectManager_Disconnect MockReconnectManager_IsConnected
  by unfold_locales (simp_all add: MockReconnectManager_Connect_def MockReconnectManager_Disconnect_def
      MockReconnectManager_IsConnected_def)

subsection \<open>The retry bound\<close>








subsection \<open>Errors that nobody reads\<close>

text \<open>When the error channel is full and nobody receives from it, the goroutine stays in its send:
  it never dials again, even after the server is back, and \<open>Stop\<close> does not end it.\<close>

theorem unread_error_ends_reconnecting:
  assumes "rc_run es s = Some t" and "rc_pc s = ASend err"
    and "ch_cap (rc_errChan s) \<le> length (ch_buf (rc_errChan s))" and "RecvErr \<notin> set es"
  shows "rc_pc t = ASend err \<and> (\<forall>dial. rc_do (AutoTry dial) t = None)"
proof -
  have "rc_pc t = ASend err \<and> rc_errChan t = rc_errChan s"
  proof (rule rc_runs.run_keep_on [OF assms(1), where Q = "\<lambda>e. e \<noteq> RecvErr"])
    fix e u v
    assume "rc_do e u = Some v" "e \<noteq> RecvErr" "rc_pc u = ASend err \<and> rc_errChan u = rc_errChan s"
    then show "rc_pc v = ASend err \<and> rc_errChan v = rc_errChan s"
      using assms(3) by (cases e) (auto simp: chan_send_def split: prod.splits sum.splits option.splits if_splits)
  qed (use assms(2,4) in auto)
  then show ?thesis by simp
qed

theorem unread_error_ends_reconnecting_witness:
  "\<exists>s t. rc_run [AutoSelect, AutoTry (Inl IoEOF), AutoSend, AutoWake, AutoSelect, AutoTry (Inl IoEOF)]
       (AutoReconnect (NewReconnectManager ''h:1'' 0 5)) = Some s \<and>
     rc_run [UserStop] s = Some t \<and> rc_pc t = ASend IoEOF \<and> (\<forall>dial. rc_do (AutoTry dial) t = None)"
proof -
  let ?es = "[AutoSelect, AutoTry (Inl IoEOF), AutoSend, AutoWake, AutoSelect, AutoTry (Inl IoEOF)]"
  obtain s t where s: "rc_run ?es (AutoReconnect (NewReconnectManager ''h:1'' 0 5)) = Some s"
      "rc_pc s = ASend IoEOF" "ch_cap (rc_errChan s) \<le> length (ch_buf (rc_errChan s))" "rc_run [UserStop] s = Some t"
    by (simp add: reconnect_defs chan_recv_def chan_send_def make_chan_def chan_close_def)
  from unread_error_ends_reconnecting [OF s(4,2,3)] s show ?thesis by auto
qed

text \<open>A dropped connection is replaced by the next turn of the goroutine when the dial succeeds and
  the limit is not exhausted; the counter starts again at zero.\<close>

theorem reconnects_when_dial_succeeds:
  assumes "rc_pc s = ASelect" and "\<not> ch_closed (rm_stopChan (rc_mgr s))" and "ch_buf (rm_stopChan (rc_mgr s)) = []"
    and "rm_maxRetry (rc_mgr s) \<le> 0 \<or> rm_retryCount (rc_mgr s) < rm_maxRetry (rc_mgr s)"
    and "0 \<le> rm_retryCount (rc_mgr s)" and "rm_maxRetry (rc_mgr s) < 2 ^ 63"
  shows "\<exists>u. rc_run [UserDisconnect, AutoSelect, AutoTry (Inr c), AutoWake] s = Some u \<and>
    ReconnectManager_IsConnected (rc_mgr u) \<and> ReconnectManager_GetConnection (rc_mgr u) = Some c \<and>
    rm_retryCount (rc_mgr u) = 0 \<and> rc_pc u = ASelect"
proof -
  have "dials (rc_mgr s)"
  proof (cases "0 < rm_maxRetry (rc_mgr s)")
    case True
    with assms(4-6) have "wrap64 (rm_retryCount (rc_mgr s) + 1) = rm_retryCount (rc_mgr s) + 1"
      by (intro wrap64_id) auto
    with True assms(4) show ?thesis by (simp add: dials_def)
  qed (simp add: dials_def)
  with assms(1-3) show ?thesis
    by (simp add: reconnect_defs chan_recv_def Let_def)
qed

theorem reconnects_when_dial_succeeds_witness:
  "\<exists>u. rc_run [UserDisconnect, AutoSelect, AutoTry (Inr 7), AutoWake] (AutoReconnect (NewReconnectManager ''h:1'' 3 5)) = Some u \<and>
     ReconnectManager_GetConnection (rc_mgr u) = Some 7"
proof -
  let ?s = "AutoReconnect (NewReconnectManager ''h:1'' 3 5)"
  have "rc_pc ?s = ASelect" "\<not> ch_closed (rm_stopChan (rc_mgr ?s))" "ch_buf (rm_stopChan (rc_mgr ?s)) = []"
    "rm_maxRetry (rc_mgr ?s) \<le> 0 \<or> rm_retryCount (rc_mgr ?s) < rm_maxRetry (rc_mgr ?s)"
    "0 \<le> rm_retryCount (rc_mgr ?s)" "rm_maxRetry (rc_mgr ?s) < 2 ^ 63"
    by (simp_all add: AutoReconnect_def NewReconnectManager_def)
  from reconnects_when_dial_succeeds [OF this, of 7] show ?thesis by blast
qed

end
