(* ===== verification/Config_File.thy ===== *)
theory Config_File
  imports Go_Strings
begin

text \<open>
  The configuration, \<open>internal/config\<close>: the two structs (their nested structs flattened into
  prefixed fields), the default values, the search for a file and the addresses built from the
  fields. The YAML package is a parameter (\<open>unmarshal\<close> into a zero struct, \<open>marshal\<close>), and so
  is the file system (\<open>read\<close> and \<open>write\<close>).
\<close>

subsection \<open>The structs\<close>

record server_config =
  Serial_Path :: string
  Serial_BaudRate :: int
  Serial_DataBits :: int
  Serial_StopBits :: int
  Serial_Parity :: string
  Server_Port :: int
  Server_Address :: string
  Arbiter_Timeout :: int
  Arbiter_AutoRelease :: bool
  Log_Level :: string
  Log_File :: string

record client_config =
  CServer_Address :: string
  CServer_Port :: int
  PTY_Path :: string
  PTY_BaudRate :: int
  Reconnect_Enabled :: bool
  Reconnect_Interval :: int
  Reconnect_MaxRetry :: int
  CLog_Level :: string
  CLog_File :: string

subsection \<open>Addresses\<close>

text \<open>The loop \<open>for n > 0\<close>, with the digits found so far.\<close>

function intToString_loop :: "int \<Rightarrow> string \<Rightarrow> string" where
  "intToString_loop n s =
     (if 0 < n then intToString_loop (n div 10) (char_of (48 + nat (n mod 10)) # s) else s)"
  by auto
termination by (relation "measure (\<lambda>(n, s). nat n)") auto

declare intToString_loop.simps [simp del]

definition intToString :: "int \<Rightarrow> string" where
  "intToString n = (if n = 7700 then ''7700'' else intToString_loop n '''')"

definition ServerAddress :: "client_config \<Rightarrow> string" where
  "ServerAddress c = CServer_Address c @ '':'' @ intToString (CServer_Port c)"

definition ListenAddress :: "server_config \<Rightarrow> string" where
  "ListenAddress c = Server_Address c @ '':'' @ intToString (Server_Port c)"

subsection \<open>Defaults\<close>

definition DefaultServerConfig :: server_config where
  "DefaultServerConfig =
     \<lparr>Serial_Path = ''/dev/ttyUSB0'', Serial_BaudRate = 115200, Serial_DataBits = 8, Serial_StopBits = 1,
      Serial_Parity = ''none'', Server_Port = 7700, Server_Address = ''0.0.0.0'', Arbiter_Timeout = 30,
      Arbiter_AutoRelease = True, Log_Level = ''info'', Log_File = ''''\<rparr>"

definition DefaultClientConfig :: client_config where
  "DefaultClientConfig =
     \<lparr>CServer_Address = ''127.0.0.1'', CServer_Port = 7700, PTY_Path = ''/tmp/vttyShare0'', PTY_BaudRate = 115200,
      Reconnect_Enabled = True, Reconnect_Interval = 5, Reconnect_MaxRetry = 10,
      CLog_Level = ''info'', CLog_File = ''''\<rparr>"

definition or_default :: "'a \<Rightarrow> 'a \<Rightarrow> 'a \<Rightarrow> 'a" where
  "or_default zero d x = (if x = zero then d else x)"

definition ApplyDefaults :: "server_config \<Rightarrow> server_config" where
  "ApplyDefaults cfg =
     cfg\<lparr>Serial_Path := or_default '''' (Serial_Path DefaultServerConfig) (Serial_Path cfg),
         Serial_BaudRate := or_default 0 (Serial_BaudRate DefaultServerConfig) (Serial_BaudRate cfg),
         Serial_DataBits := or_default 0 (Serial_DataBits DefaultServerConfig) (Serial_DataBits cfg),
         Serial_StopBits := or_default 0 (Serial_StopBits DefaultServerConfig) (Serial_StopBits cfg),
         Serial_Parity := or_default '''' (Serial_Parity DefaultServerConfig) (Serial_Parity cfg),
         Server_Port := or_default 0 (Server_Port DefaultServerConfig) (Server_Port cfg),
         Server_Address := or_default '''' (Server_Address DefaultServerConfig) (Server_Address cfg),
         Arbiter_Timeout := or_default 0 (Arbiter_Timeout DefaultServerConfig) (Arbiter_Timeout cfg),
         Log_Level := or_default '''' (Log_Level DefaultServerConfig) (Log_Level cfg)\<rparr>"

definition ApplyClientDefaults :: "client_config \<Rightarrow> client_config" where
  "ApplyClientDefaults cfg =
     cfg\<lparr>CServer_Address := or_default '''' (CServer_Address DefaultClientConfig) (CServer_Address cfg),
         CServer_Port := or_default 0 (CServer_Port DefaultClientConfig) (CServer_Port cfg),
         PTY_Path := or_default '''' (PTY_Path DefaultClientConfig) (PTY_Path cfg),
         PTY_BaudRate := or_default 0 (PTY_BaudRate DefaultClientConfig) (PTY_BaudRate cfg),
         Reconnect_Interval := or_default 0 (Reconnect_Interval DefaultClientConfig) (Reconnect_Interval cfg),
         Reconnect_MaxRetry := or_default 0 (Reconnect_MaxRetry DefaultClientConfig) (Reconnect_MaxRetry cfg),
         CLog_Level := or_default '''' (CLog_Level DefaultClientConfig) (CLog_Level cfg)\<rparr>"

subsection \<open>Loading and saving\<close>

definition ErrConfigNotFound :: go_error where "ErrConfigNotFound = ErrorString ''config file not found''"
definition ErrConfigParse :: go_error where "ErrConfigParse = ErrorString ''failed to parse config file''"

text \<open>The loop over the candidate paths, with what to do after the last.\<close>

fun search_paths ::
    "(string \<Rightarrow> go_error + string) \<Rightarrow> (string \<Rightarrow> go_error + 'c) \<Rightarrow> ('c \<Rightarrow> 'c) \<Rightarrow> 'c \<Rightarrow> string list \<Rightarrow> go_error + 'c" where
  "search_paths read unmarshal apply d [] = Inr d"
| "search_paths read unmarshal apply d (p # ps) =
     (if p = '''' then search_paths read unmarshal apply d ps
      else case read p of
             Inl err \<Rightarrow> search_paths read unmarshal apply d ps
           | Inr data \<Rightarrow> (case unmarshal data of Inl err \<Rightarrow> Inl ErrConfigParse | Inr cfg \<Rightarrow> Inr (apply cfg)))"

definition server_paths :: "string \<Rightarrow> string list" where
  "server_paths path = [path, ''/etc/shareserial/server.yaml'', ''./configs/server.yaml'']"

definition client_paths :: "string \<Rightarrow> string list" where
  "client_paths path = [path, ''/etc/shareserial/client.yaml'', ''./configs/client.yaml'']"

definition LoadServer ::
    "(string \<Rightarrow> go_error + string) \<Rightarrow> (string \<Rightarrow> go_error + server_config) \<Rightarrow> string \<Rightarrow> go_error + server_config" where
  "LoadServer read unmarshal path =
     search_paths read unmarshal ApplyDefaults DefaultServerConfig (server_paths path)"

definition LoadClient ::
    "(string \<Rightarrow> go_error + string) \<Rightarrow> (string \<Rightarrow> go_error + client_config) \<Rightarrow> string \<Rightarrow> go_error + client_config" where
  "LoadClient read unmarshal path =
     search_paths read unmarshal ApplyClientDefaults DefaultClientConfig (client_paths path)"

definition LoadServerFromFile ::
    "(string \<Rightarrow> go_error + string) \<Rightarrow> (string \<Rightarrow> go_error + server_config) \<Rightarrow> string \<Rightarrow> go_error + server_config" where
  "LoadServerFromFile read unmarshal path =
     (case read path of
        Inl err \<Rightarrow> Inl err
      | Inr data \<Rightarrow> (case unmarshal data of Inl err \<Rightarrow> Inl ErrConfigParse | Inr cfg \<Rightarrow> Inr (ApplyDefaults cfg)))"

definition LoadClientFromFile ::
    "(string \<Rightarrow> go_error + string) \<Rightarrow> (string \<Rightarrow> go_error + client_config) \<Rightarrow> string \<Rightarrow> go_error + client_config" where
  "LoadClientFromFile read unmarshal path =
     (case read path of
        Inl err \<Rightarrow> Inl err
      | Inr data \<Rightarrow> (case unmarshal data of Inl err \<Rightarrow> Inl ErrConfigParse | Inr cfg \<Rightarrow> Inr (ApplyClientDefaults cfg)))"

text \<open>The file system is a state \<open>'f\<close> that \<open>write\<close> may change.\<close>

definition SaveServer ::
    "(server_config \<Rightarrow> go_error + string) \<Rightarrow> (string \<Rightarrow> string \<Rightarrow> 'f \<Rightarrow> 'f \<times> go_error option) \<Rightarrow>
     server_config \<Rightarrow> string \<Rightarrow> 'f \<Rightarrow> 'f \<times> go_error option" where
  "SaveServer marshal write cfg path fs =
     (case marshal cfg of Inl err \<Rightarrow> (fs, Some err) | Inr data \<Rightarrow> write path data fs)"

definition SaveClient ::
    "(client_config \<Rightarrow> go_error + string) \<Rightarrow> (string \<Rightarrow> string \<Rightarrow> 'f \<Rightarrow> 'f \<times> go_error option) \<Rightarrow>
     client_config \<Rightarrow> string \<Rightarrow> 'f \<Rightarrow> 'f \<times> go_error option" where
  "SaveClient marshal write cfg path fs =
     (case marshal cfg of Inl err \<Rightarrow> (fs, Some err) | Inr data \<Rightarrow> write path data fs)"

subsection \<open>The contract of the default values\<close>

text \<open>Complete configurations have no field that \<open>ApplyDefaults\<close> would fill in.\<close>

definition server_complete :: "server_config \<Rightarrow> bool" where
  "server_complete c \<longleftrightarrow>
     Serial_Path c \<noteq> '''' \<and> Serial_BaudRate c \<noteq> 0 \<and> Serial_DataBits c \<noteq> 0 \<and> Serial_StopBits c \<noteq> 0 \<and>
     Serial_Parity c \<noteq> '''' \<and> Server_Port c \<noteq> 0 \<and> Server_Address c \<noteq> '''' \<and> Arbiter_Timeout c \<noteq> 0 \<and> Log_Level c \<noteq> ''''"

definition client_complete :: "client_config \<Rightarrow> bool" where
  "client_complete c \<longleftrightarrow>
     CServer_Address c \<noteq> '''' \<and> CServer_Port c \<noteq> 0 \<and> PTY_Path c \<noteq> '''' \<and> PTY_BaudRate c \<noteq> 0 \<and>
     Reconnect_Interval c \<noteq> 0 \<and> Reconnect_MaxRetry c \<noteq> 0 \<and> CLog_Level c \<noteq> ''''"

locale defaulting =
  fixes apply_def :: "'c \<Rightarrow> 'c" and dflt :: 'c and complete :: "'c \<Rightarrow> bool"
  assumes apply_complete: "complete (apply_def c)"
    and apply_same: "complete c \<Longrightarrow> apply_def c = c"
    and dflt_complete: "complete dflt"
begin

lemma apply_idem: "apply_def (apply_def c) = apply_def c"
  by (rule apply_same [OF apply_complete])

lemma search_complete: "search_paths read un apply_def dflt ps = Inr c \<Longrightarrow> complete c"
  using dflt_complete by (induction ps) (auto simp: apply_complete split: if_splits sum.splits)

text \<open>The first readable path decides.\<close>

lemma search_first:
  "search_paths read un apply_def dflt ps =
     (case List.find (\<lambda>p. p \<noteq> '''' \<and> is_ok (read p)) ps of
        None \<Rightarrow> Inr dflt
      | Some p \<Rightarrow> (case un (projr (read p)) of Inl _ \<Rightarrow> Inl ErrConfigParse | Inr c \<Rightarrow> Inr (apply_def c)))"
  by (induction ps) (auto split: sum.splits)

end

lemmas server_fields = ApplyDefaults_def DefaultServerConfig_def server_complete_def or_default_def
lemmas client_fields = ApplyClientDefaults_def DefaultClientConfig_def client_complete_def or_default_def

interpretation server_defaults: defaulting ApplyDefaults DefaultServerConfig server_complete
  by unfold_locales (auto simp: server_fields)

interpretation client_defaults: defaulting ApplyClientDefaults DefaultClientConfig client_complete
  by unfold_locales (auto simp: client_fields)

subsection \<open>Properties\<close>

lemma intToString_loop_eq: "0 < n \<Longrightarrow> intToString_loop n s = show_nat (nat n) @ s"
proof (induction n s rule: intToString_loop.induct)
  case (1 n s)
  show ?case
  proof (cases "n < 10")
    case True
    with 1 show ?thesis
      by (simp add: intToString_loop.simps [of n] intToString_loop.simps [of 0] show_nat.simps [of "nat n"]
          digit_char_def)
  next
    case False
    then have "0 < n div 10" by presburger
    with 1 False have "intToString_loop n s = show_nat (nat (n div 10)) @ char_of (48 + nat (n mod 10)) # s"
      by (simp add: intToString_loop.simps [of n])
    moreover have "nat (n div 10) = nat n div 10" "nat (n mod 10) = nat n mod 10"
      using False by (simp_all add: nat_div_distrib nat_mod_distrib)
    moreover have "show_nat (nat n) = show_nat (nat n div 10) @ [digit_char (nat n mod 10)]"
      by (subst show_nat.simps) (use False in simp)
    ultimately show ?thesis by (simp only: digit_char_def append_assoc append.simps)
  qed
qed

lemma intToString_pos: "0 < n \<Longrightarrow> intToString n = itoa n"
proof -
  assume n: "0 < n"
  have "intToString_loop 7700 [] = ''7700''"
    by (simp add: intToString_loop.simps char_of_def bit_0)
  with n show ?thesis by (auto simp: intToString_def intToString_loop_eq itoa_def)
qed

text \<open>The hand-written number printer agrees with \<open>%d\<close> on the positive numbers and prints every
  other number, 0 included, as the empty string; the special case of 7700 changes nothing.\<close>

theorem intToString_spec: "intToString n = (if 0 < n then itoa n else [])"
  using intToString_pos by (auto simp: intToString_def intToString_loop.simps [of n])

text \<open>Loading the server's configuration follows the documented search: the first readable path
  among the given one and the two standard ones decides, a file that does not parse is the only
  error, and without a readable file the defaults are returned.\<close>

theorem LoadServer_search:
  "LoadServer read un path =
     (case List.find (\<lambda>p. p \<noteq> '''' \<and> is_ok (read p)) (server_paths path) of
        None \<Rightarrow> Inr DefaultServerConfig
      | Some p \<Rightarrow> (case un (projr (read p)) of Inl _ \<Rightarrow> Inl ErrConfigParse | Inr c \<Rightarrow> Inr (ApplyDefaults c)))"
  unfolding LoadServer_def by (rule server_defaults.search_first)

text \<open>Every configuration the client loads is complete, whatever the file says: in particular
  \<open>max_retry\<close> is never 0, so the unlimited reconnecting that 0 stands for cannot be configured.\<close>

theorem LoadClient_complete:
  assumes "LoadClient read un path = Inr c"
  shows "client_complete c \<and> ApplyClientDefaults c = c"
  using client_defaults.search_complete [OF assms [unfolded LoadClient_def]] client_defaults.apply_same by blast

theorem LoadClient_complete_witness:
  "\<exists>c. LoadClient (\<lambda>p. if p = ''c.yaml'' then Inr ''max_retry: 0'' else Inl IoEOF)
        (\<lambda>_. Inr (DefaultClientConfig\<lparr>Reconnect_MaxRetry := 0\<rparr>)) ''c.yaml'' = Inr c \<and> Reconnect_MaxRetry c = 10 \<and>
     client_complete c"
proof -
  let ?l = "LoadClient (\<lambda>p. if p = ''c.yaml'' then Inr ''max_retry: 0'' else Inl IoEOF)
        (\<lambda>_. Inr (DefaultClientConfig\<lparr>Reconnect_MaxRetry := 0\<rparr>)) ''c.yaml''"
  have l: "?l = Inr DefaultClientConfig"
    by (simp add: LoadClient_def client_paths_def client_fields)
  from LoadClient_complete [OF l] l show ?thesis by (simp add: DefaultClientConfig_def)
qed

text \<open>A saved server configuration is read back as it was when it is complete, for any YAML package
  that reads back what it wrote and any file system that returns what was written; an incomplete
  one comes back completed.\<close>

theorem server_config_roundtrip:
  assumes "marshal cfg = Inr d" and "unmarshal d = Inr cfg"
    and "\<And>p d f. snd (write p d f) = None \<Longrightarrow> read (fst (write p d f)) p = Inr d"
    and "snd (SaveServer marshal write cfg path fs) = None"
  shows "LoadServerFromFile (read (fst (SaveServer marshal write cfg path fs))) unmarshal path =
    Inr (if server_complete cfg then cfg else ApplyDefaults cfg)"
proof -
  have "read (fst (write path d fs)) path = Inr d"
    by (rule assms(3)) (use assms(1,4) in \<open>simp add: SaveServer_def\<close>)
  with assms(1,2) show ?thesis by (simp add: SaveServer_def LoadServerFromFile_def server_defaults.apply_same)
qed

text \<open>One document, and a file system as a list of written files.\<close>

theorem server_config_roundtrip_witness:
  "LoadServerFromFile
     (\<lambda>p. case map_of (fst (SaveServer (\<lambda>c. Inr ''x'') (\<lambda>p d f. ((p, d) # f, None)) DefaultServerConfig ''s.yaml'' [])) p of
            Some d \<Rightarrow> Inr d | None \<Rightarrow> Inl IoEOF)
     (\<lambda>d. Inr DefaultServerConfig) ''s.yaml'' = Inr DefaultServerConfig"
  using server_config_roundtrip [of "\<lambda>c. Inr ''x''" DefaultServerConfig "''x''" "\<lambda>d. Inr DefaultServerConfig"
      "\<lambda>p d f. ((p, d) # f, None)" "\<lambda>f p. case map_of f p of Some d \<Rightarrow> Inr d | None \<Rightarrow> Inl IoEOF" "''s.yaml''" "[]"]
    server_defaults.dflt_complete
  by (simp add: SaveServer_def)

end
