(* ===== verification/Server_Main.thy ===== *)
theory Server_Main
  imports Tcp_Broadcast Config_File
begin

text \<open>
  The server programs, \<open>cmd/server/main.go\<close> and \<open>cmd/server-windows/main.go\<close>: how the flags and the
  configuration become a running server, the loop \<open>readSerialAndBroadcast\<close>, and the shutdown. The
  step relation \<open>main_step\<close> runs the loop and the main goroutine together with the TCP server's own
  goroutines (\<open>srv_step\<close>); the device behind a real port may change its state at any moment.
  \<open>flag.Parse\<close>'s result is the record \<open>server_flags\<close>; the listener is a parameter.
\<close>

subsection \<open>Start-up\<close>

record server_flags =
  sf_config :: string
  sf_serial :: string
  sf_port :: int
  sf_version :: bool
  sf_scan :: bool

definition override_server :: "server_flags \<Rightarrow> server_config \<Rightarrow> server_config" where
  "override_server fl cfg =
     (let c1 = (if sf_serial fl \<noteq> '''' then cfg\<lparr>Serial_Path := sf_serial fl\<rparr> else cfg) in
      if sf_port fl \<noteq> 0 then c1\<lparr>Server_Port := sf_port fl\<rparr> else c1)"

datatype 'd startup =
    ShowVersion
  | ScanPorts
  | Fatal go_error
  | Running "'d tcp_server" server_config

definition load_or_default ::
    "(string \<Rightarrow> go_error + string) \<Rightarrow> (string \<Rightarrow> go_error + server_config) \<Rightarrow> string \<Rightarrow> server_config" where
  "load_or_default read unmarshal path =
     (case LoadServer read unmarshal path of Inl err \<Rightarrow> DefaultServerConfig | Inr cfg \<Rightarrow> cfg)"

definition open_port :: "'d driver \<Rightarrow> string \<Rightarrow> 'd any_port" where
  "open_port drv path =
     (case NewPort drv path of
        Inr p \<Rightarrow> p
      | Inl err \<Rightarrow> MockPort (fst (MockSerialPort_Open path NewMockSerialPort)))"

definition start_server ::
    "'d driver \<Rightarrow> (string \<Rightarrow> go_error + string) \<Rightarrow> server_config \<Rightarrow> 'd startup" where
  "start_server drv listen cfg =
     (let srv = SetSerial (open_port drv (Serial_Path cfg)) NewTCPServer in
      case TCPServer_Start (listen (ListenAddress cfg)) srv of
        (s, None) \<Rightarrow> Running s cfg
      | (s, Some err) \<Rightarrow> Fatal err)"

definition server_main ::
    "'d driver \<Rightarrow> (string \<Rightarrow> go_error + string) \<Rightarrow> (string \<Rightarrow> go_error + server_config) \<Rightarrow>
     (string \<Rightarrow> go_error + string) \<Rightarrow> server_flags \<Rightarrow> 'd startup" where
  "server_main drv read unmarshal listen fl =
     (if sf_version fl then ShowVersion
      else start_server drv listen (override_server fl (load_or_default read unmarshal (sf_config fl))))"

definition windows_server_main ::
    "'d driver \<Rightarrow> (string \<Rightarrow> go_error + string) \<Rightarrow> (string \<Rightarrow> go_error + server_config) \<Rightarrow>
     (string \<Rightarrow> go_error + string) \<Rightarrow> server_flags \<Rightarrow> 'd startup" where
  "windows_server_main drv read unmarshal listen fl =
     (if sf_version fl then ShowVersion
      else if sf_scan fl then ScanPorts
      else start_server drv listen (override_server fl (load_or_default read unmarshal (sf_config fl))))"

subsection \<open>The local address\<close>

text \<open>An \<open>*net.IPNet\<close> with its IP of 4 or 16 bytes, or another kind of address.\<close>

datatype net_addr = IPNet "nat list" | OtherAddr

definition To4 :: "nat list \<Rightarrow> nat list option" where
  "To4 ip =
     (if length ip = 4 then Some ip
      else if length ip = 16 \<and> take 12 ip = replicate 10 0 @ [255, 255] then Some (drop 12 ip)
      else None)"

definition IsLoopback :: "nat list \<Rightarrow> bool" where
  "IsLoopback ip =
     (case To4 ip of
        Some v4 \<Rightarrow> hd v4 = 127
      | None \<Rightarrow> ip = replicate 15 0 @ [1])"

text \<open>\<open>IP.String()\<close> of an address that has a 4-byte form.\<close>

definition ip4_string :: "nat list \<Rightarrow> string" where
  "ip4_string v4 = Join (map show_nat v4) ''.''"

fun first_ip :: "net_addr list \<Rightarrow> string" where
  "first_ip [] = ''127.0.0.1''"
| "first_ip (IPNet ip # as) =
     (if \<not> IsLoopback ip
      then (case To4 ip of Some v4 \<Rightarrow> ip4_string v4 | None \<Rightarrow> first_ip as)
      else first_ip as)"
| "first_ip (OtherAddr # as) = first_ip as"

definition getLocalIP :: "go_error + net_addr list \<Rightarrow> string" where
  "getLocalIP addrs = (case addrs of Inl err \<Rightarrow> ''127.0.0.1'' | Inr as \<Rightarrow> first_ip as)"

subsection \<open>The configuration source that the Windows server prints\<close>

text \<open>\<open>stat\<close> says whether \<open>os.Stat\<close> succeeds; \<open>appData\<close> is the environment variable.\<close>

definition windows_getConfigSource :: "(string \<Rightarrow> bool) \<Rightarrow> string \<Rightarrow> string \<Rightarrow> string" where
  "windows_getConfigSource stat appData path =
     (let defaultPath = appData @ [char_of (92 :: nat)] @ ''shareserial'' @ [char_of (92 :: nat)] @ ''server.yaml'' in
      if path \<noteq> '''' then path
      else if appData \<noteq> '''' \<and> stat defaultPath then defaultPath
      else if stat ''./configs/server-windows.yaml'' then ''./configs/server-windows.yaml''
      else if stat ''./configs/server.yaml'' then ''./configs/server.yaml''
      else ''defaults'')"

text \<open>What \<open>scanPorts\<close> prints on standard output.\<close>

definition scanPorts :: "go_error + string list \<Rightarrow> string list" where
  "scanPorts scan =
     (case scan of
        Inl err \<Rightarrow> []
      | Inr ports \<Rightarrow>
          if ports = []
          then ['''', ''Tips:'', ''  - Check if device is connected'',
                ''  - Install proper drivers (e.g., FTDI, CH340)'',
                ''  - Run as Administrator for permission issues'']
          else ['''', ''Available COM ports:''] @
               map (\<lambda>(i, port). ''  ['' @ itoa (int i + 1) @ ''] '' @ port) (List.enumerate 0 ports))"

subsection \<open>The connection monitor\<close>

record conn_monitor =
  cmo_running :: bool
  cmo_stopChan :: "unit chan"

definition NewConnectionMonitor :: conn_monitor where
  "NewConnectionMonitor = \<lparr>cmo_running = False, cmo_stopChan = make_chan 0\<rparr>"

definition ConnectionMonitor_Start :: "conn_monitor \<Rightarrow> conn_monitor" where
  "ConnectionMonitor_Start m = m\<lparr>cmo_running := True\<rparr>"

text \<open>
  One turn of \<open>monitorLoop\<close> at a tick: \<open>None\<close> when the goroutine ends, else the line it logs, if
  any. When the stop channel is closed and the ticker has fired, \<open>select\<close> may take either branch;
  \<open>tick\<close> is that choice.
\<close>

definition monitorLoop_iter :: "bool \<Rightarrow> 'd tcp_server \<Rightarrow> conn_monitor \<Rightarrow> string option option" where
  "monitorLoop_iter tick srv m =
     (if ch_closed (cmo_stopChan m) \<and> \<not> tick then None
      else if \<not> cmo_running m then None
      else if 0 < TCPServer_ClientCount srv
      then Some (Some (''Status: '' @ itoa (int (TCPServer_ClientCount srv)) @ '' clients connected, write lock: '' @
                       (if HasWriteLock srv then ''true'' else ''false'')))
      else Some None)"

definition ConnectionMonitor_Stop :: "conn_monitor \<Rightarrow> go_panic + conn_monitor" where
  "ConnectionMonitor_Stop m =
     (case chan_close (cmo_stopChan m) of
        Inl p \<Rightarrow> Inl p
      | Inr c \<Rightarrow> Inr (m\<lparr>cmo_running := False, cmo_stopChan := c\<rparr>))"

subsection \<open>The running program\<close>

text \<open>
  The reader: at its \<open>select\<close>, in the port's \<open>Read\<close>, with a chunk to broadcast, returned or
  crashed. The main goroutine: waiting for the signal, after closing \<open>stopChan\<close>, done.
\<close>

datatype reader_state = RdSelect | RdRead | RdSend bytes | RdReturned | RdPanic go_panic

datatype main_state = MRunning | MStopping | MDone

record 'd main_sys =
  ms_srv :: "'d srv_sys"
  ms_reader :: reader_state
  ms_stop :: "unit chan"
  ms_main :: main_state
  g_read :: "bytes list"

datatype 'd main_event =
    MSrv srv_event | MDevice 'd | MSelect | MRead | MBroadcast | MSignal | MStopServer

fun own_call :: "srv_event \<Rightarrow> bool" where
  "own_call (CallBroadcast d) = True"
| "own_call CallStop = True"
| "own_call e = False"

definition set_port :: "'d any_port \<Rightarrow> 'd main_sys \<Rightarrow> 'd main_sys" where
  "set_port p s = s\<lparr>ms_srv := (ms_srv s)\<lparr>sv := (sv (ms_srv s))\<lparr>ts_serial := Some p\<rparr>\<rparr>\<rparr>"

definition after_read :: "go_error + bytes \<Rightarrow> reader_state" where
  "after_read res = (case res of Inl err \<Rightarrow> RdSelect | Inr data \<Rightarrow> if 0 < length data then RdSend data else RdSelect)"

inductive main_step :: "'d driver \<Rightarrow> 'd main_sys \<Rightarrow> 'd main_event \<Rightarrow> 'd main_sys \<Rightarrow> bool" for drv where
  srv_acts: "srv_step drv (ms_srv s) e u \<Longrightarrow> \<not> own_call e \<Longrightarrow> main_step drv s (MSrv e) (s\<lparr>ms_srv := u\<rparr>)"
| device: "ts_serial (sv (ms_srv s)) = Some (RealPort r) \<Longrightarrow> rs_port r = Some d \<Longrightarrow>
    main_step drv s (MDevice d') (set_port (RealPort (r\<lparr>rs_port := Some d'\<rparr>)) s)"
| select: "ms_reader s = RdSelect \<Longrightarrow>
    main_step drv s MSelect (s\<lparr>ms_reader := (if ch_closed (ms_stop s) then RdReturned else RdRead)\<rparr>)"
| read: "ms_reader s = RdRead \<Longrightarrow> ts_serial (sv (ms_srv s)) = Some p \<Longrightarrow> Port_Read drv 4096 p = (p', res) \<Longrightarrow>
    main_step drv s MRead
      ((set_port p' s)\<lparr>ms_reader := after_read res,
        g_read := g_read s @ (case after_read res of RdSend d \<Rightarrow> [d] | _ \<Rightarrow> [])\<rparr>)"
| broadcast: "ms_reader s = RdSend d \<Longrightarrow> srv_step drv (ms_srv s) (CallBroadcast d) u \<Longrightarrow>
    main_step drv s MBroadcast (s\<lparr>ms_srv := u, ms_reader := RdSelect\<rparr>)"
| broadcast_panics: "ms_reader s = RdSend d \<Longrightarrow> TCPServer_Broadcast d (sv (ms_srv s)) = Inl p \<Longrightarrow>
    main_step drv s MBroadcast (s\<lparr>ms_reader := RdPanic p\<rparr>)"
| signal: "ms_main s = MRunning \<Longrightarrow> chan_close (ms_stop s) = Inr c \<Longrightarrow>
    main_step drv s MSignal (s\<lparr>ms_main := MStopping, ms_stop := c\<rparr>)"
| stop_server: "ms_main s = MStopping \<Longrightarrow> srv_step drv (ms_srv s) CallStop u \<Longrightarrow>
    main_step drv s MStopServer (s\<lparr>ms_srv := u, ms_main := MDone\<rparr>)"

inductive main_steps :: "'d driver \<Rightarrow> 'd main_sys \<Rightarrow> 'd main_event list \<Rightarrow> 'd main_sys \<Rightarrow> bool" for drv where
  main_nil: "main_steps drv s [] s"
| main_cons: "main_step drv s e t \<Longrightarrow> main_steps drv t es u \<Longrightarrow> main_steps drv s (e # es) u"

definition main_init :: "string \<Rightarrow> 'd any_port \<Rightarrow> 'd main_sys" where
  "main_init addr port =
     \<lparr>ms_srv = srv_init addr port, ms_reader = RdSelect, ms_stop = make_chan 0, ms_main = MRunning, g_read = []\<rparr>"

inductive_simps main_steps_Nil: "main_steps drv s [] u"
inductive_simps main_steps_Cons: "main_steps drv s (e # es) u"

interpretation main_runs: runs "main_step drv" "main_steps drv" for drv :: "'d driver"
  by unfold_locales (auto simp: main_steps_Nil main_steps_Cons)

lemmas main_steps_append = main_runs.steps_append
lemmas main_steps_inv = main_runs.steps_keep

subsection \<open>From the serial port to the clients\<close>

text \<open>Every chunk read is taken by the broadcast loop, in the channel, in the reader's hands, or was
  lost in its panic.\<close>

definition reader_holds :: "reader_state \<Rightarrow> bytes list \<Rightarrow> bool" where
  "reader_holds r ds \<longleftrightarrow>
     (case r of RdSend d \<Rightarrow> ds = [d] | RdPanic p \<Rightarrow> length ds = 1 | _ \<Rightarrow> ds = [])"

definition accounted :: "'d main_sys \<Rightarrow> bool" where
  "accounted s \<longleftrightarrow> bcast_inv (ms_srv s) \<and>
     (\<exists>ds. reader_holds (ms_reader s) ds \<and>
        g_read s = g_bcast (ms_srv s) @ ch_buf (ts_broadcast (sv (ms_srv s))) @ ds)"

lemma bcast_inv_port: "bcast_inv (ms_srv (set_port p s)) = bcast_inv (ms_srv s)"
  by (simp add: set_port_def bcast_inv_def)

lemma set_port_sel [simp]:
  "g_bcast (ms_srv (set_port p s)) = g_bcast (ms_srv s)" "ms_reader (set_port p s) = ms_reader s"
  "ts_broadcast (sv (ms_srv (set_port p s))) = ts_broadcast (sv (ms_srv s))" "g_read (set_port p s) = g_read s"
  "ts_serial (sv (ms_srv (set_port p s))) = Some p"
  by (simp_all add: set_port_def)

lemma own_call_broadcasts: "\<not> own_call e \<Longrightarrow> broadcasts [e] = []"
  by (cases e) simp_all

lemma accounted_step:
  assumes "main_step drv s e t" and "accounted s"
  shows "accounted t"
  using assms
proof (induction rule: main_step.induct)
  case (srv_acts s e u)
  then show ?case
    using queue_step [OF srv_acts.hyps(1)] bcast_inv_step [OF srv_acts.hyps(1)]
    by (auto simp: accounted_def own_call_broadcasts)
next
  case (device s r d d')
  then show ?case by (auto simp: accounted_def bcast_inv_port)
next
  case (select s)
  then show ?case by (simp add: accounted_def reader_holds_def)
next
  case (read s p p' res)
  then show ?case
    by (auto simp: accounted_def reader_holds_def bcast_inv_port after_read_def split: sum.splits)
next
  case (broadcast s d u)
  then show ?case
    using queue_step [OF broadcast.hyps(2)] bcast_inv_step [OF broadcast.hyps(2)]
    by (auto simp: accounted_def reader_holds_def)
next
  case (broadcast_panics s d p)
  then show ?case by (auto simp: accounted_def reader_holds_def)
next
  case (signal s c)
  then show ?case by (simp add: accounted_def)
next
  case (stop_server s u)
  then obtain ds where ds: "reader_holds (ms_reader s) ds"
      "g_read s = (g_bcast (ms_srv s) @ ch_buf (ts_broadcast (sv (ms_srv s)))) @ ds"
    by (auto simp: accounted_def)
  then have "g_read s = (g_bcast u @ ch_buf (ts_broadcast (sv u))) @ ds"
    unfolding queue_step [OF stop_server.hyps(2)] by simp
  with ds(1) bcast_inv_step [OF stop_server.hyps(2)] stop_server.prems show ?case
    by (auto simp: accounted_def)
qed

lemma accounted_init: "accounted (main_init addr port)"
  by (simp add: accounted_def main_init_def reader_holds_def srv_init_def TCPServer_Start_def SetSerial_def
      NewTCPServer_def bcast_inv_def)

lemma clients_get_what_was_read:
  assumes "main_steps drv (main_init addr port) es s"
  shows "subseq (cn_out (cn (ms_srv s) h)) (g_read s) \<and>
    (\<exists>ds. length ds \<le> 1 \<and> g_read s = g_bcast (ms_srv s) @ ch_buf (ts_broadcast (sv (ms_srv s))) @ ds)"
proof -
  have a: "accounted s"
    using assms accounted_init by (rule main_steps_inv) (rule accounted_step)
  then have "subseq (cn_out (cn (ms_srv s) h)) (g_bcast (ms_srv s))"
    by (auto simp: accounted_def bcast_inv_def intro: subseq_left)
  moreover from a obtain ds where ds: "reader_holds (ms_reader s) ds"
      "g_read s = g_bcast (ms_srv s) @ ch_buf (ts_broadcast (sv (ms_srv s))) @ ds"
    by (auto simp: accounted_def)
  moreover from ds(1) have "length ds \<le> 1" by (auto simp: reader_holds_def split: reader_state.splits)
  ultimately show ?thesis by (auto intro: list_emb_prefix)
qed

text \<open>End to end, every client receives chunks that were read from the serial port, whole, in the
  order in which they were read, each at most once; and no chunk is lost between the port and
  the broadcast loop except the one whose send panics.\<close>

theorem serial_to_clients:
  assumes "main_steps drv (main_init addr port) es s"
  shows "subseq (cn_out (cn (ms_srv s) h)) (g_read s) \<and>
    (\<exists>ds. length ds \<le> 1 \<and> g_read s = g_bcast (ms_srv s) @ ch_buf (ts_broadcast (sv (ms_srv s))) @ ds)"
  by (rule clients_get_what_was_read [OF assms])

text \<open>The bytes read and those still in the mock port are the bytes it had.\<close>

lemma srv_keeps_input:
  assumes "srv_step drv s e t" and "ts_serial (sv s) = Some (MockPort m)"
  shows "\<exists>m'. ts_serial (sv t) = Some (MockPort m') \<and> ms_inputBuffer m' = ms_inputBuffer m"
  using assms
proof (induction rule: srv_step.induct)
  case (call_stop s v closed)
  then show ?case by (auto simp: TCPServer_Stop_def split: if_splits sum.splits)
next
  case (call_broadcast d s v)
  then show ?case by (auto simp: TCPServer_Broadcast_def split: option.splits sum.splits)
qed (auto simp: srv_simps Let_def MockSerialPort_Write_def split: prod.splits)

definition input_conserved :: "bytes \<Rightarrow> 'd main_sys \<Rightarrow> bool" where
  "input_conserved b s \<longleftrightarrow> (\<exists>m. ts_serial (sv (ms_srv s)) = Some (MockPort m) \<and> concat (g_read s) @ ms_inputBuffer m = b)"

lemma input_conserved_step:
  assumes "main_step drv s e t" and "input_conserved b s"
  shows "input_conserved b t"
  using assms
proof (induction rule: main_step.induct)
  case (read s p p' res)
  then show ?case
    by (auto simp: input_conserved_def MockSerialPort_Read_def after_read_def go_simps split: if_splits)
next
  case (srv_acts s e u)
  with srv_keeps_input [OF srv_acts.hyps(1)] show ?case by (fastforce simp: input_conserved_def)
next
  case (broadcast s d u)
  with srv_keeps_input [OF broadcast.hyps(2)] show ?case by (fastforce simp: input_conserved_def)
next
  case (stop_server s u)
  with srv_keeps_input [OF stop_server.hyps(2)] show ?case by (fastforce simp: input_conserved_def)
qed (auto simp: input_conserved_def)

text \<open>With the mock port, the chunks read are exactly the port's input in order: nothing is skipped or
  read twice, whatever the handlers write to the same port meanwhile.\<close>

theorem reader_conserves_input:
  assumes "main_steps drv (main_init addr (MockPort m)) es s"
  shows "\<exists>m'. ts_serial (sv (ms_srv s)) = Some (MockPort m') \<and>
    concat (g_read s) @ ms_inputBuffer m' = ms_inputBuffer m"
proof -
  have "input_conserved (ms_inputBuffer m) (main_init addr (MockPort m))"
    by (simp add: input_conserved_def main_init_def srv_init_def TCPServer_Start_def SetSerial_def)
  then have "input_conserved (ms_inputBuffer m) s"
    using assms input_conserved_step by (blast intro: main_steps_inv [of drv _ es s])
  then show ?thesis by (simp add: input_conserved_def)
qed

text \<open>One run: the reader takes a chunk, the program is stopped, and the broadcast panics.\<close>

lemma stopping_run:
  "\<exists>s. main_steps loopback (main_init '':9999'' (MockPort (NewMockSerialPort\<lparr>ms_inputBuffer := [5]\<rparr>)))
     [MSelect, MSignal, MRead, MStopServer, MBroadcast] s \<and> ms_reader s = RdPanic SendOnClosed \<and>
     g_read s = [[5]] \<and> ms_main s = MDone"
proof -
  let ?s0 = "main_init '':9999'' (MockPort (NewMockSerialPort\<lparr>ms_inputBuffer := [5]\<rparr>)) :: bytes main_sys"
  let ?s1 = "?s0\<lparr>ms_reader := RdRead\<rparr>"
  let ?s2 = "?s1\<lparr>ms_main := MStopping, ms_stop := (make_chan 0)\<lparr>ch_closed := True\<rparr>\<rparr>"
  let ?s3 = "(set_port (MockPort NewMockSerialPort) ?s2)\<lparr>ms_reader := RdSend [5], g_read := [[5]]\<rparr>"
  obtain v c where v: "TCPServer_Stop (sv (ms_srv ?s3)) = Inr (v, c)" "TCPServer_Broadcast [5] v = Inl SendOnClosed"
    by (simp add: main_init_def set_port_def srv_init_def TCPServer_Stop_def TCPServer_Start_def chan_close_def
        NewTCPServer_def SetSerial_def TCPServer_Broadcast_def chan_send_def make_chan_def)
  have "\<exists>u. srv_step loopback (ms_srv ?s3) CallStop u \<and> sv u = v"
    using srv_step.call_stop [OF v(1)] by fastforce
  then obtain u where u: "srv_step loopback (ms_srv ?s3) CallStop u" "sv u = v" by blast
  let ?s4 = "?s3\<lparr>ms_srv := u, ms_main := MDone\<rparr>"
  have "main_step loopback ?s0 MSelect ?s1"
    using main_step.select [of ?s0 loopback] by (simp add: main_init_def)
  moreover have "main_step loopback ?s1 MSignal ?s2"
    using main_step.signal [of ?s1 "(make_chan 0)\<lparr>ch_closed := True\<rparr>" loopback]
    by (simp add: main_init_def chan_close_def)
  moreover have "main_step loopback ?s2 MRead ?s3"
    using main_step.read [of ?s2 "MockPort (NewMockSerialPort\<lparr>ms_inputBuffer := [5]\<rparr>)" loopback
        "MockPort NewMockSerialPort" "Inr [5]"]
    by (simp add: main_init_def srv_init_def TCPServer_Start_def SetSerial_def MockSerialPort_Read_def
        NewMockSerialPort_def go_simps after_read_def set_port_def)
  moreover have "main_step loopback ?s3 MStopServer ?s4"
    using u(1) by (intro main_step.stop_server) (simp_all add: set_port_def)
  moreover have "main_step loopback ?s4 MBroadcast (?s4\<lparr>ms_reader := RdPanic SendOnClosed\<rparr>)"
    using u(2) v(2) by (intro main_step.broadcast_panics) simp_all
  ultimately show ?thesis
    unfolding main_steps_Cons main_steps_Nil
    by (intro exI [of _ "?s4\<lparr>ms_reader := RdPanic SendOnClosed\<rparr>"] conjI exI) (assumption | simp)+
qed

text \<open>C23: Stopping the program can crash it: the reader may hold a chunk when the channel is closed, and its
  send then panics.\<close>

theorem shutdown_can_panic:
  "\<exists>es s. main_steps loopback (main_init '':9999'' (MockPort (NewMockSerialPort\<lparr>ms_inputBuffer := [5]\<rparr>))) es s \<and>
     ms_main s = MDone \<and> ms_reader s = RdPanic SendOnClosed"
  using stopping_run by blast

theorem serial_to_clients_witness:
  "\<exists>es s. main_steps loopback (main_init '':9999'' (MockPort (NewMockSerialPort\<lparr>ms_inputBuffer := [5]\<rparr>))) es s \<and>
     subseq (cn_out (cn (ms_srv s) 0)) [[5]]"
  using stopping_run serial_to_clients [of loopback "'':9999''" _ _ _ 0] by metis

theorem reader_conserves_input_witness:
  "\<exists>es s m. main_steps loopback (main_init '':9999'' (MockPort (NewMockSerialPort\<lparr>ms_inputBuffer := [5]\<rparr>))) es s \<and>
     ts_serial (sv (ms_srv s)) = Some (MockPort m) \<and> [5] @ ms_inputBuffer m = [5]"
  using stopping_run reader_conserves_input [of loopback "'':9999''" "NewMockSerialPort\<lparr>ms_inputBuffer := [5]\<rparr>"] by fastforce

subsection \<open>Start-up and what it ignores\<close>

text \<open>The configured baud rate, parity, data and stop bits and the arbiter's timeout never reach the
  serial port or the lock: the server started for two configurations that differ only there is
  the same, with a lock timeout of 30 seconds.\<close>

theorem serial_settings_ignored:
  "(case start_server drv listen (cfg\<lparr>Serial_BaudRate := b, Serial_DataBits := d, Serial_StopBits := st,
        Serial_Parity := p, Arbiter_Timeout := n\<rparr>) of Running s _ \<Rightarrow> Some s | _ \<Rightarrow> None) =
   (case start_server drv listen cfg of Running s _ \<Rightarrow> Some s | _ \<Rightarrow> None) \<and>
   (case start_server drv listen cfg of Running s _ \<Rightarrow> arb_timeout (arb (ts_arbiter s)) = 30000000000 | _ \<Rightarrow> True)"
  by (cases "listen (ListenAddress cfg)")
    (simp_all add: start_server_def ListenAddress_def TCPServer_Start_def SetSerial_def NewTCPServer_def
      NewArbiter_def lock_timeout_def)

text \<open>The configuration source that the Windows server prints can be a file it does not read: with
  only the file in \<open>APPDATA\<close> present it names that file but runs on the defaults.\<close>

theorem windows_source_misreported:
  "let f = ''C:'' @ [char_of (92 :: nat)] @ ''shareserial'' @ [char_of (92 :: nat)] @ ''server.yaml'' in
   windows_getConfigSource (\<lambda>p. p = f) ''C:'' '''' = f \<and>
   LoadServer (\<lambda>p. if p = f then Inr content else Inl IoEOF) unmarshal '''' = Inr DefaultServerConfig"
  by (simp add: windows_getConfigSource_def LoadServer_def server_paths_def Let_def)

text \<open>The printed address is the first one that is IPv4 and not a loopback address, in dotted decimal,
  and 127.0.0.1 when there is none.\<close>

theorem getLocalIP_first:
  "getLocalIP addrs =
     (case addrs of
        Inl err \<Rightarrow> ''127.0.0.1''
      | Inr as \<Rightarrow>
          (case [v4. IPNet ip \<leftarrow> as, \<not> IsLoopback ip, Some v4 \<leftarrow> [To4 ip]] of
             [] \<Rightarrow> ''127.0.0.1''
           | v4 # _ \<Rightarrow> ip4_string v4))"
proof (cases addrs)
  case (Inr as)
  then show ?thesis by (induction as arbitrary: addrs rule: first_ip.induct) (auto simp: getLocalIP_def split: option.splits)
qed (simp add: getLocalIP_def)

end
