(* ===== verification/Local_Proxy.thy ===== *)
theory Local_Proxy
  imports Go_Strings "HOL-Library.Multiset"
begin

text \<open>
  The client-side proxy, \<open>internal/localproxy/proxy.go\<close>: its methods, and its goroutines (accepting,
  one per local connection, reading the remote connection, one per broadcast chunk and local
  connection) as a step relation. The mutex is explicit, because a handler keeps it while it
  writes to the remote connection: \<open>px_mu\<close> is the local connection whose handler is in that
  write. Local and remote connections are numbers; the ghost \<open>px_to\<close> records what was written
  to each remote connection, and \<open>px_stalled\<close> the remote connections whose peer does not read.
\<close>

subsection \<open>The struct and its methods\<close>

record local_proxy =
  lp_remoteConn :: "nat option"
  lp_localListener :: "bool option"
  lp_localAddr :: string
  lp_localPort :: int
  lp_running :: bool
  lp_stopChan :: "unit chan"
  lp_localConns :: "nat set"
  lp_remoteBuffer :: bytes

definition NewLocalProxy :: "int \<Rightarrow> local_proxy" where
  "NewLocalProxy localPort =
     \<lparr>lp_remoteConn = None, lp_localListener = None, lp_localAddr = ''127.0.0.1:'' @ itoa localPort,
      lp_localPort = localPort, lp_running = False, lp_stopChan = make_chan 0, lp_localConns = {},
      lp_remoteBuffer = []\<rparr>"

text \<open>\<open>listen\<close> is the result of \<open>net.Listen\<close>; the remote connection is set even when it fails.\<close>

definition LocalProxy_Start :: "go_error option \<Rightarrow> nat option \<Rightarrow> local_proxy \<Rightarrow> local_proxy \<times> go_error option" where
  "LocalProxy_Start listen remoteConn p =
     (let p1 = p\<lparr>lp_remoteConn := remoteConn\<rparr> in
      case listen of
        Some err \<Rightarrow> (p1, Some err)
      | None \<Rightarrow> (p1\<lparr>lp_localListener := Some True, lp_running := True\<rparr>, None))"

definition buffer_limit :: nat where
  "buffer_limit = 1024 * 1024"

text \<open>The block of \<open>remoteReadLoop\<close> under the mutex, without the goroutines it starts.\<close>

definition buffer_remote :: "bytes \<Rightarrow> local_proxy \<Rightarrow> local_proxy" where
  "buffer_remote data p =
     (if length (lp_remoteBuffer p) < buffer_limit
      then p\<lparr>lp_remoteBuffer := lp_remoteBuffer p @ data\<rparr> else p)"

text \<open>What \<open>sendBufferedData\<close> writes to a new connection, if anything.\<close>

definition sendBufferedData :: "bytes \<Rightarrow> bytes option" where
  "sendBufferedData buffer =
     (if 0 < length buffer
      then Some (drop (if 64 * 1024 < length buffer then length buffer - 64 * 1024 else 0) buffer)
      else None)"

text \<open>The updated proxy and the connection to close.\<close>

definition UpdateRemoteConnection :: "nat option \<Rightarrow> local_proxy \<Rightarrow> local_proxy \<times> nat option" where
  "UpdateRemoteConnection newConn p = (p\<lparr>lp_remoteConn := newConn\<rparr>, lp_remoteConn p)"

text \<open>The stopped proxy, the local connections and the remote connection it closes.\<close>

definition LocalProxy_Stop :: "local_proxy \<Rightarrow> go_panic + local_proxy \<times> nat set \<times> nat option" where
  "LocalProxy_Stop p =
     (if \<not> lp_running p then Inr (p, {}, None)
      else case chan_close (lp_stopChan p) of
             Inl e \<Rightarrow> Inl e
           | Inr c \<Rightarrow> Inr (p\<lparr>lp_running := False, lp_stopChan := c, lp_localConns := {},
                           lp_localListener := map_option (\<lambda>_. False) (lp_localListener p)\<rparr>,
                         lp_localConns p, lp_remoteConn p))"

definition LocalProxy_IsRunning :: "local_proxy \<Rightarrow> bool" where
  "LocalProxy_IsRunning p = lp_running p"

definition LocalProxy_LocalAddr :: "local_proxy \<Rightarrow> string" where
  "LocalProxy_LocalAddr p = lp_localAddr p"

definition LocalProxy_LocalPort :: "local_proxy \<Rightarrow> int" where
  "LocalProxy_LocalPort p = lp_localPort p"

definition ConnectionCount :: "local_proxy \<Rightarrow> nat" where
  "ConnectionCount p = card (lp_localConns p)"

definition BufferSize :: "local_proxy \<Rightarrow> nat" where
  "BufferSize p = length (lp_remoteBuffer p)"

definition ClearBuffer :: "local_proxy \<Rightarrow> local_proxy" where
  "ClearBuffer p = p\<lparr>lp_remoteBuffer := []\<rparr>"

subsection \<open>The goroutines\<close>

text \<open>
  The accept loop: at \<open>Accept\<close>, before registering, before loading the buffer, before writing
  the loaded data to the new connection, gone. A handler: not started, at \<open>Read\<close>, with a chunk
  before taking the mutex, in the write with the mutex, gone. The remote reader: at its
  \<open>select\<close>, in \<open>Read\<close> on a connection, with a chunk, gone.
\<close>

datatype accept_state = PxAccept | PxRegister nat | PxLoad nat | PxSend nat bytes | PxAcceptEnd
datatype local_state = LNone | LRead | LChunk bytes | LWriting nat bytes | LDone
datatype remote_state = RSelect | RRead nat | RChunk bytes | REnd

record px_sys =
  px :: local_proxy
  px_mu :: "nat option"
  px_acc :: accept_state
  px_hp :: "nat \<Rightarrow> local_state"
  px_rr :: remote_state
  px_out :: "nat \<Rightarrow> bytes list"
  px_pend :: "(nat \<times> bytes) multiset"
  px_to :: "(nat \<times> nat \<times> bytes) list"
  px_stalled :: "nat set"
  px_closed :: "nat set"

datatype px_event =
    LAccept nat | LRegister | LLoad | LSendBuffer | LAcceptStops
  | LReadOk nat bytes | LReadFails nat | LLock nat | LWrite nat
  | RTake | RReadOk bytes | RReadErr | RBroadcast | RStops
  | Deliver nat bytes
  | UUpdate "nat option" | UStop | UClear | RemoteStalls nat | RemoteReads nat

text \<open>A write to a local connection; on a closed one it fails and the error is ignored.\<close>

definition local_write :: "nat \<Rightarrow> bytes \<Rightarrow> px_sys \<Rightarrow> px_sys" where
  "local_write h d s = (if h \<in> px_closed s then s else s\<lparr>px_out := (px_out s)(h := px_out s h @ [d])\<rparr>)"

lemma local_write_sel [simp]:
  "px (local_write h d s) = px s" "px_mu (local_write h d s) = px_mu s" "px_acc (local_write h d s) = px_acc s"
  "px_hp (local_write h d s) = px_hp s" "px_rr (local_write h d s) = px_rr s" "px_pend (local_write h d s) = px_pend s"
  "px_to (local_write h d s) = px_to s" "px_stalled (local_write h d s) = px_stalled s"
  by (simp_all add: local_write_def)

text \<open>\<open>sendBufferedData\<close> up to its write; a handler's block with its chunk; the reader's two choices.\<close>

definition load_buffer :: "nat \<Rightarrow> px_sys \<Rightarrow> px_sys" where
  "load_buffer h s =
     (case sendBufferedData (lp_remoteBuffer (px s)) of
        None \<Rightarrow> s\<lparr>px_acc := PxAccept, px_hp := (px_hp s)(h := LRead)\<rparr>
      | Some d \<Rightarrow> s\<lparr>px_acc := PxSend h d\<rparr>)"

definition lock_remote :: "nat \<Rightarrow> bytes \<Rightarrow> px_sys \<Rightarrow> px_sys" where
  "lock_remote h d s =
     (case lp_remoteConn (px s) of
        None \<Rightarrow> s\<lparr>px_hp := (px_hp s)(h := LRead)\<rparr>
      | Some c \<Rightarrow> s\<lparr>px_hp := (px_hp s)(h := LWriting c d), px_mu := Some h\<rparr>)"

definition after_take :: "local_proxy \<Rightarrow> remote_state" where
  "after_take p = (case lp_remoteConn p of None \<Rightarrow> RSelect | Some c \<Rightarrow> RRead c)"

definition after_remote_read :: "bytes \<Rightarrow> remote_state" where
  "after_remote_read d = (if 0 < length d then RChunk d else RSelect)"

lemmas px_moves = load_buffer_def lock_remote_def after_take_def after_remote_read_def

text \<open>An event that needs the mutex has \<open>px_mu s = None\<close> as its guard.\<close>

inductive px_step :: "px_sys \<Rightarrow> px_event \<Rightarrow> px_sys \<Rightarrow> bool" where
  p_accept: "px_acc s = PxAccept \<Longrightarrow> \<not> ch_closed (lp_stopChan (px s)) \<Longrightarrow> lp_localListener (px s) = Some True \<Longrightarrow>
    px_hp s h = LNone \<Longrightarrow> px_out s h = [] \<Longrightarrow> px_step s (LAccept h) (s\<lparr>px_acc := PxRegister h\<rparr>)"
| p_register: "px_acc s = PxRegister h \<Longrightarrow> px_mu s = None \<Longrightarrow>
    px_step s LRegister (s\<lparr>px_acc := PxLoad h, px := (px s)\<lparr>lp_localConns := insert h (lp_localConns (px s))\<rparr>\<rparr>)"
| p_load: "px_acc s = PxLoad h \<Longrightarrow> px_mu s = None \<Longrightarrow>
    px_step s LLoad (load_buffer h s)"
| p_send: "px_acc s = PxSend h d \<Longrightarrow>
    px_step s LSendBuffer
      ((local_write h d s)\<lparr>px_acc := PxAccept, px_hp := (px_hp s)(h := LRead)\<rparr>)"
| p_accept_stops: "px_acc s = PxAccept \<Longrightarrow> ch_closed (lp_stopChan (px s)) \<or> lp_localListener (px s) = Some False \<Longrightarrow>
    px_step s LAcceptStops (s\<lparr>px_acc := PxAcceptEnd\<rparr>)"
| l_read: "px_hp s h = LRead \<Longrightarrow> h \<notin> px_closed s \<Longrightarrow> length d \<le> 1024 \<Longrightarrow>
    px_step s (LReadOk h d) (s\<lparr>px_hp := (px_hp s)(h := LChunk d)\<rparr>)"
| l_fails: "px_hp s h = LRead \<Longrightarrow> px_mu s = None \<Longrightarrow>
    px_step s (LReadFails h)
      (s\<lparr>px_hp := (px_hp s)(h := LDone), px_closed := insert h (px_closed s), px := (px s)\<lparr>lp_localConns := lp_localConns (px s) - {h}\<rparr>\<rparr>)"
| l_lock: "px_hp s h = LChunk d \<Longrightarrow> px_mu s = None \<Longrightarrow>
    px_step s (LLock h) (lock_remote h d s)"
| l_write: "px_hp s h = LWriting c d \<Longrightarrow> c \<notin> px_stalled s \<Longrightarrow>
    px_step s (LWrite h)
      (s\<lparr>px_hp := (px_hp s)(h := LRead), px_mu := None, px_to := px_to s @ [(c, h, d)]\<rparr>)"
| r_take: "px_rr s = RSelect \<Longrightarrow> \<not> ch_closed (lp_stopChan (px s)) \<Longrightarrow> px_mu s = None \<Longrightarrow>
    px_step s RTake (s\<lparr>px_rr := after_take (px s)\<rparr>)"
| r_read: "px_rr s = RRead c \<Longrightarrow> length d \<le> 4096 \<Longrightarrow>
    px_step s (RReadOk d) (s\<lparr>px_rr := after_remote_read d\<rparr>)"
| r_err: "px_rr s = RRead c \<Longrightarrow> px_step s RReadErr (s\<lparr>px_rr := RSelect\<rparr>)"
| r_broadcast: "px_rr s = RChunk d \<Longrightarrow> px_mu s = None \<Longrightarrow>
    px_step s RBroadcast
      (s\<lparr>px_rr := RSelect, px := buffer_remote d (px s),
         px_pend := px_pend s + image_mset (\<lambda>h. (h, d)) (mset_set (lp_localConns (px s)))\<rparr>)"
| r_stops: "px_rr s = RSelect \<Longrightarrow> ch_closed (lp_stopChan (px s)) \<Longrightarrow> px_step s RStops (s\<lparr>px_rr := REnd\<rparr>)"
| deliver: "(h, d) \<in># px_pend s \<Longrightarrow>
    px_step s (Deliver h d)
      ((local_write h d s)\<lparr>px_pend := px_pend s - {#(h, d)#}\<rparr>)"
| u_update: "px_mu s = None \<Longrightarrow>
    px_step s (UUpdate c) (s\<lparr>px := fst (UpdateRemoteConnection c (px s))\<rparr>)"
| u_stop: "px_mu s = None \<Longrightarrow> LocalProxy_Stop (px s) = Inr (p, closed, c) \<Longrightarrow>
    px_step s UStop (s\<lparr>px := p, px_closed := px_closed s \<union> closed\<rparr>)"
| u_clear: "px_mu s = None \<Longrightarrow> px_step s UClear (s\<lparr>px := ClearBuffer (px s)\<rparr>)"
| remote_stalls: "px_step s (RemoteStalls c) (s\<lparr>px_stalled := insert c (px_stalled s)\<rparr>)"
| remote_reads: "px_step s (RemoteReads c) (s\<lparr>px_stalled := px_stalled s - {c}\<rparr>)"

inductive px_steps :: "px_sys \<Rightarrow> px_event list \<Rightarrow> px_sys \<Rightarrow> bool" where
  px_nil: "px_steps s [] s"
| px_cons: "px_step s e t \<Longrightarrow> px_steps t es u \<Longrightarrow> px_steps s (e # es) u"

inductive_simps px_steps_Nil: "px_steps s [] u"
inductive_simps px_steps_Cons: "px_steps s (e # es) u"

interpretation px_runs: runs px_step px_steps
  by unfold_locales (auto simp: px_steps_Nil px_steps_Cons)

lemmas px_steps_append = px_runs.steps_append
lemmas px_steps_inv = px_runs.steps_keep

definition px_init :: "int \<Rightarrow> nat \<Rightarrow> px_sys" where
  "px_init port remote =
     \<lparr>px = fst (LocalProxy_Start None (Some remote) (NewLocalProxy port)), px_mu = None, px_acc = PxAccept,
      px_hp = (\<lambda>_. LNone), px_rr = RSelect, px_out = (\<lambda>_. []), px_pend = {#}, px_to = [], px_stalled = {}, px_closed = {}\<rparr>"

lemmas px_defs = UpdateRemoteConnection_def LocalProxy_Stop_def ClearBuffer_def buffer_remote_def
  LocalProxy_Start_def NewLocalProxy_def

subsection \<open>The mutex\<close>

definition writer_inv :: "px_sys \<Rightarrow> bool" where
  "writer_inv s \<longleftrightarrow> (\<forall>h c d. px_hp s h = LWriting c d \<longrightarrow> px_mu s = Some h)"

definition accept_inv :: "px_sys \<Rightarrow> bool" where
  "accept_inv s \<longleftrightarrow> (case px_acc s of PxRegister h \<Rightarrow> px_hp s h = LNone | PxLoad h \<Rightarrow> px_hp s h = LNone
     | PxSend h d \<Rightarrow> px_hp s h = LNone | _ \<Rightarrow> True)"

definition px_mu_inv :: "px_sys \<Rightarrow> bool" where
  "px_mu_inv s \<longleftrightarrow> writer_inv s \<and> accept_inv s"

lemma writer_invD: "px_mu_inv s \<Longrightarrow> px_hp s h = LWriting c d \<Longrightarrow> px_mu s = Some h"
  unfolding px_mu_inv_def writer_inv_def by blast

lemma writer_inv_I: "(\<And>h c d. px_hp s h = LWriting c d \<Longrightarrow> px_mu s = Some h) \<Longrightarrow> writer_inv s"
  unfolding writer_inv_def by blast

lemma accept_inv_step: "px_step s e t \<Longrightarrow> accept_inv s \<Longrightarrow> accept_inv t"
  by (induction rule: px_step.induct) (auto simp: accept_inv_def px_moves split: option.splits accept_state.splits)

lemma writer_inv_step:
  assumes "px_step s e t" and "px_mu_inv s"
  shows "writer_inv t"
  using assms
proof (induction rule: px_step.induct)
  case (l_write s h c d)
  show ?case
  proof (rule writer_inv_I)
    fix k c' d' assume "px_hp (s\<lparr>px_hp := (px_hp s)(h := LRead), px_mu := None, px_to := px_to s @ [(c, h, d)]\<rparr>) k = LWriting c' d'"
    then have "k \<noteq> h" "px_hp s k = LWriting c' d'" by (simp_all split: if_splits)
    with writer_invD [OF l_write(3,1)] writer_invD [OF l_write(3)] have False by fastforce
    then show "px_mu (s\<lparr>px_hp := (px_hp s)(h := LRead), px_mu := None, px_to := px_to s @ [(c, h, d)]\<rparr>) = Some k" ..
  qed
qed (auto simp: px_mu_inv_def writer_inv_def accept_inv_def px_moves split: option.splits)

lemma px_mu_inv_step: "px_step s e t \<Longrightarrow> px_mu_inv s \<Longrightarrow> px_mu_inv t"
  using writer_inv_step accept_inv_step unfolding px_mu_inv_def by blast

lemma px_mu_inv_reach: "px_steps (px_init port remote) es s \<Longrightarrow> px_mu_inv s"
  by (erule px_steps_inv) (simp add: px_mu_inv_def writer_inv_def accept_inv_def px_init_def, rule px_mu_inv_step)

text \<open>At most one local connection's data is being written to the remote connection at a time, and
  its handler is the one that has the mutex.\<close>

theorem one_remote_writer:
  assumes "px_steps (px_init port remote) es s"
    and "px_hp s h = LWriting c d" and "px_hp s k = LWriting c' d'"
  shows "h = k \<and> px_mu s = Some h"
  using writer_invD [OF px_mu_inv_reach [OF assms(1)] assms(2)] writer_invD [OF px_mu_inv_reach [OF assms(1)] assms(3)]
  by simp

subsection \<open>A server that does not read\<close>



subsection \<open>The buffer for new connections\<close>

definition chunk_ok :: "px_sys \<Rightarrow> bool" where
  "chunk_ok s \<longleftrightarrow> (\<forall>d. px_rr s = RChunk d \<longrightarrow> length d \<le> 4096) \<and> BufferSize (px s) < buffer_limit + 4096"

lemma chunk_ok_step: "px_step s e t \<Longrightarrow> chunk_ok s \<Longrightarrow> chunk_ok t"
  by (induction rule: px_step.induct)
    (auto simp: chunk_ok_def px_defs px_moves BufferSize_def buffer_limit_def split: option.splits if_splits sum.splits)

text \<open>C25: The buffer of remote data is bounded: it never has more than 4095 bytes over its limit of 1 MB.\<close>

theorem remote_buffer_bounded:
  assumes "px_steps (px_init port remote) es s"
  shows "BufferSize (px s) \<le> 1024 * 1024 + 4095"
proof -
  have "chunk_ok (px_init port remote)"
    by (simp add: chunk_ok_def px_init_def px_defs BufferSize_def buffer_limit_def)
  with assms have "chunk_ok s" by (rule px_steps_inv) (rule chunk_ok_step)
  then show ?thesis by (simp add: chunk_ok_def buffer_limit_def)
qed

text \<open>Once the limit is reached, the buffer is frozen: until somebody clears it, every new local
  connection is sent the same old 64 KB, not the most recent data.\<close>

theorem full_buffer_is_frozen:
  assumes "px_steps s es t" and "buffer_limit \<le> BufferSize (px s)" and "UClear \<notin> set es"
  shows "lp_remoteBuffer (px t) = lp_remoteBuffer (px s) \<and>
    sendBufferedData (lp_remoteBuffer (px t)) =
      Some (drop (BufferSize (px s) - 64 * 1024) (lp_remoteBuffer (px s)))"
proof -
  have "lp_remoteBuffer (px t) = lp_remoteBuffer (px s)"
  proof (rule px_runs.steps_keep_on [OF assms(1), where Q = "\<lambda>e. e \<noteq> UClear"])
    fix u e v
    assume "px_step u e v" "e \<noteq> UClear" "lp_remoteBuffer (px u) = lp_remoteBuffer (px s)"
    moreover from this assms(2) have "buffer_limit \<le> BufferSize (px u)" by (simp add: BufferSize_def)
    ultimately show "lp_remoteBuffer (px v) = lp_remoteBuffer (px s)"
      by (induction rule: px_step.induct)
        (auto simp: px_defs px_moves BufferSize_def split: option.splits if_splits sum.splits)
  qed (use assms(3) in auto)
  moreover have "64 * 1024 < length (lp_remoteBuffer (px s))"
    using assms(2) by (simp add: BufferSize_def buffer_limit_def)
  ultimately show ?thesis by (auto simp: sendBufferedData_def BufferSize_def)
qed

subsection \<open>Runs\<close>

text \<open>An executable successor for the events of the runs below.\<close>

fun px_exec :: "px_event \<Rightarrow> px_sys \<Rightarrow> px_sys option" where
  "px_exec (LAccept h) s =
     (if px_acc s = PxAccept \<and> \<not> ch_closed (lp_stopChan (px s)) \<and> lp_localListener (px s) = Some True \<and>
         px_hp s h = LNone \<and> px_out s h = [] then Some (s\<lparr>px_acc := PxRegister h\<rparr>) else None)"
| "px_exec LRegister s =
     (case (px_acc s, px_mu s) of
        (PxRegister h, None) \<Rightarrow>
          Some (s\<lparr>px_acc := PxLoad h, px := (px s)\<lparr>lp_localConns := insert h (lp_localConns (px s))\<rparr>\<rparr>)
      | _ \<Rightarrow> None)"
| "px_exec LLoad s =
     (case (px_acc s, px_mu s) of
        (PxLoad h, None) \<Rightarrow> Some (load_buffer h s)
      | _ \<Rightarrow> None)"
| "px_exec LSendBuffer s =
     (case px_acc s of
        PxSend h d \<Rightarrow> Some ((local_write h d s)\<lparr>px_acc := PxAccept, px_hp := (px_hp s)(h := LRead)\<rparr>)
      | _ \<Rightarrow> None)"
| "px_exec (LReadOk h d) s =
     (if px_hp s h = LRead \<and> h \<notin> px_closed s \<and> length d \<le> 1024
      then Some (s\<lparr>px_hp := (px_hp s)(h := LChunk d)\<rparr>) else None)"
| "px_exec (LLock h) s =
     (case (px_hp s h, px_mu s) of
        (LChunk d, None) \<Rightarrow> Some (lock_remote h d s)
      | _ \<Rightarrow> None)"
| "px_exec RTake s =
     (if px_rr s = RSelect \<and> \<not> ch_closed (lp_stopChan (px s)) \<and> px_mu s = None
      then Some (s\<lparr>px_rr := after_take (px s)\<rparr>) else None)"
| "px_exec (RReadOk d) s =
     (case px_rr s of
        RRead c \<Rightarrow> if length d \<le> 4096 then Some (s\<lparr>px_rr := after_remote_read d\<rparr>) else None
      | _ \<Rightarrow> None)"
| "px_exec RBroadcast s =
     (case (px_rr s, px_mu s) of
        (RChunk d, None) \<Rightarrow>
          Some (s\<lparr>px_rr := RSelect, px := buffer_remote d (px s),
                  px_pend := px_pend s + image_mset (\<lambda>h. (h, d)) (mset_set (lp_localConns (px s)))\<rparr>)
      | _ \<Rightarrow> None)"
| "px_exec (Deliver h d) s =
     (if (h, d) \<in># px_pend s
      then Some ((local_write h d s)\<lparr>px_pend := px_pend s - {#(h, d)#}\<rparr>) else None)"
| "px_exec (RemoteStalls c) s = Some (s\<lparr>px_stalled := insert c (px_stalled s)\<rparr>)"
| "px_exec e s = None"

lemma px_exec_step: "px_exec e s = Some t \<Longrightarrow> px_step s e t"
  by (induction e s rule: px_exec.induct)
    (auto intro: px_step.intros split: if_splits accept_state.splits local_state.splits remote_state.splits option.splits)

fun px_execs :: "px_event list \<Rightarrow> px_sys \<Rightarrow> px_sys option" where
  "px_execs [] s = Some s"
| "px_execs (e # es) s = (case px_exec e s of None \<Rightarrow> None | Some t \<Rightarrow> px_execs es t)"

interpretation px_execution: exec_runs px_step px_steps px_exec px_execs
  by unfold_locales (simp_all add: px_exec_step)

lemmas px_execs_steps = px_execution.run_steps

lemmas px_run_simps = px_init_def px_defs px_moves buffer_limit_def sendBufferedData_def local_write_def

text \<open>A new local connection can receive the same data twice: data that arrives between its
  registration and the sending of the buffer is in both. Data can also overtake: two chunks of
  the server reach a local connection in the other order.\<close>

theorem proxy_duplicates_and_reorders:
  "(\<exists>s. px_steps (px_init 8888 0)
      [LAccept 0, LRegister, RTake, RReadOk [1], RBroadcast, LLoad, LSendBuffer, Deliver 0 [1]] s \<and>
      px_out s 0 = [[1], [1]] \<and> px_pend s = {#}) \<and>
   (\<exists>s. px_steps (px_init 8888 0)
      [LAccept 0, LRegister, LLoad, RTake, RReadOk [1], RBroadcast, RTake, RReadOk [2], RBroadcast,
       Deliver 0 [2], Deliver 0 [1]] s \<and>
      px_out s 0 = [[2], [1]] \<and> px_pend s = {#})"
proof
  let ?es = "[LAccept 0, LRegister, RTake, RReadOk [1], RBroadcast, LLoad, LSendBuffer, Deliver 0 [1]]"
  have "\<exists>s. px_execs ?es (px_init 8888 0) = Some s \<and> px_out s 0 = [[1], [1]] \<and> px_pend s = {#}"
    by (simp add: px_run_simps)
  then show "\<exists>s. px_steps (px_init 8888 0) ?es s \<and> px_out s 0 = [[1], [1]] \<and> px_pend s = {#}"
    by (blast dest: px_execs_steps)
next
  let ?es = "[LAccept 0, LRegister, LLoad, RTake, RReadOk [1], RBroadcast, RTake, RReadOk [2], RBroadcast,
       Deliver 0 [2], Deliver 0 [1]]"
  have "\<exists>s. px_execs ?es (px_init 8888 0) = Some s \<and> px_out s 0 = [[2], [1]] \<and> px_pend s = {#}"
    by (simp add: px_run_simps)
  then show "\<exists>s. px_steps (px_init 8888 0) ?es s \<and> px_out s 0 = [[2], [1]] \<and> px_pend s = {#}"
    by (blast dest: px_execs_steps)
qed

lemma writing_run:
  "\<exists>s. px_steps (px_init 8888 7) [LAccept 0, LRegister, LLoad, LReadOk 0 [1], LLock 0, RemoteStalls 7] s \<and>
     px_hp s 0 = LWriting 7 [1] \<and> 7 \<in> px_stalled s"
proof -
  let ?es = "[LAccept 0, LRegister, LLoad, LReadOk 0 [1], LLock 0, RemoteStalls 7]"
  have "\<exists>s. px_execs ?es (px_init 8888 7) = Some s \<and> px_hp s 0 = LWriting 7 [1] \<and> 7 \<in> px_stalled s"
    by (simp add: px_run_simps)
  then show ?thesis by (blast dest: px_execs_steps)
qed

theorem one_remote_writer_witness:
  "\<exists>es s. px_steps (px_init 8888 7) es s \<and> px_hp s 0 = LWriting 7 [1] \<and> px_mu s = Some 0"
  using writing_run one_remote_writer by blast


theorem remote_buffer_bounded_witness:
  "\<exists>s. px_steps (px_init 8888 7) [RTake, RReadOk [1, 2], RBroadcast] s \<and> BufferSize (px s) = 2 \<and>
     BufferSize (px s) \<le> 1024 * 1024 + 4095"
proof -
  have "\<exists>s. px_execs [RTake, RReadOk [1, 2], RBroadcast] (px_init 8888 7) = Some s \<and> BufferSize (px s) = 2"
    by (simp add: px_run_simps BufferSize_def)
  then obtain s where "px_steps (px_init 8888 7) [RTake, RReadOk [1, 2], RBroadcast] s" "BufferSize (px s) = 2"
    by (blast dest: px_execs_steps)
  then show ?thesis using remote_buffer_bounded by blast
qed

theorem full_buffer_is_frozen_witness:
  "\<exists>s t. px_steps s [RTake, RReadOk [1], RBroadcast] t \<and> BufferSize (px s) = buffer_limit \<and>
     lp_remoteBuffer (px t) = lp_remoteBuffer (px s)"
proof -
  let ?s = "(px_init 8888 7)\<lparr>px := (px (px_init 8888 7))\<lparr>lp_remoteBuffer := replicate buffer_limit 0\<rparr>\<rparr>"
  have b: "BufferSize (px ?s) = buffer_limit" by (simp add: BufferSize_def)
  have "\<exists>t. px_execs [RTake, RReadOk [1], RBroadcast] ?s = Some t"
    by (simp add: px_init_def px_defs px_moves)
  then obtain t where t: "px_steps ?s [RTake, RReadOk [1], RBroadcast] t" by (blast dest: px_execs_steps)
  from full_buffer_is_frozen [OF t] b t show ?thesis by (intro exI [of _ ?s] exI [of _ t]) simp
qed

text \<open>\<open>Stop\<close> closes what it should and is idempotent, but a stopped proxy cannot be used again: its
  stop channel stays closed, so \<open>Stop\<close> after another \<open>Start\<close> panics.\<close>

theorem proxy_stop_spec:
  assumes "lp_running p" and "\<not> ch_closed (lp_stopChan p)"
  shows "\<exists>q. LocalProxy_Stop p = Inr (q, lp_localConns p, lp_remoteConn p) \<and> \<not> LocalProxy_IsRunning q \<and>
    ConnectionCount q = 0 \<and> lp_localListener q \<noteq> Some True \<and> LocalProxy_Stop q = Inr (q, {}, None) \<and>
    LocalProxy_Stop (fst (LocalProxy_Start None r q)) = Inl CloseOfClosed"
  using assms
  by (auto simp: px_defs LocalProxy_IsRunning_def ConnectionCount_def chan_close_def)

theorem proxy_stop_spec_witness:
  "\<exists>q. LocalProxy_Stop (fst (LocalProxy_Start None (Some 3) (NewLocalProxy 8888))) = Inr (q, {}, Some 3) \<and>
     LocalProxy_Stop q = Inr (q, {}, None)"
  using proxy_stop_spec [of "fst (LocalProxy_Start None (Some 3) (NewLocalProxy 8888))" None]
  by (auto simp: LocalProxy_Start_def NewLocalProxy_def)

end
