(* ===== verification/Pty_Device.thy ===== *)
theory Pty_Device
  imports Buffers Go_Strings "HOL-Library.Multiset"
begin

unbundle bit_operations_syntax

text \<open>
  Pseudo terminals, \<open>internal/pty\<close>: the mock device, whose two directions are byte streams, and the
  real devices of Linux and macOS over the operating system, a record of system calls on a
  state \<open>'o\<close> with open files \<open>'f\<close>. The constants of \<open>golang.org/x/sys/unix\<close> are a parameter too.
  The last part models the mutex that the macOS device holds during \<open>Read\<close>, against the Linux one.
\<close>

subsection \<open>The mock device\<close>

record termios_config =
  tc_BaudRate :: int
  tc_DataBits :: int
  tc_StopBits :: int
  tc_Parity :: int

definition default_termios :: termios_config where
  "default_termios = \<lparr>tc_BaudRate = 115200, tc_DataBits = 8, tc_StopBits = 1, tc_Parity = 0\<rparr>"

record mock_pty =
  mp_symlinkPath :: string
  mp_masterBuffer :: bytes
  mp_slaveBuffer :: bytes
  mp_externalData :: bytes
  mp_open :: bool
  mp_termios :: termios_config

definition ErrClosed :: go_error where
  "ErrClosed = ErrorString ''PTY is closed''"

definition CreateMockPTY :: "string \<Rightarrow> mock_pty" where
  "CreateMockPTY symlinkPath =
     \<lparr>mp_symlinkPath = symlinkPath, mp_masterBuffer = [], mp_slaveBuffer = [], mp_externalData = [],
      mp_open = True, mp_termios = default_termios\<rparr>"

definition MockPTY_SymlinkPath :: "mock_pty \<Rightarrow> string" where
  "MockPTY_SymlinkPath m = mp_symlinkPath m"

text \<open>\<open>None\<close>: the device is open and has no data, so the call waits.\<close>

definition MockPTY_Read :: "nat \<Rightarrow> mock_pty \<Rightarrow> (mock_pty \<times> (go_error + bytes)) option" where
  "MockPTY_Read n m =
     (if \<not> mp_open m then Some (m, Inl ErrClosed)
      else if mp_externalData m = [] then None
      else let (d, rest) = go_copy n (mp_externalData m) in Some (m\<lparr>mp_externalData := rest\<rparr>, Inr d))"

definition MockPTY_ReadFromSlave :: "nat \<Rightarrow> mock_pty \<Rightarrow> mock_pty \<times> (go_error + bytes)" where
  "MockPTY_ReadFromSlave n m =
     (if \<not> mp_open m then (m, Inl ErrClosed)
      else if mp_slaveBuffer m = [] then (m, Inl (ErrorString ''no data available''))
      else let (d, rest) = go_copy n (mp_slaveBuffer m) in (m\<lparr>mp_slaveBuffer := rest\<rparr>, Inr d))"

definition MockPTY_Write :: "bytes \<Rightarrow> mock_pty \<Rightarrow> mock_pty \<times> (go_error + nat)" where
  "MockPTY_Write buf m =
     (if \<not> mp_open m then (m, Inl ErrClosed)
      else (m\<lparr>mp_slaveBuffer := mp_slaveBuffer m @ buf, mp_masterBuffer := mp_masterBuffer m @ buf\<rparr>, Inr (length buf)))"

definition MockPTY_InjectExternalData :: "bytes \<Rightarrow> mock_pty \<Rightarrow> mock_pty" where
  "MockPTY_InjectExternalData data m = m\<lparr>mp_externalData := mp_externalData m @ data\<rparr>"

definition MockPTY_GetSlaveData :: "mock_pty \<Rightarrow> bytes" where
  "MockPTY_GetSlaveData m = mp_slaveBuffer m"

definition MockPTY_Close :: "mock_pty \<Rightarrow> mock_pty" where
  "MockPTY_Close m = m\<lparr>mp_open := False\<rparr>"

definition MockPTY_IsOpen :: "mock_pty \<Rightarrow> bool" where
  "MockPTY_IsOpen m = mp_open m"

definition MockPTY_SetTermios :: "termios_config \<Rightarrow> mock_pty \<Rightarrow> mock_pty" where
  "MockPTY_SetTermios config m = m\<lparr>mp_termios := config\<rparr>"

definition MockPTY_GetTermios :: "mock_pty \<Rightarrow> termios_config" where
  "MockPTY_GetTermios m = mp_termios m"

lemmas mock_pty_defs = CreateMockPTY_def MockPTY_Read_def MockPTY_ReadFromSlave_def MockPTY_Write_def
  MockPTY_InjectExternalData_def MockPTY_Close_def MockPTY_IsOpen_def MockPTY_GetSlaveData_def

text \<open>From the user to the program and back.\<close>

definition read_user :: "nat \<Rightarrow> mock_pty \<Rightarrow> mock_pty \<times> bytes" where
  "read_user n m = (case MockPTY_Read n m of None \<Rightarrow> (m, []) | Some (m', r) \<Rightarrow> (m', payload r))"

interpretation pty_in: byte_stream mp_externalData MockPTY_InjectExternalData read_user mp_open
  by unfold_locales (auto simp: mock_pty_defs read_user_def go_simps)

interpretation pty_out: byte_stream mp_slaveBuffer "\<lambda>d m. fst (MockPTY_Write d m)"
  "\<lambda>n m. (fst (MockPTY_ReadFromSlave n m), payload (snd (MockPTY_ReadFromSlave n m)))" mp_open
  by unfold_locales (auto simp: mock_pty_defs go_simps)

subsection \<open>The operating system\<close>

record ('o, 'f) pty_os =
  po_open :: "string \<Rightarrow> 'o \<Rightarrow> 'o \<times> (go_error + 'f)"
  po_close :: "'f \<Rightarrow> 'o \<Rightarrow> 'o"
  po_unlockpt :: "'f \<Rightarrow> 'o \<Rightarrow> 'o \<times> int"                    \<comment> \<open>the error number\<close>
  po_ptsnumber :: "'f \<Rightarrow> 'o \<Rightarrow> 'o \<times> (int + int)"           \<comment> \<open>the error number or the slave's\<close>
  po_setraw :: "'f \<Rightarrow> 'o \<Rightarrow> 'o"
  po_remove :: "string \<Rightarrow> 'o \<Rightarrow> 'o"
  po_symlink :: "string \<Rightarrow> string \<Rightarrow> 'o \<Rightarrow> 'o \<times> go_error option"
  po_read :: "nat \<Rightarrow> 'f \<Rightarrow> 'o \<Rightarrow> 'o \<times> (go_error + bytes)"
  po_write :: "bytes \<Rightarrow> 'f \<Rightarrow> 'o \<Rightarrow> 'o \<times> (go_error + nat)"

record 'f real_pty =
  rp_master :: "'f option"
  rp_slave :: "'f option"
  rp_slavePath :: string
  rp_symlinkPath :: string
  rp_open :: bool
  rp_termios :: termios_config

definition ErrPTYNotOpen :: go_error where
  "ErrPTYNotOpen = ErrorString ''PTY not open''"

text \<open>The last part of both \<open>CreateRealPTY\<close>: the link, and the device record.\<close>

definition finish_pty ::
    "('o, 'f) pty_os \<Rightarrow> string \<Rightarrow> string \<Rightarrow> 'f \<Rightarrow> 'f \<Rightarrow> 'o \<Rightarrow> 'o \<times> (go_error + 'f real_pty)" where
  "finish_pty os symlinkPath slavePath masterFile slaveFile w =
     (let dev = \<lparr>rp_master = Some masterFile, rp_slave = Some slaveFile, rp_slavePath = slavePath,
                 rp_symlinkPath = symlinkPath, rp_open = True, rp_termios = default_termios\<rparr> in
      if symlinkPath \<noteq> ''''
      then case po_symlink os slavePath symlinkPath (po_remove os symlinkPath w) of
             (w1, Some err) \<Rightarrow> (po_close os slaveFile (po_close os masterFile w1), Inl err)
           | (w1, None) \<Rightarrow> (w1, Inr dev)
      else (w, Inr dev))"

definition linux_CreateRealPTY ::
    "('o, 'f) pty_os \<Rightarrow> string \<Rightarrow> 'o \<Rightarrow> 'o \<times> (go_error + 'f real_pty)" where
  "linux_CreateRealPTY os symlinkPath w =
     (case po_open os ''/dev/ptmx'' w of
        (w1, Inl err) \<Rightarrow> (w1, Inl err)
      | (w1, Inr masterFile) \<Rightarrow>
          (case po_unlockpt os masterFile w1 of
             (w2, errno) \<Rightarrow>
               if errno \<noteq> 0 then (po_close os masterFile w2, Inl (SysError ''unlockpt failed''))
               else case po_ptsnumber os masterFile w2 of
                      (w3, Inl errno) \<Rightarrow> (po_close os masterFile w3, Inl (SysError ''get slave id failed''))
                    | (w3, Inr slaveId) \<Rightarrow>
                        let slavePath = ''/dev/pts/'' @ itoa slaveId in
                        (case po_open os slavePath w3 of
                           (w4, Inl err) \<Rightarrow> (po_close os masterFile w4, Inl (SysError ''open slave failed''))
                         | (w4, Inr slaveFile) \<Rightarrow>
                             finish_pty os symlinkPath slavePath masterFile slaveFile (po_setraw os slaveFile w4))))"

text \<open>macOS tries \<open>/dev/ttyp0\<close> and then \<open>/dev/ttyp0\<close> to \<open>/dev/ttyp9\<close>.\<close>

fun open_first :: "('o, 'f) pty_os \<Rightarrow> string list \<Rightarrow> 'o \<Rightarrow> 'o \<times> (string \<times> 'f) option" where
  "open_first os [] w = (w, None)"
| "open_first os (p # ps) w =
     (case po_open os p w of
        (w1, Inl err) \<Rightarrow> open_first os ps w1
      | (w1, Inr f) \<Rightarrow> (w1, Some (p, f)))"

definition ttyp :: "nat \<Rightarrow> string" where
  "ttyp i = ''/dev/ttyp'' @ itoa (int i)"

definition darwin_CreateRealPTY ::
    "('o, 'f) pty_os \<Rightarrow> string \<Rightarrow> 'o \<Rightarrow> 'o \<times> (go_error + 'f real_pty)" where
  "darwin_CreateRealPTY os symlinkPath w =
     (case po_open os ''/dev/ptmx'' w of
        (w1, Inl err) \<Rightarrow> (w1, Inl err)
      | (w1, Inr masterFile) \<Rightarrow>
          (case open_first os (ttyp 0 # map ttyp [0..<10]) w1 of
             (w2, None) \<Rightarrow> (po_close os masterFile w2, Inl (SysError ''cannot find available slave''))
           | (w2, Some (slavePath, slaveFile)) \<Rightarrow> finish_pty os symlinkPath slavePath masterFile slaveFile w2))"

definition RealPTYDevice_SymlinkPath :: "'f real_pty \<Rightarrow> string" where
  "RealPTYDevice_SymlinkPath r = rp_symlinkPath r"

definition RealPTYDevice_IsOpen :: "'f real_pty \<Rightarrow> bool" where
  "RealPTYDevice_IsOpen r = rp_open r"

definition RealPTYDevice_Read :: "('o, 'f) pty_os \<Rightarrow> nat \<Rightarrow> 'f real_pty \<Rightarrow> 'o \<Rightarrow> 'o \<times> (go_error + bytes)" where
  "RealPTYDevice_Read os n r w =
     (case rp_master r of
        None \<Rightarrow> (w, Inl ErrPTYNotOpen)
      | Some f \<Rightarrow> if \<not> rp_open r then (w, Inl ErrPTYNotOpen) else po_read os n f w)"

definition RealPTYDevice_Write :: "('o, 'f) pty_os \<Rightarrow> bytes \<Rightarrow> 'f real_pty \<Rightarrow> 'o \<Rightarrow> 'o \<times> (go_error + nat)" where
  "RealPTYDevice_Write os buf r w =
     (case rp_master r of
        None \<Rightarrow> (w, Inl ErrPTYNotOpen)
      | Some f \<Rightarrow> if \<not> rp_open r then (w, Inl ErrPTYNotOpen) else po_write os buf f w)"

definition RealPTYDevice_ReadFromSlave :: "('o, 'f) pty_os \<Rightarrow> nat \<Rightarrow> 'f real_pty \<Rightarrow> 'o \<Rightarrow> 'o \<times> (go_error + bytes)" where
  "RealPTYDevice_ReadFromSlave os n r w =
     (case rp_slave r of
        None \<Rightarrow> (w, Inl ErrPTYNotOpen)
      | Some f \<Rightarrow> if \<not> rp_open r then (w, Inl ErrPTYNotOpen) else po_read os n f w)"

definition RealPTYDevice_InjectExternalData :: "('o, 'f) pty_os \<Rightarrow> bytes \<Rightarrow> 'f real_pty \<Rightarrow> 'o \<Rightarrow> 'o" where
  "RealPTYDevice_InjectExternalData os data r w =
     (case rp_slave r of None \<Rightarrow> w | Some f \<Rightarrow> fst (po_write os data f w))"

definition RealPTYDevice_GetSlaveData :: "'f real_pty \<Rightarrow> bytes" where
  "RealPTYDevice_GetSlaveData r = []"

definition close_opt :: "('o, 'f) pty_os \<Rightarrow> 'f option \<Rightarrow> 'o \<Rightarrow> 'o" where
  "close_opt os f w = (case f of None \<Rightarrow> w | Some f \<Rightarrow> po_close os f w)"

definition close_files :: "('o, 'f) pty_os \<Rightarrow> 'f real_pty \<Rightarrow> 'o \<Rightarrow> 'o" where
  "close_files os r w =
     (let w2 = close_opt os (rp_slave r) (close_opt os (rp_master r) w) in
      if rp_symlinkPath r \<noteq> '''' then po_remove os (rp_symlinkPath r) w2 else w2)"

definition linux_RealPTYDevice_Close :: "('o, 'f) pty_os \<Rightarrow> 'f real_pty \<Rightarrow> 'o \<Rightarrow> 'f real_pty \<times> 'o" where
  "linux_RealPTYDevice_Close os r w =
     (if \<not> rp_open r then (r, w) else (r\<lparr>rp_open := False\<rparr>, close_files os r w))"

definition darwin_RealPTYDevice_Close :: "('o, 'f) pty_os \<Rightarrow> 'f real_pty \<Rightarrow> 'o \<Rightarrow> 'f real_pty \<times> 'o" where
  "darwin_RealPTYDevice_Close os r w = (r\<lparr>rp_open := False\<rparr>, close_files os r w)"

definition RealPTYDevice_SetTermios :: "termios_config \<Rightarrow> 'f real_pty \<Rightarrow> 'f real_pty" where
  "RealPTYDevice_SetTermios config r = r\<lparr>rp_termios := config\<rparr>"

definition RealPTYDevice_GetTermios :: "'f real_pty \<Rightarrow> termios_config" where
  "RealPTYDevice_GetTermios r = rp_termios r"

datatype 'f pty_device = RealPTY "'f real_pty" | MockPTY mock_pty

definition CreatePTY ::
    "(string \<Rightarrow> 'o \<Rightarrow> 'o \<times> (go_error + 'f real_pty)) \<Rightarrow> string \<Rightarrow> 'o \<Rightarrow> 'o \<times> (go_error + 'f pty_device)" where
  "CreatePTY createReal symlinkPath w =
     (case createReal symlinkPath w of
        (w1, Inl err) \<Rightarrow> (w1, Inr (MockPTY (CreateMockPTY symlinkPath)))
      | (w1, Inr r) \<Rightarrow> (w1, Inr (RealPTY r)))"

subsection \<open>Raw mode\<close>






subsection \<open>The mock device's contract\<close>

text \<open>Both directions of an open mock device are lossless byte streams: what is read is, in order, what
  was written on the other side, and nothing is lost or repeated.\<close>

theorem mock_pty_streams:
  assumes "mp_open m"
  shows "snd (pty_in.run ops m) @ mp_externalData (fst (pty_in.run ops m)) =
      mp_externalData m @ concat (map (\<lambda>x. case x of SPut d \<Rightarrow> d | SGet _ \<Rightarrow> []) ops) \<and>
    snd (pty_out.run ops m) @ mp_slaveBuffer (fst (pty_out.run ops m)) =
      mp_slaveBuffer m @ concat (map (\<lambda>x. case x of SPut d \<Rightarrow> d | SGet _ \<Rightarrow> []) ops)"
  using pty_in.stream_conservation [OF assms] pty_out.stream_conservation [OF assms] by blast

theorem mock_pty_streams_witness:
  "snd (pty_in.run [SPut [1, 2], SGet 1, SPut [3], SGet 5] (CreateMockPTY ''/tmp/v'')) = [1, 2, 3]"
  using mock_pty_streams [of "CreateMockPTY ''/tmp/v''" "[SPut [1, 2], SGet 1, SPut [3], SGet 5]"]
  by (simp add: mock_pty_defs read_user_def go_simps)

subsection \<open>Files of the real device\<close>

text \<open>What an operating system does with open files, \<open>files\<close> being those that are open.\<close>

definition tracks_files :: "('o, 'f) pty_os \<Rightarrow> ('o \<Rightarrow> 'f multiset) \<Rightarrow> bool" where
  "tracks_files os files \<longleftrightarrow>
     (\<forall>p w. case po_open os p w of (w', Inr f) \<Rightarrow> files w' = add_mset f (files w) | (w', Inl _) \<Rightarrow> files w' = files w) \<and>
     (\<forall>f w. files (po_close os f w) = files w - {#f#}) \<and>
     (\<forall>f w. files (fst (po_unlockpt os f w)) = files w \<and> files (fst (po_ptsnumber os f w)) = files w \<and>
        files (po_setraw os f w) = files w) \<and>
     (\<forall>p q w. files (po_remove os p w) = files w \<and> files (fst (po_symlink os p q w)) = files w)"

lemma tracks_open:
  "tracks_files os files \<Longrightarrow> po_open os p w = (w', Inr f) \<Longrightarrow> files w' = add_mset f (files w)"
  "tracks_files os files \<Longrightarrow> po_open os p w = (w', Inl e) \<Longrightarrow> files w' = files w"
  unfolding tracks_files_def by (metis (mono_tags, lifting) case_prod_conv sum.simps(6), metis (mono_tags, lifting) case_prod_conv sum.simps(5))

lemma tracks_rest:
  assumes "tracks_files os files"
  shows "files (po_close os f w) = files w - {#f#}" "po_unlockpt os f w = (w', n) \<Longrightarrow> files w' = files w"
    "po_ptsnumber os f w = (w', r) \<Longrightarrow> files w' = files w" "files (po_setraw os f w) = files w"
    "files (po_remove os p w) = files w" "po_symlink os p q w = (w', e) \<Longrightarrow> files w' = files w"
  using assms unfolding tracks_files_def by (metis fst_conv)+

definition device_files :: "go_error + 'f real_pty \<Rightarrow> 'f multiset" where
  "device_files res = (case res of Inl _ \<Rightarrow> {#} | Inr r \<Rightarrow>
     (case rp_master r of None \<Rightarrow> {#} | Some f \<Rightarrow> {#f#}) + (case rp_slave r of None \<Rightarrow> {#} | Some f \<Rightarrow> {#f#}))"

lemma finish_pty_files:
  assumes t: "tracks_files os files" and "finish_pty os l p m sl w = (w', res)" and "files w = F + {#m, sl#}"
  shows "files w' = F + device_files res \<and> (case res of Inr r \<Rightarrow> rp_open r | Inl _ \<Rightarrow> True)"
  using assms(2,3)
  by (auto simp: finish_pty_def device_files_def Let_def tracks_rest [OF t] split: if_splits prod.splits option.splits
      dest: tracks_rest(6) [OF t])

lemma open_first_files:
  assumes t: "tracks_files os files"
  shows "open_first os ps w = (w', r) \<Longrightarrow>
     files w' = (case r of None \<Rightarrow> files w | Some (p, f) \<Rightarrow> add_mset f (files w))"
proof (induction ps arbitrary: w)
  case (Cons p ps)
  show ?case
  proof (cases "po_open os p w")
    case (Pair w1 res)
    show ?thesis
    proof (cases res)
      case (Inl e)
      with Pair Cons tracks_open(2) [OF t, of p w w1 e] show ?thesis by (simp split: option.split)
    next
      case (Inr f)
      with Pair Cons.prems tracks_open(1) [OF t, of p w w1 f] show ?thesis by auto
    qed
  qed
qed simp

lemma linux_create_files:
  assumes t: "tracks_files os files" and "linux_CreateRealPTY os l w = (w1, res1)"
  shows "files w1 = files w + device_files res1"
proof -
  note T = tracks_open [OF t] tracks_rest [OF t]
  show ?thesis
  proof (cases "po_open os ''/dev/ptmx'' w")
    case (Pair v1 r1)
    show ?thesis
    proof (cases r1)
      case (Inl e)
      with Pair assms(2) T(2) [OF Pair [unfolded Inl]] show ?thesis by (auto simp: linux_CreateRealPTY_def device_files_def)
    next
      case (Inr m)
      obtain v2 n where u: "po_unlockpt os m v1 = (v2, n)" by fastforce
      obtain v3 r3 where q: "po_ptsnumber os m v2 = (v3, r3)" by fastforce
      have f1: "files v1 = add_mset m (files w)" "files v2 = files v1" "files v3 = files v2"
        using T(1) [OF Pair [unfolded Inr]] T(4) [OF u] T(5) [OF q] by simp_all
      show ?thesis
      proof (cases "n = 0 \<and> (\<exists>i. r3 = Inr i)")
        case False
        with Pair Inr u q f1 assms(2) show ?thesis
          by (cases r3) (auto simp: linux_CreateRealPTY_def device_files_def T split: if_splits)
      next
        case True
        then obtain i where i: "r3 = Inr i" "n = 0" by blast
        obtain v4 r4 where o4: "po_open os (''/dev/pts/'' @ itoa i) v3 = (v4, r4)" by fastforce
        show ?thesis
        proof (cases r4)
          case (Inl e)
          with Pair \<open>r1 = Inr m\<close> u q f1 i o4 assms(2) T(2) [OF o4 [unfolded Inl]] show ?thesis
            by (auto simp: linux_CreateRealPTY_def device_files_def T(3))
        next
          case (Inr sl)
          with Pair \<open>r1 = Inr m\<close> u q i o4 assms(2) have fin:
            "finish_pty os l (''/dev/pts/'' @ itoa i) m sl (po_setraw os sl v4) = (w1, res1)"
            by (simp add: linux_CreateRealPTY_def)
          have "files (po_setraw os sl v4) = files w + {#m, sl#}"
            using f1 T(1) [OF o4 [unfolded Inr]] by (simp add: T(6))
          from finish_pty_files [OF t fin this] show ?thesis by simp
        qed
      qed
    qed
  qed
qed

lemma darwin_create_files:
  assumes t: "tracks_files os files" and "darwin_CreateRealPTY os l w = (w2, res2)"
  shows "files w2 = files w + device_files res2"
proof -
  note T = tracks_open [OF t] tracks_rest [OF t]
  show ?thesis
  proof (cases "po_open os ''/dev/ptmx'' w")
    case (Pair v1 r1)
    show ?thesis
    proof (cases r1)
      case (Inl e)
      with Pair assms(2) T(2) [OF Pair [unfolded Inl]] show ?thesis by (auto simp: darwin_CreateRealPTY_def device_files_def)
    next
      case (Inr m)
      obtain v2 r2 where o2: "open_first os (ttyp 0 # map ttyp [0..<10]) v1 = (v2, r2)" by fastforce
      note f2 = open_first_files [OF t o2] T(1) [OF Pair [unfolded Inr]]
      show ?thesis
      proof (cases r2)
        case None
        with Pair Inr o2 f2 assms(2) show ?thesis
          by (auto simp: darwin_CreateRealPTY_def device_files_def T simp del: open_first.simps)
      next
        case (Some pf)
        obtain p sl where pf: "pf = (p, sl)" by fastforce
        with Pair Inr o2 Some assms(2) have fin: "finish_pty os l p m sl v2 = (w2, res2)"
          by (auto simp: darwin_CreateRealPTY_def simp del: open_first.simps)
        have "files v2 = files w + {#m, sl#}" using f2 Some pf by simp
        from finish_pty_files [OF t fin this] show ?thesis by simp
      qed
    qed
  qed
qed

text \<open>C26: Creating a device leaks no file: on every failure, of whichever system call, exactly the files
  that were open before are open, and a created device has added its two files. It holds of both
  platforms.\<close>

theorem create_pty_no_leak:
  assumes "tracks_files os files"
    and "linux_CreateRealPTY os l v = (w1, res1)" and "darwin_CreateRealPTY os l' w = (w2, res2)"
  shows "files w1 = files v + device_files res1 \<and> files w2 = files w + device_files res2"
  using linux_create_files [OF assms(1,2)] darwin_create_files [OF assms(1,3)] by blast

text \<open>An operating system that only counts open files, and refuses one link.\<close>

definition demo_os :: "(nat list, nat) pty_os" where
  "demo_os = \<lparr>po_open = (\<lambda>p w. (0 # w, Inr 0)), po_close = (\<lambda>f w. remove1 f w), po_unlockpt = (\<lambda>f w. (w, 0)),
     po_ptsnumber = (\<lambda>f w. (w, Inr 3)), po_setraw = (\<lambda>f w. w), po_remove = (\<lambda>p w. w),
     po_symlink = (\<lambda>p q w. (w, if q = ''/bad'' then Some (SysError ''symlink'') else None)),
     po_read = (\<lambda>n f w. (w, Inl IoEOF)), po_write = (\<lambda>b f w. (w, Inr (length b)))\<rparr>"

lemma demo_tracks: "tracks_files demo_os mset"
  by (simp add: tracks_files_def demo_os_def mset_remove1)

theorem create_pty_no_leak_witness:
  "\<exists>w1 w2 e r. linux_CreateRealPTY demo_os ''/bad'' [] = (w1, Inl e) \<and> mset w1 = {#} \<and>
     darwin_CreateRealPTY demo_os ''/ok'' [] = (w2, Inr r) \<and> mset w2 = {#0, 0#}"
proof -
  obtain w1 e where l: "linux_CreateRealPTY demo_os ''/bad'' [] = (w1, Inl e)"
    by (simp add: linux_CreateRealPTY_def finish_pty_def demo_os_def Let_def)
  obtain w2 r where d: "darwin_CreateRealPTY demo_os ''/ok'' [] = (w2, Inr r)" "device_files (Inr r) = {#0, 0#}"
    by (simp add: darwin_CreateRealPTY_def finish_pty_def demo_os_def Let_def device_files_def)
  from create_pty_no_leak [OF demo_tracks l d(1)] l d show ?thesis by (auto simp: device_files_def)
qed

text \<open>Creating a device never fails: when the real one cannot be created the caller gets a mock device,
  so its error branch is unreachable and the client runs without a terminal. Closing the Linux
  device twice is the same as closing it once, and a closed device refuses to read and write.\<close>

theorem pty_lifecycle:
  "is_ok (snd (CreatePTY create l w)) \<and>
   (snd (CreatePTY create l w) = Inr (MockPTY (CreateMockPTY l)) \<longleftrightarrow> \<not> is_ok (snd (create l w))) \<and>
   linux_RealPTYDevice_Close os (fst (linux_RealPTYDevice_Close os r v)) (snd (linux_RealPTYDevice_Close os r v)) =
     linux_RealPTYDevice_Close os r v \<and>
   RealPTYDevice_Read os n (fst (linux_RealPTYDevice_Close os r v)) x = (x, Inl ErrPTYNotOpen) \<and>
   RealPTYDevice_Write os b (fst (darwin_RealPTYDevice_Close os r v)) x = (x, Inl ErrPTYNotOpen)"
  by (auto simp: CreatePTY_def linux_RealPTYDevice_Close_def darwin_RealPTYDevice_Close_def
      RealPTYDevice_Read_def RealPTYDevice_Write_def split: prod.splits sum.splits option.splits)

subsection \<open>Closing while a read waits\<close>

text \<open>
  A \<open>Read\<close> of the device against \<open>Close\<close>: with \<open>locking\<close> (macOS) the reader keeps the mutex until
  the system call returns, without it (Linux) only for its check. The system call returns when
  there is input or the file has been closed.
\<close>

datatype pty_reader = PIdle | PDevice | PReturned "bytes option"

record pty_sync =
  py_reader :: pty_reader
  py_held :: bool
  py_open :: bool
  py_input :: bytes

datatype pty_event = PyRead | PyReturn | PyClose | PyInput bytes

inductive pty_step :: "bool \<Rightarrow> pty_sync \<Rightarrow> pty_event \<Rightarrow> pty_sync \<Rightarrow> bool" for locking where
  py_read: "py_reader s = PIdle \<Longrightarrow> \<not> py_held s \<Longrightarrow> py_open s \<Longrightarrow>
    pty_step locking s PyRead (s\<lparr>py_reader := PDevice, py_held := locking\<rparr>)"
| py_data: "py_reader s = PDevice \<Longrightarrow> py_open s \<Longrightarrow> py_input s \<noteq> [] \<Longrightarrow>
    pty_step locking s PyReturn (s\<lparr>py_reader := PReturned (Some (py_input s)), py_held := False, py_input := []\<rparr>)"
| py_eof: "py_reader s = PDevice \<Longrightarrow> \<not> py_open s \<Longrightarrow>
    pty_step locking s PyReturn (s\<lparr>py_reader := PReturned None, py_held := False\<rparr>)"
| py_close: "\<not> py_held s \<Longrightarrow> pty_step locking s PyClose (s\<lparr>py_open := False\<rparr>)"
| py_input: "pty_step locking s (PyInput d) (s\<lparr>py_input := py_input s @ d\<rparr>)"

inductive pty_steps :: "bool \<Rightarrow> pty_sync \<Rightarrow> pty_event list \<Rightarrow> pty_sync \<Rightarrow> bool" for locking where
  py_nil: "pty_steps locking s [] s"
| py_cons: "pty_step locking s e t \<Longrightarrow> pty_steps locking t es u \<Longrightarrow> pty_steps locking s (e # es) u"

inductive_cases pty_stepE: "pty_step locking s e t"
inductive_simps pty_steps_Cons: "pty_steps locking s (e # es) u"
inductive_simps pty_steps_Nil: "pty_steps locking s [] u"

interpretation pty_runs: runs "pty_step locking" "pty_steps locking" for locking
  by unfold_locales (auto simp: pty_steps_Nil pty_steps_Cons)

definition linux_pty_step :: "pty_sync \<Rightarrow> pty_event \<Rightarrow> pty_sync \<Rightarrow> bool" where
  "linux_pty_step = pty_step False"

definition darwin_pty_step :: "pty_sync \<Rightarrow> pty_event \<Rightarrow> pty_sync \<Rightarrow> bool" where
  "darwin_pty_step = pty_step True"

text \<open>On macOS a pending read holds up \<open>Close\<close>: as long as no input arrives the device stays open and
  the read does not return, so the client's shutdown, which closes the device to end the read,
  waits for a key press; on Linux \<open>Close\<close> always goes through and ends the read.\<close>

theorem pending_read_blocks_close:
  assumes "py_reader s = PDevice" and "py_held s" and "py_open s" and "py_input s = []"
    and "pty_steps True s es t" and "\<forall>e \<in> set es. \<forall>d. e \<noteq> PyInput d"
  shows "t = s \<and> \<not> darwin_pty_step s PyClose u \<and>
    (\<exists>v. linux_pty_step (s\<lparr>py_held := False\<rparr>) PyClose v \<and>
      linux_pty_step v PyReturn (v\<lparr>py_reader := PReturned None\<rparr>))"
proof (intro conjI)
  show "t = s"
    by (rule pty_runs.steps_keep_on [OF assms(5), where Q = "\<lambda>e. \<forall>d. e \<noteq> PyInput d"])
      (use assms(1-4,6) in \<open>auto elim!: pty_stepE\<close>)
  show "\<not> darwin_pty_step s PyClose u"
    using assms(2) by (auto simp: darwin_pty_step_def elim: pty_stepE)
  let ?v = "s\<lparr>py_held := False, py_open := False\<rparr>"
  have v: "?v\<lparr>py_reader := PReturned None, py_held := False\<rparr> = ?v\<lparr>py_reader := PReturned None\<rparr>"
    by (cases s) simp
  have "linux_pty_step (s\<lparr>py_held := False\<rparr>) PyClose ?v"
    using pty_step.py_close [of "s\<lparr>py_held := False\<rparr>" False] by (simp add: linux_pty_step_def)
  moreover have "linux_pty_step ?v PyReturn (?v\<lparr>py_reader := PReturned None\<rparr>)"
    using pty_step.py_eof [of ?v False] assms(1) v unfolding linux_pty_step_def by simp
  ultimately show "\<exists>v. linux_pty_step (s\<lparr>py_held := False\<rparr>) PyClose v \<and>
      linux_pty_step v PyReturn (v\<lparr>py_reader := PReturned None\<rparr>)" by blast
qed

theorem pending_read_blocks_close_witness:
  "\<exists>s. py_reader s = PDevice \<and> py_held s \<and> darwin_pty_step \<lparr>py_reader = PIdle, py_held = False, py_open = True, py_input = []\<rparr> PyRead s \<and>
     (\<forall>u. \<not> darwin_pty_step s PyClose u)"
proof -
  let ?i = "\<lparr>py_reader = PIdle, py_held = False, py_open = True, py_input = []\<rparr>"
  let ?s = "?i\<lparr>py_reader := PDevice, py_held := True\<rparr>"
  have r: "darwin_pty_step ?i PyRead ?s"
    using pty_step.py_read [of ?i True] by (simp add: darwin_pty_step_def)
  have "pty_steps True ?s [] ?s" by (rule pty_steps.py_nil)
  from pending_read_blocks_close [OF _ _ _ _ this] have "\<forall>u. \<not> darwin_pty_step ?s PyClose u" by simp
  with r show ?thesis by (intro exI [of _ ?s]) simp
qed

end
