(* ===== verification/Client_Main.thy ===== *)
theory Client_Main
  imports Reconnect Config_File Pty_Device Local_Proxy
begin

text \<open>
  The client programs, \<open>cmd/client/main.go\<close> and \<open>cmd/client-windows/main.go\<close>: the flags over the
  configuration, including \<open>net.SplitHostPort\<close> and the hand-written port parser; the forwarding
  goroutines and the main goroutine of the Linux client around the reconnect manager
  (\<open>cl_do\<close>); and the Windows client's own \<open>ConnectionManager\<close> with its loops (\<open>cm_do\<close>).
\<close>

subsection \<open>Addresses on the command line\<close>

text \<open>\<open>net.SplitHostPort\<close> with the errors of the package.\<close>

datatype addr_error = MissingPort | TooManyColons | MissingBracket | UnexpectedOpen | UnexpectedClose

fun last_index :: "char \<Rightarrow> string \<Rightarrow> nat option" where
  "last_index c [] = None"
| "last_index c (x # xs) =
     (case last_index c xs of
        Some i \<Rightarrow> Some (Suc i)
      | None \<Rightarrow> if x = c then Some 0 else None)"

definition check_brackets :: "string \<Rightarrow> string \<Rightarrow> string \<times> string \<Rightarrow> addr_error + string \<times> string" where
  "check_brackets after_j after_k res =
     (if Contains after_j ''['' then Inl UnexpectedOpen
      else if Contains after_k '']'' then Inl UnexpectedClose
      else Inr res)"

definition SplitHostPort :: "string \<Rightarrow> addr_error + string \<times> string" where
  "SplitHostPort hp =
     (case last_index CHR '':'' hp of
        None \<Rightarrow> Inl MissingPort
      | Some i \<Rightarrow>
          if HasPrefix hp ''[''
          then (case Index hp '']'' of
                  None \<Rightarrow> Inl MissingBracket
                | Some e \<Rightarrow>
                    if Suc e = length hp then Inl MissingPort
                    else if Suc e = i
                    then check_brackets (drop 1 hp) (drop (Suc e) hp) (drop 1 (take e hp), drop (Suc i) hp)
                    else if hp ! Suc e = CHR '':'' then Inl TooManyColons
                    else Inl MissingPort)
          else if Contains (take i hp) '':'' then Inl TooManyColons
          else check_brackets hp hp (take i hp, drop (Suc i) hp))"

text \<open>The loop over the port's characters, on a 64-bit integer.\<close>

definition parse_port :: "string \<Rightarrow> int" where
  "parse_port port =
     foldl (\<lambda>portInt c. if is_digit c then wrap64 (wrap64 (portInt * 10) + int (digit_value c)) else portInt) 0 port"

record client_flags =
  cf_config :: string
  cf_server :: string
  cf_pty :: string
  cf_localPort :: int
  cf_maxRetry :: int
  cf_retryInterval :: int
  cf_version :: bool

definition override_address :: "string \<Rightarrow> client_config \<Rightarrow> client_config" where
  "override_address serverAddr cfg =
     (if serverAddr \<noteq> ''''
      then case SplitHostPort serverAddr of
             Inr (host, port) \<Rightarrow> cfg\<lparr>CServer_Address := host, CServer_Port := parse_port port\<rparr>
           | Inl err \<Rightarrow> cfg\<lparr>CServer_Address := serverAddr\<rparr>
      else cfg)"

definition override_reconnect :: "client_flags \<Rightarrow> client_config \<Rightarrow> client_config" where
  "override_reconnect fl cfg =
     (let c1 = (if cf_maxRetry fl \<noteq> 0 then cfg\<lparr>Reconnect_MaxRetry := cf_maxRetry fl\<rparr> else cfg) in
      if cf_retryInterval fl \<noteq> 0 then c1\<lparr>Reconnect_Interval := cf_retryInterval fl\<rparr> else c1)"

definition client_settings ::
    "(string \<Rightarrow> go_error + string) \<Rightarrow> (string \<Rightarrow> go_error + client_config) \<Rightarrow> client_flags \<Rightarrow> client_config" where
  "client_settings read unmarshal fl =
     (let cfg = (case LoadClient read unmarshal (cf_config fl) of Inl err \<Rightarrow> DefaultClientConfig | Inr c \<Rightarrow> c);
          c1 = override_address (cf_server fl) cfg;
          c2 = (if cf_pty fl \<noteq> '''' then c1\<lparr>PTY_Path := cf_pty fl\<rparr> else c1)
      in override_reconnect fl c2)"

text \<open>The Windows client has no terminal.\<close>

definition windows_client_settings ::
    "(string \<Rightarrow> go_error + string) \<Rightarrow> (string \<Rightarrow> go_error + client_config) \<Rightarrow> client_flags \<Rightarrow> client_config" where
  "windows_client_settings read unmarshal fl =
     (let cfg = (case LoadClient read unmarshal (cf_config fl) of Inl err \<Rightarrow> DefaultClientConfig | Inr c \<Rightarrow> c)
      in override_reconnect fl (override_address (cf_server fl) cfg))"

definition client_getConfigSource :: "(string \<Rightarrow> bool) \<Rightarrow> string \<Rightarrow> string" where
  "client_getConfigSource stat path =
     (if path \<noteq> '''' then path
      else if stat ''/etc/shareserial/client.yaml'' then ''/etc/shareserial/client.yaml''
      else if stat ''./configs/client.yaml'' then ''./configs/client.yaml''
      else ''defaults'')"

text \<open>The start of \<open>main\<close> up to the first connection: the device, and the manager or the fatal error.\<close>

definition client_start ::
    "(string \<Rightarrow> 'o \<Rightarrow> 'o \<times> (go_error + 'f real_pty)) \<Rightarrow> go_error + nat \<Rightarrow> client_config \<Rightarrow> 'o \<Rightarrow>
     'o \<times> (go_error + 'f pty_device \<times> reconnect_manager)" where
  "client_start createReal dial cfg w =
     (case CreatePTY createReal (PTY_Path cfg) w of
        (w1, Inl err) \<Rightarrow> (w1, Inl err)
      | (w1, Inr device) \<Rightarrow>
          (case ReconnectManager_Connect dial
                  (NewReconnectManager (ServerAddress cfg) (Reconnect_MaxRetry cfg) (Reconnect_Interval cfg * 1000000000)) of
             (r, Some err) \<Rightarrow> (w1, Inl err)
           | (r, None) \<Rightarrow> (w1, Inr (device, r))))"

datatype 'f client_run = ClientVersion | ClientFatal go_error | ClientRunning "'f pty_device" reconnect_manager

definition client_main ::
    "(string \<Rightarrow> 'o \<Rightarrow> 'o \<times> (go_error + 'f real_pty)) \<Rightarrow> go_error + nat \<Rightarrow> (string \<Rightarrow> go_error + string) \<Rightarrow>
     (string \<Rightarrow> go_error + client_config) \<Rightarrow> client_flags \<Rightarrow> 'o \<Rightarrow> 'o \<times> 'f client_run" where
  "client_main createReal dial read unmarshal fl w =
     (if cf_version fl then (w, ClientVersion)
      else case client_start createReal dial (client_settings read unmarshal fl) w of
             (w1, Inl err) \<Rightarrow> (w1, ClientFatal err)
           | (w1, Inr (device, reconn)) \<Rightarrow> (w1, ClientRunning device reconn))"

text \<open>When the server cannot be reached the program ends at once, after the terminal has been created: a real
  device and its symbolic link are left to the operating system, and nothing is retried.\<close>

theorem failed_dial_leaves_terminal:
  "client_main createReal (Inl err) read unmarshal fl w =
     (if cf_version fl then (w, ClientVersion)
      else (fst (createReal (PTY_Path (client_settings read unmarshal fl)) w), ClientFatal err))"
  by (auto simp: client_main_def client_start_def CreatePTY_def ReconnectManager_Connect_def split: prod.splits sum.splits)

subsection \<open>Forwarding\<close>

text \<open>One turn of the goroutine from the server to the terminal: what it does, and its error counter.\<close>

datatype s2p_action = S2P_Return | S2P_Wait | S2P_Disconnect bool | S2P_Write bytes

definition server_to_pty :: "bool \<Rightarrow> nat option \<Rightarrow> (nat \<Rightarrow> go_error + bytes) \<Rightarrow> int \<Rightarrow> s2p_action \<times> int" where
  "server_to_pty stopped conn read errorCount =
     (if stopped then (S2P_Return, errorCount)
      else case conn of
             None \<Rightarrow> (S2P_Wait, errorCount)
           | Some c \<Rightarrow>
               (case read c of
                  Inl err \<Rightarrow>
                    if err \<noteq> IoEOF \<and> errorCount < 3 then (S2P_Disconnect True, errorCount + 1)
                    else (S2P_Disconnect False, errorCount)
                | Inr d \<Rightarrow> (S2P_Write d, 0)))"

text \<open>One turn of the goroutine from the terminal to the server, after its read.\<close>

datatype p2s_action = P2S_CloseDevice | P2S_Return | P2S_Skip | P2S_Write nat bytes

definition pty_to_server :: "bool \<Rightarrow> go_error + bytes \<Rightarrow> nat option \<Rightarrow> bool \<Rightarrow> p2s_action" where
  "pty_to_server stopped read conn connected =
     (if stopped then P2S_CloseDevice
      else case read of
             Inl err \<Rightarrow> P2S_Return
           | Inr d \<Rightarrow> (case conn of Some c \<Rightarrow> if connected then P2S_Write c d else P2S_Skip | None \<Rightarrow> P2S_Skip))"

subsection \<open>The Linux client around the reconnect manager\<close>

text \<open>
  The forwarding goroutine loads the connection, reads it, and calls \<open>Disconnect\<close> when the read
  fails; the main goroutine waits for a signal or for the first error of \<open>AutoReconnect\<close>.
  \<open>cl_closed\<close> is the set of connections that this program has closed.
\<close>

datatype fwd_pc = FLoad | FRead nat | FFailed | FEnd

datatype main_wait = CWait | CSignalled | CFailed go_error

record cl_sys =
  cl_rc :: rc_sys
  cl_fwd :: fwd_pc
  cl_main :: main_wait
  cl_closed :: "nat set"

datatype cl_event = Auto rc_event | FwdLoad | FwdError | FwdDisconnect | MainSignal | MainError

fun is_auto :: "rc_event \<Rightarrow> bool" where
  "is_auto AutoSelect = True"
| "is_auto (AutoTry d) = True"
| "is_auto AutoSend = True"
| "is_auto AutoWake = True"
| "is_auto e = False"

fun cl_do :: "cl_event \<Rightarrow> cl_sys \<Rightarrow> cl_sys option" where
  "cl_do (Auto e) s = (if is_auto e then map_option (\<lambda>r. s\<lparr>cl_rc := r\<rparr>) (rc_do e (cl_rc s)) else None)"
| "cl_do FwdLoad s =
     (if cl_fwd s = FLoad
      then Some (s\<lparr>cl_fwd := (if cl_main s \<noteq> CWait then FEnd
                            else case ReconnectManager_GetConnection (rc_mgr (cl_rc s)) of
                                   None \<Rightarrow> FLoad | Some c \<Rightarrow> FRead c)\<rparr>)
      else None)"
| "cl_do FwdError s = (case cl_fwd s of FRead c \<Rightarrow> Some (s\<lparr>cl_fwd := FFailed\<rparr>) | _ \<Rightarrow> None)"
| "cl_do FwdDisconnect s =
     (if cl_fwd s = FFailed
      then (let (r, c) = ReconnectManager_Disconnect (rc_mgr (cl_rc s)) in
            Some (s\<lparr>cl_rc := (cl_rc s)\<lparr>rc_mgr := r\<rparr>, cl_fwd := FLoad,
                    cl_closed := cl_closed s \<union> set_option c\<rparr>))
      else None)"
| "cl_do MainSignal s = (if cl_main s = CWait then Some (s\<lparr>cl_main := CSignalled\<rparr>) else None)"
| "cl_do MainError s =
     (if cl_main s = CWait
      then (case chan_recv (rc_errChan (cl_rc s)) of
              (Got e, c) \<Rightarrow> Some (s\<lparr>cl_rc := (cl_rc s)\<lparr>rc_errChan := c\<rparr>, cl_main := CFailed e\<rparr>)
            | _ \<Rightarrow> None)
      else None)"

fun cl_run :: "cl_event list \<Rightarrow> cl_sys \<Rightarrow> cl_sys option" where
  "cl_run [] s = Some s"
| "cl_run (e # es) s = (case cl_do e s of None \<Rightarrow> None | Some t \<Rightarrow> cl_run es t)"

text \<open>A client that has just connected.\<close>

definition cl_init :: "int \<Rightarrow> nat \<Rightarrow> cl_sys" where
  "cl_init maxRetry c =
     \<lparr>cl_rc = AutoReconnect (fst (ReconnectManager_Connect (Inr c) (NewReconnectManager ''srv:7700'' maxRetry 5000000000))),
      cl_fwd = FLoad, cl_main = CWait, cl_closed = {}\<rparr>"

subsection \<open>The Windows client's connection manager\<close>

record conn_manager =
  cm_serverAddr :: string
  cm_conn :: "nat option"
  cm_running :: bool
  cm_maxRetry :: int
  cm_retryInterval :: int
  cm_stopChan :: "unit chan"

definition NewConnectionManager :: "string \<Rightarrow> int \<Rightarrow> int \<Rightarrow> conn_manager" where
  "NewConnectionManager serverAddr maxRetry retryInterval =
     \<lparr>cm_serverAddr = serverAddr, cm_conn = None, cm_running = False, cm_maxRetry = maxRetry,
      cm_retryInterval = retryInterval, cm_stopChan = make_chan 0\<rparr>"

definition cm_connect :: "go_error + nat \<Rightarrow> conn_manager \<Rightarrow> conn_manager \<times> go_error option" where
  "cm_connect dial m =
     (if cm_conn m \<noteq> None then (m, None)
      else case dial of Inl err \<Rightarrow> (m, Some err) | Inr c \<Rightarrow> (m\<lparr>cm_conn := Some c\<rparr>, None))"

definition ConnectionManager_Start :: "go_error + nat \<Rightarrow> conn_manager \<Rightarrow> conn_manager" where
  "ConnectionManager_Start dial m = fst (cm_connect dial (m\<lparr>cm_running := True\<rparr>))"

text \<open>The stopped manager and the connection it closes.\<close>

definition ConnectionManager_Stop :: "conn_manager \<Rightarrow> go_panic + conn_manager \<times> nat option" where
  "ConnectionManager_Stop m =
     (case chan_close (cm_stopChan m) of
        Inl p \<Rightarrow> Inl p
      | Inr c \<Rightarrow> Inr (m\<lparr>cm_running := False, cm_stopChan := c, cm_conn := None\<rparr>, cm_conn m))"

definition ConnectionManager_GetConnection :: "conn_manager \<Rightarrow> nat option" where
  "ConnectionManager_GetConnection m = cm_conn m"

text \<open>The polls of \<open>WaitForConnection\<close> before its deadline (the message is in Chinese in the source).\<close>

fun WaitForConnection :: "nat option list \<Rightarrow> go_error option" where
  "WaitForConnection [] = Some (ErrorString ''connection timeout'')"
| "WaitForConnection (c # cs) = (if c \<noteq> None then None else WaitForConnection cs)"

text \<open>\<open>reconnectLoop\<close>: at its \<open>select\<close>, before the locked load, before connecting, asleep, gone.\<close>

datatype loop_pc = CmSelect | CmLoad | CmConnect | CmSleep | CmEnd

record cm_sys =
  cm :: conn_manager
  cm_pc :: loop_pc
  cm_retryCount :: int
  cm_dials :: nat

datatype cm_event = CmTop | CmRead | CmTry "go_error + nat" | CmWake | CmStop

fun cm_do :: "cm_event \<Rightarrow> cm_sys \<Rightarrow> cm_sys option" where
  "cm_do CmTop s =
     (if cm_pc s = CmSelect
      then Some (s\<lparr>cm_pc := (if ch_closed (cm_stopChan (cm s)) then CmEnd else CmLoad)\<rparr>) else None)"
| "cm_do CmRead s =
     (if cm_pc s = CmLoad
      then (if \<not> cm_running (cm s) then Some (s\<lparr>cm_pc := CmEnd\<rparr>)
            else if cm_conn (cm s) \<noteq> None then Some (s\<lparr>cm_pc := CmSleep\<rparr>)
            else let n = wrap64 (cm_retryCount s + 1) in
                 if 0 < cm_maxRetry (cm s) \<and> cm_maxRetry (cm s) < n
                 then Some (s\<lparr>cm_retryCount := n, cm_pc := CmEnd\<rparr>)
                 else Some (s\<lparr>cm_retryCount := n, cm_pc := CmConnect\<rparr>))
      else None)"
| "cm_do (CmTry dial) s =
     (if cm_pc s = CmConnect
      then (let (m, err) = cm_connect dial (cm s) in
            Some (s\<lparr>cm := m, cm_pc := CmSleep, cm_retryCount := (if err = None then 0 else cm_retryCount s),
                    cm_dials := (if cm_conn (cm s) = None then Suc (cm_dials s) else cm_dials s)\<rparr>))
      else None)"
| "cm_do CmWake s = (if cm_pc s = CmSleep then Some (s\<lparr>cm_pc := CmSelect\<rparr>) else None)"
| "cm_do CmStop s =
     (case ConnectionManager_Stop (cm s) of Inl p \<Rightarrow> None | Inr (m, c) \<Rightarrow> Some (s\<lparr>cm := m\<rparr>))"

fun cm_run :: "cm_event list \<Rightarrow> cm_sys \<Rightarrow> cm_sys option" where
  "cm_run [] s = Some s"
| "cm_run (e # es) s = (case cm_do e s of None \<Rightarrow> None | Some t \<Rightarrow> cm_run es t)"

interpretation cm_runs: event_runs cm_do cm_run
  by unfold_locales simp_all

definition cm_init :: "go_error + nat \<Rightarrow> int \<Rightarrow> cm_sys" where
  "cm_init dial maxRetry =
     \<lparr>cm = ConnectionManager_Start dial (NewConnectionManager ''srv:7700'' maxRetry 5000000000),
      cm_pc = CmSelect, cm_retryCount = 0, cm_dials = 0\<rparr>"

text \<open>One turn of \<open>monitorLoop\<close>: \<open>None\<close> when it ends, else the proxy and the connection it knows.\<close>

definition monitorLoop :: "nat option \<Rightarrow> nat option \<Rightarrow> local_proxy \<Rightarrow> (local_proxy \<times> nat option) option" where
  "monitorLoop currentConn lastConn p =
     (if \<not> LocalProxy_IsRunning p then None
      else if currentConn \<noteq> lastConn \<and> currentConn \<noteq> None
      then Some (fst (UpdateRemoteConnection currentConn p), currentConn)
      else Some (p, lastConn))"

text \<open>
  \<open>main\<close> of the Windows client from the wait for the first connection to the running proxy:
  \<open>polls\<close> is what the waits see in the manager, \<open>listen\<close> the result of the proxy's \<open>net.Listen\<close>.
  A proxy that cannot start stops the manager before the program ends.
\<close>

datatype windows_start = WinFatal go_error "go_panic + conn_manager \<times> nat option" | WinRunning local_proxy conn_manager

definition windows_client_start ::
    "nat option list \<Rightarrow> go_error option \<Rightarrow> int \<Rightarrow> conn_manager \<Rightarrow> windows_start" where
  "windows_client_start polls listen localPort m =
     (case WaitForConnection polls of
        Some err \<Rightarrow> WinFatal err (Inr (m, None))
      | None \<Rightarrow>
          (case LocalProxy_Start listen (ConnectionManager_GetConnection m) (NewLocalProxy localPort) of
             (proxy, Some err) \<Rightarrow> WinFatal err (ConnectionManager_Stop m)
           | (proxy, None) \<Rightarrow> WinRunning proxy m))"

text \<open>The whole of \<open>main\<close> up to the running proxy. The manager dials for the first time in \<open>Start\<close>; \<open>polls\<close> and
  \<open>later\<close> are what the waits see in it and the manager as it is when they end.\<close>

definition windows_client_main ::
    "(string \<Rightarrow> go_error + string) \<Rightarrow> (string \<Rightarrow> go_error + client_config) \<Rightarrow> go_error + nat \<Rightarrow>
     (conn_manager \<Rightarrow> nat option list \<times> conn_manager) \<Rightarrow> go_error option \<Rightarrow> client_flags \<Rightarrow> windows_start option" where
  "windows_client_main read unmarshal dial later listen fl =
     (if cf_version fl then None
      else let cfg = windows_client_settings read unmarshal fl;
               (polls, m) = later (ConnectionManager_Start dial
                 (NewConnectionManager (ServerAddress cfg) (Reconnect_MaxRetry cfg) (Reconnect_Interval cfg * 1000000000)))
           in Some (windows_client_start polls listen (cf_localPort fl) m))"

text \<open>After the signal: the stopped proxy and manager, with the local and the remote connections closed.\<close>

definition windows_client_stop ::
    "local_proxy \<Rightarrow> conn_manager \<Rightarrow> go_panic + local_proxy \<times> conn_manager \<times> nat set \<times> nat set" where
  "windows_client_stop proxy m =
     (case LocalProxy_Stop proxy of
        Inl e \<Rightarrow> Inl e
      | Inr (proxy', locals, remote) \<Rightarrow>
          (case ConnectionManager_Stop m of
             Inl e \<Rightarrow> Inl e
           | Inr (m', c) \<Rightarrow> Inr (proxy', m', locals, set_option remote \<union> set_option c)))"

text \<open>The end of \<open>main\<close> of the Linux client; \<open>closeDevice\<close> is the device's \<open>Close\<close>.\<close>

definition client_stop ::
    "('dev \<Rightarrow> 'dev) \<Rightarrow> reconnect_manager \<Rightarrow> 'dev \<Rightarrow> go_panic + reconnect_manager \<times> nat option \<times> 'dev" where
  "client_stop closeDevice r device =
     (case ReconnectManager_Stop r of
        Inl e \<Rightarrow> Inl e
      | Inr r1 \<Rightarrow> (let (r2, closed) = ReconnectManager_Disconnect r1 in Inr (r2, closed, closeDevice device)))"

lemmas cm_defs = NewConnectionManager_def cm_connect_def ConnectionManager_Start_def ConnectionManager_Stop_def
  ConnectionManager_GetConnection_def

subsection \<open>Addresses: properties\<close>










text \<open>An IPv6 address does not survive: its brackets are dropped, and the address that is dialled cannot
  be split again.\<close>

theorem ipv6_flag_is_broken:
  "ServerAddress (override_address ''[::1]:7700'' cfg) = ''::1:7700'' \<and>
   SplitHostPort (ServerAddress (override_address ''[::1]:7700'' cfg)) = Inl TooManyColons"
proof -
  have "parse_port ''7700'' = 7700"
    by (simp add: parse_port_def is_digit_def digit_value_def wrap64_id)
  then show ?thesis
    by (simp add: override_address_def ServerAddress_def SplitHostPort_def check_brackets_def HasPrefix_def
        Contains_def intToString_def)
qed

subsection \<open>The Linux client: properties\<close>

interpretation cl_runs: event_runs cl_do cl_run
  by unfold_locales simp_all

lemmas cl_run_append = cl_runs.run_append

text \<open>The first failed reconnect ends the client, whatever the configured number of retries: the main
  goroutine waits for one error and then shuts everything down.\<close>

theorem client_exits_after_one_failure:
  assumes "cl_main s = CWait" and "rc_pc (cl_rc s) = ATry" and "rc_errChan (cl_rc s) = make_chan 1"
  shows "\<exists>t e. cl_run [Auto (AutoTry (Inl err)), Auto AutoSend, MainError] s = Some t \<and> cl_main t = CFailed e \<and>
    rm_maxRetry (rc_mgr (cl_rc t)) = rm_maxRetry (rc_mgr (cl_rc s)) \<and>
    cl_do MainError t = None \<and> cl_do MainSignal t = None"
proof -
  obtain r e where r: "tryReconnect (Inl err) (rc_mgr (cl_rc s)) = (r, Some e)"
    by (cases "tryReconnect (Inl err) (rc_mgr (cl_rc s))") (auto simp: tryReconnect_def Let_def split: if_splits)
  moreover have "rm_maxRetry r = rm_maxRetry (rc_mgr (cl_rc s))"
    using r by (auto simp: tryReconnect_def Let_def split: if_splits)
  ultimately show ?thesis using assms
    by (simp add: chan_send_def chan_recv_def make_chan_def)
qed

theorem client_exits_after_one_failure_witness:
  "\<exists>s t. cl_run [FwdLoad, FwdError, FwdDisconnect, Auto AutoSelect] (cl_init 10 0) = Some s \<and>
     cl_run [Auto (AutoTry (Inl IoEOF)), Auto AutoSend, MainError] s = Some t \<and> cl_main t \<noteq> CWait \<and>
     rm_maxRetry (rc_mgr (cl_rc t)) = 10"
proof -
  let ?es = "[FwdLoad, FwdError, FwdDisconnect, Auto AutoSelect]"
  obtain s where s: "cl_run ?es (cl_init 10 0) = Some s" "cl_main s = CWait" "rc_pc (cl_rc s) = ATry"
      "rc_errChan (cl_rc s) = make_chan 1" "rm_maxRetry (rc_mgr (cl_rc s)) = 10"
    by (simp add: cl_init_def reconnect_defs chan_recv_def)
  obtain t e where "cl_run [Auto (AutoTry (Inl IoEOF)), Auto AutoSend, MainError] s = Some t" "cl_main t = CFailed e"
      "rm_maxRetry (rc_mgr (cl_rc t)) = rm_maxRetry (rc_mgr (cl_rc s))"
    using client_exits_after_one_failure [OF s(2-4), of IoEOF] by blast
  with s(1,5) show ?thesis by (metis main_wait.distinct(3))
qed

text \<open>A late read error on the old connection closes the new one: when \<open>AutoReconnect\<close> replaces the
  connection between a failed read and its \<open>Disconnect\<close>, the fresh connection is closed.\<close>

theorem stale_error_closes_new_connection:
  "\<exists>s. cl_run [FwdLoad, FwdError, FwdDisconnect, Auto AutoSelect, FwdLoad, FwdError, Auto (AutoTry (Inr 1)), FwdDisconnect]
        (cl_init 10 0) = Some s \<and>
     ReconnectManager_GetConnection (rc_mgr (cl_rc s)) = Some 1 \<and> 1 \<in> cl_closed s \<and>
     \<not> ReconnectManager_IsConnected (rc_mgr (cl_rc s))"
  by (simp add: cl_init_def reconnect_defs chan_recv_def wrap64_id)

subsection \<open>The Windows client: properties\<close>

text \<open>C32: The Windows client never reconnects: once there is a connection, nothing but \<open>Stop\<close> ever changes
  the field, so after the server closes the connection no further dial is made and the proxy is
  never given a new connection.\<close>

theorem windows_never_reconnects:
  assumes "cm_run es s = Some t" and "cm_conn (cm s) = Some c" and "CmStop \<notin> set es"
  shows "ConnectionManager_GetConnection (cm t) = Some c \<and> cm_dials t = cm_dials s \<and>
    (LocalProxy_IsRunning p \<longrightarrow> monitorLoop (ConnectionManager_GetConnection (cm t)) (Some c) p = Some (p, Some c))"
proof -
  have "cm_conn (cm t) = Some c \<and> cm_dials t = cm_dials s"
  proof (rule cm_runs.run_keep_on [OF assms(1), where Q = "\<lambda>e. e \<noteq> CmStop"])
    fix e u v
    assume "cm_do e u = Some v" "e \<noteq> CmStop" "cm_conn (cm u) = Some c \<and> cm_dials u = cm_dials s"
    then show "cm_conn (cm v) = Some c \<and> cm_dials v = cm_dials s"
      by (cases e) (auto simp: cm_defs Let_def split: if_splits)
  qed (use assms(2,3) in auto)
  then show ?thesis by (simp add: cm_defs monitorLoop_def)
qed

theorem windows_never_reconnects_witness:
  "\<exists>t. cm_run [CmTop, CmRead, CmWake, CmTop, CmRead] (cm_init (Inr 4) 3) = Some t \<and>
     ConnectionManager_GetConnection (cm t) = Some 4 \<and> cm_dials t = 0"
proof -
  have c: "cm_conn (cm (cm_init (Inr 4) 3)) = Some 4" "cm_dials (cm_init (Inr 4) 3) = 0"
    by (simp_all add: cm_init_def cm_defs)
  have "\<exists>t. cm_run [CmTop, CmRead, CmWake, CmTop, CmRead] (cm_init (Inr 4) 3) = Some t"
    by (simp add: cm_init_def cm_defs)
  then obtain t where t: "cm_run [CmTop, CmRead, CmWake, CmTop, CmRead] (cm_init (Inr 4) 3) = Some t" by blast
  from windows_never_reconnects [OF t c(1)] c(2) t show ?thesis by auto
qed

text \<open>Stopping the Windows client can leave a connection open: a dial that started before \<open>Stop\<close> sets
  the connection after it.\<close>

theorem connection_survives_stop:
  "\<exists>t. cm_run [CmTop, CmRead, CmStop, CmTry (Inr 9), CmWake, CmTop] (cm_init (Inl IoEOF) 3) = Some t \<and>
     cm_pc t = CmEnd \<and> \<not> cm_running (cm t) \<and> ConnectionManager_GetConnection (cm t) = Some 9"
  by (simp add: cm_init_def cm_defs chan_close_def wrap64_id)

subsection \<open>Start and stop of the Windows client\<close>

text \<open>A Windows client that starts runs its proxy on the connection of the manager, and its shutdown never
  panics: it closes every local connection and the connection to the server, and leaves the proxy and
  the manager stopped and without connections.\<close>

theorem windows_session:
  assumes "windows_client_start polls listen port (ConnectionManager_Start dial (NewConnectionManager addr n i)) = WinRunning proxy m"
    and "proxy' = proxy\<lparr>lp_localConns := locals, lp_remoteBuffer := buf\<rparr>"
  shows "lp_remoteConn proxy = cm_conn m \<and> LocalProxy_IsRunning proxy \<and>
    (\<exists>p2 m2. windows_client_stop proxy' m = Inr (p2, m2, locals, set_option (cm_conn m)) \<and>
       \<not> LocalProxy_IsRunning p2 \<and> ConnectionCount p2 = 0 \<and> ConnectionManager_GetConnection m2 = None \<and> \<not> cm_running m2)"
proof -
  have m: "m = ConnectionManager_Start dial (NewConnectionManager addr n i)" and
    proxy: "proxy = fst (LocalProxy_Start None (cm_conn m) (NewLocalProxy port))"
    using assms(1)
    by (auto simp: windows_client_start_def LocalProxy_Start_def ConnectionManager_GetConnection_def Let_def split: option.splits)
  have "cm_stopChan m = make_chan 0"
    by (simp add: m ConnectionManager_Start_def cm_connect_def NewConnectionManager_def split: sum.splits)
  then show ?thesis unfolding assms(2) proxy
    by (simp add: windows_client_stop_def LocalProxy_Stop_def LocalProxy_Start_def NewLocalProxy_def ConnectionManager_Stop_def
        chan_close_def LocalProxy_IsRunning_def ConnectionCount_def ConnectionManager_GetConnection_def)
qed

theorem windows_session_witness:
  "\<exists>proxy m. windows_client_start [None, Some 4] None 8888 (ConnectionManager_Start (Inr 4) (NewConnectionManager ''s:1'' 0 5)) = WinRunning proxy m \<and>
     (\<exists>p2 m2. windows_client_stop (proxy\<lparr>lp_localConns := {1, 2}, lp_remoteBuffer := [0]\<rparr>) m = Inr (p2, m2, {1, 2}, {4}))"
proof -
  let ?m = "ConnectionManager_Start (Inr 4) (NewConnectionManager ''s:1'' 0 5)"
  let ?p = "fst (LocalProxy_Start None (Some 4) (NewLocalProxy 8888))"
  have c: "cm_conn ?m = Some 4" by (simp add: cm_defs)
  have s: "windows_client_start [None, Some 4] None 8888 ?m = WinRunning ?p ?m"
    by (simp add: windows_client_start_def ConnectionManager_GetConnection_def c LocalProxy_Start_def Let_def)
  from windows_session [OF s refl, of "[0]" "{1, 2}"] s c show ?thesis by fastforce
qed

end
