(* ===== verification/Scanner.thy ===== *)
theory Scanner
  imports Serial_Port Go_Strings
begin

text \<open>
  The port scanners, \<open>pkg/serial/scanner_linux.go\<close> and \<open>scanner_windows.go\<close>, with the constructors and
  tables of \<open>scanner_darwin.go\<close>; the rest of that file is in \<open>Darwin\<close>.
  The file system is a parameter: \<open>glob\<close> (the result of \<open>filepath.Glob\<close>) and \<open>readfile\<close>, which
  may not return (\<open>None\<close>), as reading a serial device to its end does when the device sends
  nothing and never reports end of file; so a scan is an option too. Probing a port opens and
  closes a fresh real port.
\<close>

subsection \<open>Linux and macOS\<close>

type_synonym reader = "string \<Rightarrow> (go_error + string) option"

record path_scanner =
  searchPaths :: "string list"

definition NewScannerLinux :: path_scanner where
  "NewScannerLinux = \<lparr>searchPaths = [''/dev/ttyUSB*'', ''/dev/ttyACM*'', ''/dev/ttyS*'']\<rparr>"

definition NewScannerDarwin :: path_scanner where
  "NewScannerDarwin = \<lparr>searchPaths =
     [''/dev/tty.usbserial*'', ''/dev/tty.usbmodem*'', ''/dev/cu.usbserial*'', ''/dev/cu.usbmodem*'']\<rparr>"

definition isAccessible :: "'d driver \<Rightarrow> reader \<Rightarrow> string \<Rightarrow> bool option" where
  "isAccessible drv readfile path =
     (case readfile path of
        None \<Rightarrow> None
      | Some (Inl err) \<Rightarrow> Some False
      | Some (Inr info) \<Rightarrow>
          (case RealSerialPort_Open drv path NewRealSerialPort of
             (port, Some err) \<Rightarrow> Some False
           | (port, None) \<Rightarrow> Some True))"

text \<open>The inner loop over the matches of one pattern.\<close>

fun probe_all :: "(string \<Rightarrow> bool option) \<Rightarrow> string list \<Rightarrow> string list option" where
  "probe_all acc [] = Some []"
| "probe_all acc (path # paths) =
     (case acc path of
        None \<Rightarrow> None
      | Some ok \<Rightarrow> map_option (\<lambda>rest. if ok then path # rest else rest) (probe_all acc paths))"

fun scan_patterns ::
    "(string \<Rightarrow> go_error + string list) \<Rightarrow> (string \<Rightarrow> bool option) \<Rightarrow> string list \<Rightarrow> string list option" where
  "scan_patterns glob acc [] = Some []"
| "scan_patterns glob acc (pattern # ps) =
     (case glob pattern of
        Inl err \<Rightarrow> scan_patterns glob acc ps
      | Inr matches \<Rightarrow>
          (case probe_all acc matches of
             None \<Rightarrow> None
           | Some found \<Rightarrow> map_option (\<lambda>rest. found @ rest) (scan_patterns glob acc ps)))"

definition PathScanner_Scan ::
    "'d driver \<Rightarrow> reader \<Rightarrow> (string \<Rightarrow> go_error + string list) \<Rightarrow> path_scanner \<Rightarrow> string list option" where
  "PathScanner_Scan drv readfile glob s = scan_patterns glob (isAccessible drv readfile) (searchPaths s)"

definition scanPattern ::
    "'d driver \<Rightarrow> reader \<Rightarrow> (string \<Rightarrow> go_error + string list) \<Rightarrow> string \<Rightarrow> (go_error + string list) option" where
  "scanPattern drv readfile glob pattern =
     (case glob pattern of
        Inl err \<Rightarrow> Some (Inl err)
      | Inr matches \<Rightarrow> map_option Inr (probe_all (isAccessible drv readfile) matches))"

definition ScanUSB where "ScanUSB drv readfile glob = scanPattern drv readfile glob ''/dev/ttyUSB*''"
definition ScanACM where "ScanACM drv readfile glob = scanPattern drv readfile glob ''/dev/ttyACM*''"
definition ScanLegacy where "ScanLegacy drv readfile glob = scanPattern drv readfile glob ''/dev/ttyS*''"

definition linux_NewScanner :: path_scanner where
  "linux_NewScanner = NewScannerLinux"

definition linux_IsPortAvailable :: "'d driver \<Rightarrow> reader \<Rightarrow> string \<Rightarrow> bool option" where
  "linux_IsPortAvailable drv readfile path = isAccessible drv readfile path"

definition SetSearchPaths :: "string list \<Rightarrow> path_scanner \<Rightarrow> path_scanner" where
  "SetSearchPaths paths s = s\<lparr>searchPaths := paths\<rparr>"

definition AddSearchPath :: "string \<Rightarrow> path_scanner \<Rightarrow> path_scanner" where
  "AddSearchPath pattern s = s\<lparr>searchPaths := searchPaths s @ [pattern]\<rparr>"

definition linux_GetDeviceType :: "string \<Rightarrow> string" where
  "linux_GetDeviceType path =
     (if HasPrefix path ''/dev/ttyUSB'' then ''USB Serial''
      else if HasPrefix path ''/dev/ttyACM'' then ''ACM Serial (Arduino/CDC)''
      else if HasPrefix path ''/dev/ttyS'' then ''Legacy Serial''
      else ''Unknown'')"

definition darwin_GetDeviceType :: "string \<Rightarrow> string" where
  "darwin_GetDeviceType path =
     (if HasPrefix path ''/dev/tty.usbserial'' \<or> HasPrefix path ''/dev/cu.usbserial'' then ''USB Serial (FTDI/PL2303)''
      else if HasPrefix path ''/dev/tty.usbmodem'' \<or> HasPrefix path ''/dev/cu.usbmodem'' then ''USB Modem (CDC-ACM)''
      else ''Unknown'')"

record port_info =
  pi_Path :: string
  pi_Type :: string
  pi_Vendor :: string
  pi_Product :: string

definition ScanDetailed ::
    "'d driver \<Rightarrow> reader \<Rightarrow> (string \<Rightarrow> go_error + string list) \<Rightarrow> path_scanner \<Rightarrow> port_info list option" where
  "ScanDetailed drv readfile glob s =
     map_option (map (\<lambda>path. \<lparr>pi_Path = path, pi_Type = linux_GetDeviceType path, pi_Vendor = '''', pi_Product = ''''\<rparr>))
       (PathScanner_Scan drv readfile glob s)"

definition linux_GetCommonPorts :: "string list" where
  "linux_GetCommonPorts = [''/dev/ttyUSB0'', ''/dev/ttyUSB1'', ''/dev/ttyACM0'', ''/dev/ttyS0'']"

definition darwin_GetCommonPorts :: "string list" where
  "darwin_GetCommonPorts = [''/dev/tty.usbserial'', ''/dev/tty.usbmodem'', ''/dev/cu.usbserial'', ''/dev/cu.usbmodem'']"

subsection \<open>Windows\<close>

record com_scanner =
  maxPort :: int

definition NewScannerWindows :: com_scanner where
  "NewScannerWindows = \<lparr>maxPort = 30\<rparr>"

definition windows_NewScanner :: com_scanner where
  "windows_NewScanner = NewScannerWindows"

definition com_name :: "int \<Rightarrow> string" where
  "com_name i = ''COM'' @ itoa i"

definition windows_IsPortAvailable :: "'d driver \<Rightarrow> string \<Rightarrow> bool" where
  "windows_IsPortAvailable drv portName =
     (case RealSerialPort_Open drv portName NewRealSerialPort of (port, Some err) \<Rightarrow> False | (port, None) \<Rightarrow> True)"

text \<open>The loop \<open>for i := 1; i <= s.maxPort; i++\<close> from a given index.\<close>

function com_loop :: "(string \<Rightarrow> bool) \<Rightarrow> int \<Rightarrow> int \<Rightarrow> string list" where
  "com_loop ok i m =
     (if i \<le> m then (if ok (com_name i) then com_name i # com_loop ok (i + 1) m else com_loop ok (i + 1) m) else [])"
  by auto
termination by (relation "measure (\<lambda>(ok, i, m). nat (m + 1 - i))") auto

declare com_loop.simps [simp del]

definition windows_Scan :: "'d driver \<Rightarrow> com_scanner \<Rightarrow> string list" where
  "windows_Scan drv s = com_loop (windows_IsPortAvailable drv) 1 (maxPort s)"

definition ScanExtended :: "'d driver \<Rightarrow> com_scanner \<Rightarrow> com_scanner \<times> string list" where
  "ScanExtended drv s = (let s' = s\<lparr>maxPort := 255\<rparr> in (s', windows_Scan drv s'))"

text \<open>\<open>slow\<close> names the ports whose probe takes longer than the timeout.\<close>

definition ScanWithTimeout :: "'d driver \<Rightarrow> (string \<Rightarrow> bool) \<Rightarrow> com_scanner \<Rightarrow> string list" where
  "ScanWithTimeout drv slow s =
     com_loop (\<lambda>name. \<not> slow name \<and> windows_IsPortAvailable drv name) 1 (maxPort s)"

definition SetMaxPort :: "int \<Rightarrow> com_scanner \<Rightarrow> com_scanner" where
  "SetMaxPort m s = s\<lparr>maxPort := m\<rparr>"

definition windows_GetCommonPorts :: "string list" where
  "windows_GetCommonPorts = [''COM1'', ''COM2'', ''COM3'', ''COM4'', ''COM5'', ''COM6'', ''COM7'', ''COM8'', ''COM9'', ''COM10'']"

subsection \<open>Properties\<close>

lemma probe_all_eq:
  "probe_all acc paths =
     (if \<forall>p \<in> set paths. acc p \<noteq> None then Some (filter (\<lambda>p. acc p = Some True) paths) else None)"
  by (induction paths) (auto split: option.split)

lemma scan_patterns_eq:
  "scan_patterns glob acc ps =
     (let matches = concat (map (\<lambda>p. case glob p of Inl _ \<Rightarrow> [] | Inr m \<Rightarrow> m) ps) in
      if \<forall>p \<in> set matches. acc p \<noteq> None then Some (filter (\<lambda>p. acc p = Some True) matches) else None)"
  by (induction ps) (auto simp: Let_def probe_all_eq split: sum.split if_splits)

lemma open_result:
  "RealSerialPort_Open drv path NewRealSerialPort = (p, e) \<Longrightarrow> e = None \<longleftrightarrow> is_ok (drv_open drv path 115200)"
  by (auto simp: go_defs DefaultConfig_def BaudRate_def split: sum.splits)

lemma isAccessible_eq:
  "isAccessible drv readfile path =
     map_option (\<lambda>r. is_ok r \<and> is_ok (drv_open drv path 115200)) (readfile path)"
proof (cases "RealSerialPort_Open drv path NewRealSerialPort")
  case (Pair p e)
  with open_result [OF Pair] show ?thesis
    by (auto simp: isAccessible_def split: option.split sum.split)
qed

text \<open>C33: A scan of the search paths returns the matching devices that can be read and opened, in the order
  of the patterns and matches; and it does not return at all when one matching device cannot be
  read to its end, although that device may be usable.\<close>

theorem scan_spec:
  "PathScanner_Scan drv readfile glob s =
     (let matches = concat (map (\<lambda>p. case glob p of Inl _ \<Rightarrow> [] | Inr m \<Rightarrow> m) (searchPaths s)) in
      if list_all (\<lambda>p. readfile p \<noteq> None) matches
      then Some (filter (\<lambda>p. is_ok (the (readfile p)) \<and> is_ok (drv_open drv p 115200)) matches)
      else None)"
proof -
  define ms where "ms = concat (map (\<lambda>p. case glob p of Inl _ \<Rightarrow> [] | Inr m \<Rightarrow> m) (searchPaths s))"
  have "filter (\<lambda>p. isAccessible drv readfile p = Some True) ms =
      filter (\<lambda>p. is_ok (the (readfile p)) \<and> is_ok (drv_open drv p 115200)) ms" if "\<forall>p \<in> set ms. readfile p \<noteq> None"
    using that by (intro filter_cong) (auto simp: isAccessible_eq)
  moreover have "(isAccessible drv readfile p \<noteq> None) = (readfile p \<noteq> None)" for p
    by (simp add: isAccessible_eq)
  ultimately show ?thesis
    unfolding PathScanner_Scan_def scan_patterns_eq Let_def ms_def [symmetric] by (simp add: list_all_iff)
qed

lemma com_loop_eq: "com_loop ok i m = filter ok (map com_name [i..m])"
proof (induction ok i m rule: com_loop.induct)
  case (1 ok i m)
  then show ?case by (auto simp: com_loop.simps [of ok i m] upto_rec1)
qed

text \<open>The Windows scan finds exactly the ports COM1 to the maximum that can be opened, in order; a scan
  with a timeout finds those of them whose probe is fast enough; and an extended scan changes the
  range of every later scan.\<close>

theorem windows_scan_spec:
  "windows_Scan drv s = filter (\<lambda>n. is_ok (drv_open drv n 115200)) (map com_name [1..maxPort s]) \<and>
   ScanWithTimeout drv slow s = filter (\<lambda>n. \<not> slow n) (windows_Scan drv s) \<and>
   windows_Scan drv (fst (ScanExtended drv s)) = snd (ScanExtended drv s)"
proof -
  have "windows_IsPortAvailable drv = (\<lambda>n. is_ok (drv_open drv n 115200))"
  proof
    fix n show "windows_IsPortAvailable drv n = is_ok (drv_open drv n 115200)"
      using open_result [of drv n]
      by (cases "RealSerialPort_Open drv n NewRealSerialPort") (auto simp: windows_IsPortAvailable_def split: option.split)
  qed
  then show ?thesis
    by (simp add: windows_Scan_def ScanWithTimeout_def ScanExtended_def com_loop_eq conj_commute Let_def)
qed

end
