(* ===== verification/Go_Regexp.thy ===== *)
theory Go_Regexp
  imports Go_Strings
begin

text \<open>
  The fragment of package \<open>regexp\<close> that the program's fixed patterns use: literals and ASCII
  classes, sequences, alternatives, \<open>?\<close>, \<open>*\<close>, \<open>+\<close> and groups. A pattern is matched to the list of
  its successes in the order of preference of Go's leftmost-first semantics; the first success at
  the leftmost position is the match. No class contains a byte above 127, so matching bytes and
  matching runes agree.
\<close>

datatype regexp =
    Eps
  | Cls string
  | Sq regexp regexp
  | Alt regexp regexp
  | Opt regexp
  | Many regexp
  | Grp nat regexp

type_synonym captures = "(nat \<times> string) list"

text \<open>The repetition of a step, greedy, while it consumes; \<open>n\<close> bounds the number of turns by the input.\<close>

fun many :: "nat \<Rightarrow> (string \<times> captures \<Rightarrow> (string \<times> captures) list) \<Rightarrow> string \<times> captures \<Rightarrow> (string \<times> captures) list" where
  "many 0 f x = [x]"
| "many (Suc n) f x =
     concat (map (\<lambda>y. if length (fst y) < length (fst x) then many n f y else []) (f x)) @ [x]"

fun succs :: "regexp \<Rightarrow> string \<times> captures \<Rightarrow> (string \<times> captures) list" where
  "succs Eps x = [x]"
| "succs (Cls cs) x =
     (case fst x of [] \<Rightarrow> [] | c # s \<Rightarrow> if c \<in> set cs then [(s, snd x)] else [])"
| "succs (Sq r q) x = concat (map (succs q) (succs r x))"
| "succs (Alt r q) x = succs r x @ succs q x"
| "succs (Opt r) x = succs r x @ [x]"
| "succs (Many r) x = many (length (fst x)) (succs r) x"
| "succs (Grp i r) x =
     map (\<lambda>y. (fst y, (i, take (length (fst x) - length (fst y)) (fst x)) # snd y)) (succs r x)"

text \<open>\<open>FindStringSubmatch\<close>: the captures of the leftmost match.\<close>

fun find_submatch :: "regexp \<Rightarrow> string \<Rightarrow> captures option" where
  "find_submatch r [] = (case succs r ([], []) of [] \<Rightarrow> None | y # _ \<Rightarrow> Some (snd y))"
| "find_submatch r (c # s) =
     (case succs r (c # s, []) of [] \<Rightarrow> find_submatch r s | y # _ \<Rightarrow> Some (snd y))"

definition group :: "nat \<Rightarrow> captures option \<Rightarrow> string option" where
  "group i m = (case m of None \<Rightarrow> None | Some cs \<Rightarrow> map_of cs i)"

definition Lit :: "char \<Rightarrow> regexp" where "Lit c = Cls [c]"
definition Plus :: "regexp \<Rightarrow> regexp" where "Plus r = Sq r (Many r)"

fun Word :: "string \<Rightarrow> regexp" where
  "Word [] = Eps"
| "Word [c] = Lit c"
| "Word (c # cs) = Sq (Lit c) (Word cs)"

definition digits :: string where "digits = ''0123456789''"
definition spaces :: string where "spaces = [CHR '' '', CHR 0x09, CHR 0x0A, CHR 0x0C, CHR 0x0D]"

subsection \<open>The language of a pattern\<close>

inductive matches :: "regexp \<Rightarrow> string \<Rightarrow> bool" where
  m_eps: "matches Eps []"
| m_cls: "c \<in> set cs \<Longrightarrow> matches (Cls cs) [c]"
| m_sq: "matches r u \<Longrightarrow> matches q v \<Longrightarrow> matches (Sq r q) (u @ v)"
| m_alt1: "matches r u \<Longrightarrow> matches (Alt r q) u"
| m_alt2: "matches q u \<Longrightarrow> matches (Alt r q) u"
| m_opt0: "matches (Opt r) []"
| m_opt1: "matches r u \<Longrightarrow> matches (Opt r) u"
| m_many0: "matches (Many r) []"
| m_many: "matches r u \<Longrightarrow> matches (Many r) v \<Longrightarrow> matches (Many r) (u @ v)"
| m_grp: "matches r u \<Longrightarrow> matches (Grp i r) u"

inductive_simps matches_simps [simp]:
  "matches Eps u" "matches (Cls cs) u" "matches (Sq r q) u" "matches (Alt r q) u" "matches (Opt r) u"
  "matches (Grp i r) u"

inductive_cases matches_ManyE: "matches (Many r) u"

lemma matches_Lit [simp]: "matches (Lit c) u \<longleftrightarrow> u = [c]"
  by (auto simp: Lit_def)

text \<open>A turn of a repetition may be taken to consume.\<close>

lemma many_step:
  assumes "matches (Many r) w" and "w \<noteq> []"
  shows "\<exists>u v. w = u @ v \<and> u \<noteq> [] \<and> matches r u \<and> matches (Many r) v"
proof -
  have "R = Many r \<Longrightarrow> w \<noteq> [] \<Longrightarrow> \<exists>u v. w = u @ v \<and> u \<noteq> [] \<and> matches r u \<and> matches (Many r) v"
    if "matches R w" for R
    using that
  proof (induction rule: matches.induct)
    case (m_many q u v)
    then show ?case by (cases "u = []") auto
  qed auto
  with assms show ?thesis by blast
qed

abbreviation rests :: "regexp \<Rightarrow> string \<Rightarrow> captures \<Rightarrow> string set" where
  "rests r s cs \<equiv> fst ` set (succs r (s, cs))"

lemma many_rests:
  assumes "\<And>s cs. fst ` set (f (s, cs)) = {w. \<exists>u. s = u @ w \<and> matches r u}"
  shows "length s \<le> n \<Longrightarrow> fst ` set (many n f (s, cs)) = {w. \<exists>u. s = u @ w \<and> matches (Many r) u}"
proof (induction n arbitrary: s cs)
  case 0
  then show ?case by (auto intro: m_many0)
next
  case (Suc n)
  show ?case
  proof (intro set_eqI iffI)
    fix w assume "w \<in> fst ` set (many (Suc n) f (s, cs))"
    then consider "w = s"
      | t cs' where "(t, cs') \<in> set (f (s, cs))" "length t < length s" "w \<in> fst ` set (many n f (t, cs'))"
      by (force split: if_splits)
    then show "w \<in> {w. \<exists>u. s = u @ w \<and> matches (Many r) u}"
    proof cases
      case 1
      then show ?thesis by (auto intro: m_many0)
    next
      case 2
      from 2(1) have "t \<in> fst ` set (f (s, cs))" by force
      then obtain u where "s = u @ t" "matches r u" unfolding assms by blast
      moreover have "\<exists>v. t = v @ w \<and> matches (Many r) v" using Suc 2 by auto
      ultimately show ?thesis by (auto intro: m_many)
    qed
  next
    fix w assume "w \<in> {w. \<exists>u. s = u @ w \<and> matches (Many r) u}"
    then obtain u where u: "s = u @ w" "matches (Many r) u" by blast
    show "w \<in> fst ` set (many (Suc n) f (s, cs))"
    proof (cases "u = []")
      case True
      with u show ?thesis by (auto simp: image_Un)
    next
      case False
      from many_step [OF u(2) this] obtain a b
        where ab: "u = a @ b" "a \<noteq> []" "matches r a" "matches (Many r) b" by blast
      then have "b @ w \<in> fst ` set (f (s, cs))" unfolding assms using u by auto
      then obtain cs' where f: "(b @ w, cs') \<in> set (f (s, cs))" by auto
      have "length (b @ w) \<le> n" and l: "length (b @ w) < length s" using Suc.prems u ab by (cases a; simp)+
      from Suc.IH [OF this(1), of cs'] ab(4) have "w \<in> fst ` set (many n f (b @ w, cs'))" by blast
      with f l show ?thesis by (force simp: image_Un)
    qed
  qed
qed

text \<open>The matcher is sound and complete for the language: its successes are the ways to match.\<close>

lemma rests_eq: "rests r s cs = {w. \<exists>u. s = u @ w \<and> matches r u}"
proof (induction r arbitrary: s cs)
  case (Cls x)
  then show ?case by (cases s) auto
next
  case (Sq r q)
  have "rests (Sq r q) s cs = (\<Union>y \<in> set (succs r (s, cs)). rests q (fst y) (snd y))"
    by auto
  also have "\<dots> = (\<Union>t \<in> rests r s cs. {w. \<exists>u. t = u @ w \<and> matches q u})"
    unfolding Sq.IH(2) by auto
  also have "\<dots> = {w. \<exists>u. s = u @ w \<and> matches (Sq r q) u}"
    unfolding Sq.IH(1) by (auto simp del: append_assoc simp flip: append_assoc) (metis append_assoc)+
  finally show ?case .
next
  case (Alt r q)
  have "rests (Alt r q) s cs = rests r s cs \<union> rests q s cs" by (simp add: image_Un)
  with Alt.IH show ?case by auto
next
  case (Opt r)
  have "rests (Opt r) s cs = insert s (rests r s cs)" by simp
  with Opt.IH show ?case by auto
next
  case (Many r)
  then show ?case using many_rests [of "succs r" r s "length s" cs] by simp
next
  case (Grp i r)
  have "rests (Grp i r) s cs = rests r s cs" by (simp add: image_image)
  with Grp.IH show ?case by simp
qed auto

lemma succs_sound: "y \<in> set (succs r x) \<Longrightarrow> \<exists>u. fst x = u @ fst y \<and> matches r u"
proof -
  assume "y \<in> set (succs r x)"
  then have "fst y \<in> rests r (fst x) (snd x)" by simp
  then show ?thesis unfolding rests_eq by simp
qed

lemma succs_empty_iff: "succs r (s, cs) = [] \<longleftrightarrow> (\<forall>u w. s = u @ w \<longrightarrow> \<not> matches r u)"
proof -
  have "succs r (s, cs) = [] \<longleftrightarrow> rests r s cs = {}" by simp
  then show ?thesis unfolding rests_eq by blast
qed

text \<open>Patterns without groups leave the captures alone.\<close>

fun groupless :: "regexp \<Rightarrow> bool" where
  "groupless (Sq r q) \<longleftrightarrow> groupless r \<and> groupless q"
| "groupless (Alt r q) \<longleftrightarrow> groupless r \<and> groupless q"
| "groupless (Opt r) \<longleftrightarrow> groupless r"
| "groupless (Many r) \<longleftrightarrow> groupless r"
| "groupless (Grp i r) \<longleftrightarrow> False"
| "groupless r \<longleftrightarrow> True"

lemma many_captures:
  "(\<And>x y. y \<in> set (f x) \<Longrightarrow> snd y = snd x) \<Longrightarrow> y \<in> set (many n f x) \<Longrightarrow> snd y = snd x"
  by (induction n arbitrary: x) (auto split: if_splits)

lemma groupless_captures: "groupless r \<Longrightarrow> y \<in> set (succs r x) \<Longrightarrow> snd y = snd x"
proof (induction r arbitrary: x y)
  case (Sq r q)
  then obtain z where "z \<in> set (succs r x)" "y \<in> set (succs q z)" by auto
  with Sq.IH Sq.prems(1) show ?case by simp
next
  case (Many r)
  then show ?case using many_captures [of "succs r" y] by simp
qed (auto split: list.splits if_splits)

lemma Grp_capture:
  "y \<in> set (succs (Grp i r) x) \<Longrightarrow> \<exists>u. fst x = u @ fst y \<and> matches r u \<and> map_of (snd y) i = Some u"
  by (auto dest!: succs_sound)

text \<open>A success of a pattern with one outermost group.\<close>

lemma group_capture:
  assumes "y \<in> set (succs (Sq a (Sq (Grp i r) b)) x)" and "groupless b"
  shows "\<exists>u1 u u2. fst x = u1 @ u @ u2 @ fst y \<and> matches a u1 \<and> matches r u \<and> matches b u2 \<and>
    map_of (snd y) i = Some u"
proof -
  from assms(1) obtain y1 y2 where y: "y1 \<in> set (succs a x)" "y2 \<in> set (succs (Grp i r) y1)" "y \<in> set (succs b y2)"
    by (auto simp del: succs.simps(7))
  from succs_sound [OF y(1)] Grp_capture [OF y(2)] succs_sound [OF y(3)] groupless_captures [OF assms(2) y(3)]
  show ?thesis by (metis append_assoc)
qed

text \<open>
  The leftmost match, given a function \<open>here\<close> that says what group \<open>i\<close> captures at a position
  when the pattern matches there.
\<close>

fun leftmost :: "(string \<Rightarrow> string option) \<Rightarrow> string \<Rightarrow> string option" where
  "leftmost here [] = here []"
| "leftmost here (c # s) = (case here (c # s) of None \<Rightarrow> leftmost here s | Some u \<Rightarrow> Some u)"

lemma find_submatch_leftmost:
  assumes "\<And>t. here t = None \<Longrightarrow> succs r (t, []) = []"
    and "\<And>t u y. here t = Some u \<Longrightarrow> y \<in> set (succs r (t, [])) \<Longrightarrow> map_of (snd y) i = Some u"
    and "\<And>t u. here t = Some u \<Longrightarrow> succs r (t, []) \<noteq> []"
  shows "group i (find_submatch r s) = leftmost here s"
proof (induction s)
  case Nil
  show ?case
  proof (cases "here []")
    case None
    with assms(1) show ?thesis by (simp add: group_def)
  next
    case (Some u)
    with assms(3) obtain y ys where "succs r ([], []) = y # ys" by (meson neq_Nil_conv)
    with assms(2) [OF Some, of y] Some show ?thesis by (simp add: group_def)
  qed
next
  case (Cons c s)
  show ?case
  proof (cases "here (c # s)")
    case None
    with assms(1) Cons.IH show ?thesis by simp
  next
    case (Some u)
    with assms(3) obtain y ys where "succs r (c # s, []) = y # ys" by (meson neq_Nil_conv)
    with assms(2) [OF Some, of y] Some show ?thesis by (simp add: group_def)
  qed
qed

text \<open>The languages of the building blocks.\<close>

lemma matches_Many_Cls: "matches (Many (Cls cs)) u \<longleftrightarrow> set u \<subseteq> set cs"
proof
  have "R = Many (Cls cs) \<Longrightarrow> set w \<subseteq> set cs" if "matches R w" for R w
    using that by (induction rule: matches.induct) auto
  then show "matches (Many (Cls cs)) u \<Longrightarrow> set u \<subseteq> set cs" by blast
next
  show "set u \<subseteq> set cs \<Longrightarrow> matches (Many (Cls cs)) u"
  proof (induction u)
    case Nil
    then show ?case by (simp add: m_many0)
  next
    case (Cons c u)
    with m_many [of "Cls cs" "[c]" u] show ?case by simp
  qed
qed

lemma matches_Sq_Cls: "matches (Sq (Cls cs) r) u \<longleftrightarrow> (\<exists>c v. u = c # v \<and> c \<in> set cs \<and> matches r v)"
proof -
  have "u = c # v \<longleftrightarrow> u = [c] @ v" for c v by simp
  then show ?thesis unfolding matches_simps by blast
qed

lemma matches_Plus_Cls: "matches (Plus (Cls cs)) u \<longleftrightarrow> u \<noteq> [] \<and> set u \<subseteq> set cs"
  unfolding Plus_def matches_Sq_Cls by (cases u) (auto simp: matches_Many_Cls)

lemma matches_Word [simp]: "matches (Word w) u \<longleftrightarrow> u = w"
  by (induction w arbitrary: u rule: Word.induct) auto

end
