(* ===== verification/Go_Json.thy ===== *)
theory Go_Json
  imports Go_Strings "HOL-Library.List_Lexorder" "HOL-Library.Char_ord"
begin

text \<open>
  Package \<open>encoding/json\<close> as far as the program uses it: \<open>Marshal\<close> of strings, of slices of
  string-valued objects and \<open>MarshalIndent\<close> of a flat object. A string is the list of its bytes, so
  the escaping of Go 1.18 is written on bytes: quotes, backslashes, control characters and the HTML
  characters are escaped, an invalid UTF-8 byte becomes the replacement character, and the line
  separators U+2028 and U+2029 are escaped. The keys of a map come out in byte order.
\<close>

definition hex_digit :: "nat \<Rightarrow> nat" where
  "hex_digit n = (if n < 10 then 48 + n else 87 + n)"

definition json_safe :: "nat \<Rightarrow> bool" where
  "json_safe b \<longleftrightarrow> 32 \<le> b \<and> b < 128 \<and> b \<notin> {34, 92, 60, 62, 38}"

definition json_escape :: "nat \<Rightarrow> string" where
  "json_escape b =
     (if json_safe b then chars [b]
      else if b = 34 \<or> b = 92 then chars [92, b]
      else if b = 10 then chars [92, 110]
      else if b = 13 then chars [92, 114]
      else if b = 9 then chars [92, 116]
      else chars [92, 117, 48, 48, hex_digit (b div 16), hex_digit (b mod 16)])"

text \<open>The length of the rune at the head of a string, 0 when its bytes are not valid UTF-8.\<close>

definition cont_byte :: "nat \<Rightarrow> nat \<Rightarrow> nat list \<Rightarrow> nat \<Rightarrow> bool" where
  "cont_byte lo hi s i \<longleftrightarrow> i < length s \<and> lo \<le> s ! i \<and> s ! i \<le> hi"

definition rune_len :: "nat list \<Rightarrow> nat" where
  "rune_len s =
     (case s of
        [] \<Rightarrow> 0
      | b # _ \<Rightarrow>
          if b < 0x80 then 1
          else if 0xC2 \<le> b \<and> b \<le> 0xDF then (if cont_byte 0x80 0xBF s 1 then 2 else 0)
          else if 0xE0 \<le> b \<and> b \<le> 0xEF then
            (if cont_byte (if b = 0xE0 then 0xA0 else 0x80) (if b = 0xED then 0x9F else 0xBF) s 1 \<and>
                cont_byte 0x80 0xBF s 2 then 3 else 0)
          else if 0xF0 \<le> b \<and> b \<le> 0xF4 then
            (if cont_byte (if b = 0xF0 then 0x90 else 0x80) (if b = 0xF4 then 0x8F else 0xBF) s 1 \<and>
                cont_byte 0x80 0xBF s 2 \<and> cont_byte 0x80 0xBF s 3 then 4 else 0)
          else 0)"

fun json_body :: "string \<Rightarrow> string" where
  "json_body [] = []"
| "json_body (c # s) =
     (if of_char c < (128 :: nat) then json_escape (of_char c) @ json_body s
      else case rune_len (map of_char (c # s)) of
             0 \<Rightarrow> chars [92, 117, 102, 102, 102, 100] @ json_body s
           | Suc n \<Rightarrow>
               (let r = take (Suc n) (c # s) in
                (if r = chars [0xE2, 0x80, 0xA8] then chars [92, 117, 50, 48, 50, 56]
                 else if r = chars [0xE2, 0x80, 0xA9] then chars [92, 117, 50, 48, 50, 57]
                 else r)) @ json_body (drop n s))"

definition json_string :: "string \<Rightarrow> string" where
  "json_string s = chars [34] @ json_body s @ chars [34]"

text \<open>An object with its fields in order, and a slice.\<close>

definition json_object :: "(string \<times> string) list \<Rightarrow> string" where
  "json_object kvs =
     ''{'' @ Join (map (\<lambda>(k, v). json_string k @ '':'' @ v) kvs) '','' @ ''}''"

definition json_array :: "string list \<Rightarrow> string" where
  "json_array xs = ''['' @ Join xs '','' @ '']''"

text \<open>A map, by its distinct keys, and \<open>MarshalIndent(m, "", "  ")\<close> of one whose values are flat.\<close>

definition json_map :: "(string \<times> string) list \<Rightarrow> string" where
  "json_map m = json_object (sort_key fst m)"

definition json_map_indent :: "(string \<times> string) list \<Rightarrow> string" where
  "json_map_indent m =
     (if m = [] then ''{}''
      else ''{'' @ [CHR 0x0A] @
           Join (map (\<lambda>(k, v). ''  '' @ json_string k @ '': '' @ v) (sort_key fst m)) ('','' @ [CHR 0x0A]) @
           [CHR 0x0A] @ ''}'')"

subsection \<open>Reading back\<close>

definition ascii :: "string \<Rightarrow> bool" where
  "ascii s \<longleftrightarrow> (\<forall>c \<in> set s. of_char c < (128 :: nat))"

lemma ascii_simps [simp]: "ascii []" "ascii (c # s) \<longleftrightarrow> of_char c < (128 :: nat) \<and> ascii s"
  by (auto simp: ascii_def)

lemma json_body_ascii: "ascii s \<Longrightarrow> json_body s = concat (map (\<lambda>c. json_escape (of_char c)) s)"
  by (induction s) simp_all

text \<open>The length of the block an escaped text begins with, and the byte a block stands for.\<close>

definition block_len :: "string \<Rightarrow> nat" where
  "block_len t =
     (if take 1 t \<noteq> chars [92] then 1 else if take 1 (drop 1 t) = chars [117] then 6 else 2)"

definition hex_value :: "nat \<Rightarrow> nat" where
  "hex_value n = (if n < 58 then n - 48 else n - 87)"

definition block_byte :: "string \<Rightarrow> nat" where
  "block_byte t =
     (case map of_char t of
        [b] \<Rightarrow> b
      | [_, e] \<Rightarrow> if e = 110 then 10 else if e = 114 then 13 else if e = 116 then 9 else e
      | [_, _, _, _, h, l] \<Rightarrow> 16 * hex_value h + hex_value l
      | _ \<Rightarrow> 0)"

lemma block_byte_escape:
  assumes "b < 128"
  shows "block_byte (json_escape b) = b"
proof -
  have "\<forall>b \<in> set [0 ..< 128]. block_byte (json_escape b) = b" by code_simp
  with assms show ?thesis by simp
qed

lemma chars_simps [simp]: "chars [] = []" "chars (n # ns) = char_of n # chars ns"
  by (simp_all add: chars_def)

lemma char_of_eq: "a < 256 \<Longrightarrow> b < 256 \<Longrightarrow> (char_of a :: char) = char_of (b :: nat) \<longleftrightarrow> a = b"
  by (metis char_of_def mod_less of_char_mod_256 of_char_of)

lemma block_len_escape: "b < 128 \<Longrightarrow> block_len (json_escape b @ r) = length (json_escape b)"
  by (auto simp: block_len_def json_escape_def json_safe_def char_of_eq)

lemma escape_first: "b < 128 \<Longrightarrow> json_escape b @ r = char_of (34 :: nat) # r' \<Longrightarrow> False"
  by (auto simp: json_escape_def json_safe_def char_of_eq split: if_splits)

lemma escape_prefix:
  assumes "a < 128" and "b < 128" and "json_escape a @ r = json_escape b @ r'"
  shows "a = b \<and> r = r'"
proof -
  have "length (json_escape a) = length (json_escape b)"
    using assms block_len_escape by metis
  with assms(3) have "json_escape a = json_escape b" "r = r'" by simp_all
  with assms(1,2) show ?thesis using block_byte_escape by metis
qed

lemma json_body_prefix:
  "ascii s \<Longrightarrow> ascii t \<Longrightarrow> json_body s @ char_of (34 :: nat) # r = json_body t @ char_of (34 :: nat) # r' \<Longrightarrow> s = t \<and> r = r'"
proof (induction s arbitrary: t)
  case Nil
  then show ?case
    by (cases t) (auto dest: escape_first [OF _ sym])
next
  case (Cons c s)
  show ?case
  proof (cases t)
    case Nil
    with Cons.prems show ?thesis by (auto dest: escape_first)
  next
    case (Cons d u)
    with Cons.prems have e: "json_escape (of_char c) @ json_body s @ char_of (34 :: nat) # r =
        json_escape (of_char d) @ json_body u @ char_of (34 :: nat) # r'"
        and l: "of_char c < (128 :: nat)" "of_char d < (128 :: nat)" "ascii s" "ascii u" by simp_all
    from escape_prefix [OF l(1,2) e] have "(of_char c :: nat) = of_char d"
        "json_body s @ char_of (34 :: nat) # r = json_body u @ char_of (34 :: nat) # r'" by blast+
    with Cons.IH [OF l(3,4)] Cons show ?thesis by simp
  qed
qed

lemma json_string_prefix:
  "ascii s \<Longrightarrow> ascii t \<Longrightarrow> json_string s @ r = json_string t @ r' \<Longrightarrow> s = t \<and> r = r'"
  by (drule (1) json_body_prefix [of s t r r']) (simp_all add: json_string_def)

end
