(* ===== verification/Log_Parser.thy ===== *)
theory Log_Parser
  imports Go_Regexp Go_Json
begin

text \<open>
  The log parser, \<open>pkg/logparser/logparser.go\<close>: entries, parsing of a line with the two patterns of
  the source, the filters and the statistics. The user's pattern of \<open>FilterRegex\<close> goes through a
  parameter \<open>compile\<close>, which yields the matcher or nothing when the pattern does not compile.
\<close>

record log_entry =
  le_Timestamp :: string
  le_Level :: string
  le_Message :: string
  le_Raw :: string

text \<open>\<open>\[(\d{2}:\d{2}:\d{2}(\.\d+)?)\]\<close>\<close>

definition digit2 :: regexp where
  "digit2 = Sq (Cls digits) (Cls digits)"

definition timeRegex :: regexp where
  "timeRegex =
     Sq (Lit CHR ''['')
       (Sq (Grp 1 (Sq digit2 (Sq (Lit CHR '':'') (Sq digit2 (Sq (Lit CHR '':'') (Sq digit2
              (Opt (Grp 2 (Sq (Lit CHR ''.'') (Plus (Cls digits)))))))))))
         (Lit CHR '']''))"

text \<open>\<open>\]\s*(INFO|WARN|WARNING|ERROR|DEBUG|FATAL|TRACE)\s*:\<close>\<close>

definition level_names :: regexp where
  "level_names = Alt (Word ''INFO'') (Alt (Word ''WARN'') (Alt (Word ''WARNING'') (Alt (Word ''ERROR'')
     (Alt (Word ''DEBUG'') (Alt (Word ''FATAL'') (Word ''TRACE''))))))"

definition levelRegex :: regexp where
  "levelRegex =
     Sq (Lit CHR '']'') (Sq (Many (Cls spaces)) (Sq (Grp 1 level_names) (Sq (Many (Cls spaces)) (Lit CHR '':''))))"

definition ParseLine :: "string \<Rightarrow> log_entry \<times> go_error option" where
  "ParseLine line =
     (let timestamp = (case group 1 (find_submatch timeRegex line) of Some t \<Rightarrow> t | None \<Rightarrow> '''');
          level = (case group 1 (find_submatch levelRegex line) of
                     Some l \<Rightarrow> if l = ''WARNING'' then ''WARN'' else l
                   | None \<Rightarrow> ''INFO'');
          message = (case SplitN2 line '': '' of [a, b] \<Rightarrow> b | _ \<Rightarrow> line);
          entry = \<lparr>le_Timestamp = timestamp, le_Level = level, le_Message = message, le_Raw = line\<rparr>
      in (entry, if timestamp = '''' then Some (ErrorString ''invalid log format'') else None))"

definition ParseLines :: "string list \<Rightarrow> log_entry list" where
  "ParseLines lines = map (\<lambda>line. fst (ParseLine line)) lines"

text \<open>Also the appending loops of the filters, as \<open>filter\<close>.\<close>

definition Filter :: "string list \<Rightarrow> string \<Rightarrow> string list" where
  "Filter lines keyword =
     (if keyword = '''' then lines else filter (\<lambda>line. Contains line keyword) lines)"

definition FilterRegex ::
    "(string \<Rightarrow> (string \<Rightarrow> bool) option) \<Rightarrow> string list \<Rightarrow> string \<Rightarrow> go_panic + string list" where
  "FilterRegex compile lines pattern =
     (if pattern = '''' then Inr lines
      else case compile pattern of
             None \<Rightarrow> Inl RegexpCompile
           | Some match \<Rightarrow> Inr (filter match lines))"

text \<open>\<open>time.Parse("15:04:05", ts)\<close> as seconds since midnight, on a timestamp of the form dd:dd:dd.\<close>

definition two_digits :: "string \<Rightarrow> nat option" where
  "two_digits s = (if length s = 2 \<and> (\<forall>c \<in> set s. is_digit c) then Some (dec_value s) else None)"

definition parse_clock :: "string \<Rightarrow> nat option" where
  "parse_clock ts =
     (case Split ts '':'' of
        [h, m, s] \<Rightarrow>
          (case (two_digits h, two_digits m, two_digits s) of
             (Some hh, Some mm, Some ss) \<Rightarrow>
               if hh < 24 \<and> mm < 60 \<and> ss < 60 then Some (hh * 3600 + mm * 60 + ss) else None
           | _ \<Rightarrow> None)
      | _ \<Rightarrow> None)"

definition strip_millis :: "string \<Rightarrow> string" where
  "strip_millis ts = (if Contains ts ''.'' then hd (Split ts ''.'') else ts)"

definition in_range :: "nat \<Rightarrow> nat \<Rightarrow> nat \<Rightarrow> bool" where
  "in_range startSeconds endSeconds lineSeconds =
     (if endSeconds < startSeconds
      then startSeconds \<le> lineSeconds \<or> lineSeconds \<le> endSeconds
      else startSeconds \<le> lineSeconds \<and> lineSeconds \<le> endSeconds)"

text \<open>\<open>start\<close> and \<open>end\<close> are given by their seconds since midnight.\<close>

definition FilterTimeRange :: "nat \<Rightarrow> nat \<Rightarrow> string list \<Rightarrow> string list" where
  "FilterTimeRange startSeconds endSeconds lines =
     filter (\<lambda>line.
       case ParseLine line of
         (entry, Some err) \<Rightarrow> False
       | (entry, None) \<Rightarrow>
           (case parse_clock (strip_millis (le_Timestamp entry)) of
              None \<Rightarrow> False
            | Some lineSeconds \<Rightarrow> in_range startSeconds endSeconds lineSeconds)) lines"

definition LimitLines :: "string list \<Rightarrow> int \<Rightarrow> string list" where
  "LimitLines lines m =
     (if m \<le> 0 \<or> int (length lines) \<le> m then lines else take (nat m) lines)"

definition ToText :: "log_entry list \<Rightarrow> string" where
  "ToText entries = Join (map le_Raw entries) [CHR 0x0A]"

definition entry_json :: "log_entry \<Rightarrow> string" where
  "entry_json e = json_object
     [(''timestamp'', json_string (le_Timestamp e)), (''level'', json_string (le_Level e)),
      (''message'', json_string (le_Message e)), (''raw'', json_string (le_Raw e))]"

definition ToJSON :: "log_entry list \<Rightarrow> string" where
  "ToJSON entries = (if entries = [] then ''[]'' else json_array (map entry_json entries))"

definition FilterByLevel :: "log_entry list \<Rightarrow> string \<Rightarrow> log_entry list" where
  "FilterByLevel entries level = filter (\<lambda>e. le_Level e = level) entries"

definition FilterByLevels :: "log_entry list \<Rightarrow> string list \<Rightarrow> log_entry list" where
  "FilterByLevels entries levels = filter (\<lambda>e. le_Level e \<in> set levels) entries"

text \<open>The map \<open>stats\<close>; \<open>stats[k]++\<close> on a missing key starts at 0.\<close>

definition bump :: "string \<Rightarrow> (string \<rightharpoonup> int) \<Rightarrow> (string \<rightharpoonup> int)" where
  "bump k m = m(k \<mapsto> (case m k of None \<Rightarrow> 0 | Some n \<Rightarrow> n) + 1)"

definition Stats :: "log_entry list \<Rightarrow> (string \<rightharpoonup> int)" where
  "Stats entries = fold (\<lambda>e m. bump (le_Level e) m) entries [''total'' \<mapsto> int (length entries)]"

subsection \<open>Parsing\<close>

text \<open>A line in the documented format.\<close>

definition clock_text :: "nat \<Rightarrow> nat \<Rightarrow> nat \<Rightarrow> string" where
  "clock_text h m s =
     [digit_char (h div 10), digit_char (h mod 10), CHR '':'', digit_char (m div 10), digit_char (m mod 10), CHR '':'',
      digit_char (s div 10), digit_char (s mod 10)]"

definition log_line :: "string \<Rightarrow> string \<Rightarrow> string \<Rightarrow> string" where
  "log_line ts level msg = ''['' @ ts @ ''] '' @ level @ '': '' @ msg"

definition levels :: "string list" where
  "levels = [''INFO'', ''WARN'', ''WARNING'', ''ERROR'', ''DEBUG'', ''FATAL'', ''TRACE'']"

definition level_of :: "string \<Rightarrow> string" where
  "level_of l = (if l = ''WARNING'' then ''WARN'' else l)"

lemma digit_char_in: "n < 10 \<Longrightarrow> digit_char n \<in> set digits"
proof -
  assume "n < 10"
  moreover have "\<forall>k \<in> set [0..<10]. digit_char k \<in> set digits" by code_simp
  ultimately show ?thesis by simp
qed

lemma digit_char_not: "n < 10 \<Longrightarrow> digit_char n \<noteq> CHR '':'' \<and> digit_char n \<noteq> CHR ''.'' \<and> digit_char n \<noteq> CHR '']''"
  using digit_char_in [of n] by (auto simp: digits_def)


lemma succs_word [simp]: "succs (Lit c) (x # s, cs) = (if x = c then [(s, cs)] else [])"
  by (auto simp: Lit_def)

lemma find_submatch_clock:
  assumes "h < 100" and "m < 100" and "s < 100"
  shows "group 1 (find_submatch timeRegex (''['' @ clock_text h m s @ '']'' @ rest)) = Some (clock_text h m s)"
proof -
  have d: "digit_char (n div 10) \<in> set digits" "digit_char (n mod 10) \<in> set digits" if "n < 100" for n :: nat
    using that by (auto intro: digit_char_in)
  show ?thesis
    using d [OF assms(1)] d [OF assms(2)] d [OF assms(3)]
    by (simp add: timeRegex_def digit2_def clock_text_def group_def)
qed

lemma level_regex_skips:
  assumes "CHR '']'' \<notin> set pre"
  shows "find_submatch levelRegex (pre @ s) = find_submatch levelRegex s"
  using assms by (induction pre) (auto simp: levelRegex_def Lit_def)

lemma find_submatch_level:
  assumes "level \<in> set levels" and "CHR '']'' \<notin> set pre"
  shows "group 1 (find_submatch levelRegex (pre @ ''] '' @ level @ '': '' @ msg)) = Some level"
proof -
  have "level = ''INFO'' \<or> level = ''WARN'' \<or> level = ''WARNING'' \<or> level = ''ERROR'' \<or> level = ''DEBUG'' \<or> level = ''FATAL'' \<or> level = ''TRACE''"
    using assms(1) by (simp add: levels_def)
  then show ?thesis
    unfolding level_regex_skips [OF assms(2)]
    by (elim disjE; hypsubst) (simp_all add: levelRegex_def level_names_def group_def spaces_def)
qed

lemma clock_text_chars:
  assumes "h < 100" and "m < 100" and "s < 100"
  shows "set (clock_text h m s) \<subseteq> insert CHR '':'' (set digits)"
proof -
  have d: "digit_char (n div 10) \<in> set digits" "digit_char (n mod 10) \<in> set digits" if "n < 100" for n :: nat
    using that by (auto intro: digit_char_in)
  show ?thesis
    using d [OF assms(1)] d [OF assms(2)] d [OF assms(3)] by (simp add: clock_text_def)
qed

lemma not_clock_char: "CHR '']'' \<notin> insert CHR '':'' (set digits)" "CHR '' '' \<notin> insert CHR '':'' (set digits)"
    "CHR ''.'' \<notin> insert CHR '':'' (set digits)"
  by (simp_all add: digits_def)

lemma Index_skip:
  assumes "CHR '' '' \<notin> set pre"
  shows "Index (pre @ CHR '' '' # s) '': '' = (if pre \<noteq> [] \<and> last pre = CHR '':'' then Some (length pre - 1)
     else map_option (\<lambda>i. i + length pre + 1) (Index s '': ''))"
  using assms
proof (induction pre)
  case Nil
  then show ?case by (simp add: HasPrefix_def)
next
  case (Cons c pre)
  show ?case
  proof (cases pre)
    case Nil
    with Cons show ?thesis by (auto simp: HasPrefix_def option.map_comp o_def)
  next
    case (Cons d pre')
    with Cons.prems have "\<not> HasPrefix ((c # pre) @ CHR '' '' # s) '': ''" by (auto simp: HasPrefix_def)
    with Cons.IH Cons.prems Cons show ?thesis
      by (simp add: option.map_comp o_def)
  qed
qed

lemma parse_formatted:
  assumes "h < 100" and "m < 100" and "s < 100" and "level \<in> set levels"
  shows "ParseLine (log_line (clock_text h m s) level msg) =
    (\<lparr>le_Timestamp = clock_text h m s, le_Level = level_of level, le_Message = msg,
      le_Raw = log_line (clock_text h m s) level msg\<rparr>, None)"
proof -
  let ?ts = "clock_text h m s" and ?line = "log_line (clock_text h m s) level msg"
  have line1: "?line = ''['' @ ?ts @ '']'' @ ('' '' @ level @ '': '' @ msg)" by (simp add: log_line_def)
  have line2: "?line = (''['' @ ?ts) @ ''] '' @ level @ '': '' @ msg" by (simp add: log_line_def)
  have c: "CHR '']'' \<notin> set (''['' @ ?ts)" "CHR '' '' \<notin> set (''['' @ ?ts @ '']'')"
    using clock_text_chars [OF assms(1-3)] not_clock_char by auto
  have t: "group 1 (find_submatch timeRegex ?line) = Some ?ts"
    unfolding line1 by (rule find_submatch_clock [OF assms(1-3)])
  have l: "group 1 (find_submatch levelRegex ?line) = Some level"
    unfolding line2 by (rule find_submatch_level [OF assms(4) c(1)])
  have lv: "level \<noteq> []" "CHR '' '' \<notin> set level" "CHR '':'' \<notin> set level"
    using assms(4) by (auto simp: levels_def)
  have i2: "Index (level @ '': '' @ msg) '': '' = Some (length level)"
    using Index_skip [of "level @ '':''" msg] lv by simp
  have "?line = (''['' @ ?ts @ '']'') @ CHR '' '' # (level @ '': '' @ msg)" by (simp add: log_line_def)
  with Index_skip [OF c(2), of "level @ '': '' @ msg"] i2
  have "Index ?line '': '' = Some (length level + length (''['' @ ?ts @ '']'') + 1)" by simp
  moreover have "drop (length level + length (''['' @ ?ts @ '']'') + 1 + length '': '') ?line = msg"
  proof -
    let ?pre = "''['' @ ?ts @ ''] '' @ level @ '': ''"
    have "?line = ?pre @ msg" by (simp add: log_line_def)
    moreover have "length ?pre = length level + length (''['' @ ?ts @ '']'') + 1 + length '': ''" by simp
    ultimately show ?thesis by (metis append_eq_conv_conj)
  qed
  ultimately have "SplitN2 ?line '': '' = [take (length level + length (''['' @ ?ts @ '']'') + 1) ?line, msg]"
    unfolding SplitN2_def by (simp only: option.case)
  with t l lv show ?thesis by (simp add: ParseLine_def level_of_def clock_text_def [of h m s] Let_def)
qed

text \<open>A line in the documented format is parsed into its parts without an error: for every clock time,
  level and message, and a \<open>WARNING\<close> is reported as \<open>WARN\<close>.\<close>

theorem ParseLine_formatted:
  assumes "h < 100" and "m < 100" and "s < 100" and "level \<in> set levels"
  shows "ParseLine (log_line (clock_text h m s) level msg) =
    (\<lparr>le_Timestamp = clock_text h m s, le_Level = level_of level, le_Message = msg,
      le_Raw = log_line (clock_text h m s) level msg\<rparr>, None)"
  using assms by (rule parse_formatted)

theorem ParseLine_formatted_witness:
  "ParseLine (log_line (clock_text 17 30 5) ''WARNING'' ''disk: full'') =
    (\<lparr>le_Timestamp = clock_text 17 30 5, le_Level = ''WARN'', le_Message = ''disk: full'',
      le_Raw = log_line (clock_text 17 30 5) ''WARNING'' ''disk: full''\<rparr>, None)"
  using ParseLine_formatted [of 17 30 5 "''WARNING''" "''disk: full''"] by (simp add: levels_def level_of_def)

subsection \<open>The time filter\<close>

lemma is_digit_char: "n < 10 \<Longrightarrow> is_digit (digit_char n)"
  by (simp add: digit_char_inv)

lemma two_digits_show: "n < 100 \<Longrightarrow> two_digits [digit_char (n div 10), digit_char (n mod 10)] = Some n"
  by (simp add: two_digits_def is_digit_char dec_value_def digit_char_inv less_mult_imp_div_less)

lemma Index1_skip: "c \<notin> set pre \<Longrightarrow> Index (pre @ c # s) [c] = Some (length pre)"
  by (induction pre) (auto simp: HasPrefix_def)

lemma Index1_none: "c \<notin> set s \<Longrightarrow> Index s [c] = None"
  by (induction s) (auto simp: HasPrefix_def)

lemma Split_fuel1: "c \<notin> set pre \<Longrightarrow> Split_fuel (Suc n) (pre @ c # s) [c] = pre # Split_fuel n s [c]"
  by (simp add: Index1_skip)

lemma Split_fuel1_none: "c \<notin> set s \<Longrightarrow> Split_fuel n s [c] = [s]"
  by (cases n) (simp_all add: Index1_none)

lemma colon_free: "n < 100 \<Longrightarrow> CHR '':'' \<notin> set [digit_char (n div 10), digit_char (n mod 10)]"
  using digit_char_not [of "n div 10"] digit_char_not [of "n mod 10"] less_mult_imp_div_less [of n 10 10] by fastforce

lemma parse_clock_text:
  assumes "h < 24" and "m < 60" and "s < 60"
  shows "parse_clock (clock_text h m s) = Some (h * 3600 + m * 60 + s)"
proof -
  define dd where "dd n = [digit_char (n div 10), digit_char (n mod 10)]" for n
  have t: "clock_text h m s = dd h @ CHR '':'' # (dd m @ CHR '':'' # dd s)" by (simp add: clock_text_def dd_def)
  have c: "CHR '':'' \<notin> set (dd h)" "CHR '':'' \<notin> set (dd m)" "CHR '':'' \<notin> set (dd s)"
    unfolding dd_def by (rule colon_free, use assms in simp)+
  have "Split (clock_text h m s) '':'' = Split_fuel (Suc (Suc 6)) (clock_text h m s) '':''"
  proof -
    have "length (clock_text h m s) = Suc (Suc 6)" by (simp add: clock_text_def)
    then show ?thesis by (simp only: Split_def)
  qed
  also have "\<dots> = [dd h, dd m, dd s]"
    unfolding t by (simp only: Split_fuel1 [OF c(1)] Split_fuel1 [OF c(2)] Split_fuel1_none [OF c(3)])
  finally have "Split (clock_text h m s) '':'' = [dd h, dd m, dd s]" .
  moreover have "two_digits (dd h) = Some h" "two_digits (dd m) = Some m" "two_digits (dd s) = Some s"
    using assms by (auto simp: dd_def intro: two_digits_show)
  ultimately show ?thesis using assms by (simp add: parse_clock_def)
qed

lemma strip_clock_text:
  assumes "h < 100" and "m < 100" and "s < 100"
  shows "strip_millis (clock_text h m s) = clock_text h m s"
proof -
  have "CHR ''.'' \<notin> set (clock_text h m s)" using clock_text_chars [OF assms] not_clock_char by blast
  then show ?thesis by (simp add: strip_millis_def Contains_def Index1_none)
qed

lemma circular_interval:
  assumes "a < 86400" and "b < 86400" and "t < 86400"
  shows "in_range a b t \<longleftrightarrow> (t + 86400 - a) mod 86400 \<le> (b + 86400 - a) mod 86400"
proof -
  have m: "(x + 86400 - a) mod 86400 = (if x < a then x + 86400 - a else x - a)" if "x < 86400" for x
  proof (cases "x < a")
    case False
    then have "x + 86400 - a = x - a + 86400" by simp
    then show ?thesis using that False by (simp only: mod_add_self2) simp
  qed (use that in simp)
  show ?thesis unfolding m [OF assms(2)] m [OF assms(3)] using assms by (auto simp: in_range_def)
qed

text \<open>The time filter keeps exactly the lines whose clock time lies in the interval from start to end on
  the circle of the day, the ends included, whether or not the interval crosses midnight.\<close>

theorem FilterTimeRange_formatted:
  assumes "h < 24" and "m < 60" and "s < 60" and "level \<in> set levels" and "a < 86400" and "b < 86400"
  shows "FilterTimeRange a b [log_line (clock_text h m s) level msg] =
    (if (h * 3600 + m * 60 + s + 86400 - a) mod 86400 \<le> (b + 86400 - a) mod 86400
     then [log_line (clock_text h m s) level msg] else [])"
proof -
  have n: "h < 100" "m < 100" "s < 100" using assms by simp_all
  have "h * 3600 \<le> 23 * 3600" "m * 60 \<le> 59 * 60" using assms by simp_all
  then have "h * 3600 + m * 60 + s < 86400" using assms(3) by linarith
  from circular_interval [OF assms(5,6) this] show ?thesis
    by (simp add: FilterTimeRange_def parse_formatted [OF n assms(4)] strip_clock_text [OF n]
        parse_clock_text [OF assms(1-3)])
qed

theorem FilterTimeRange_formatted_witness:
  "FilterTimeRange 82800 3600 [log_line (clock_text 0 30 0) ''INFO'' ''night''] = [log_line (clock_text 0 30 0) ''INFO'' ''night'']"
  using FilterTimeRange_formatted [of 0 30 0 "''INFO''" 82800 3600 "''night''"] by (simp add: levels_def)

subsection \<open>Statistics\<close>

lemma succs_Word: "y \<in> set (succs (Word w) x) \<Longrightarrow> fst x = w @ fst y \<and> snd y = snd x"
proof (induction w arbitrary: x y rule: Word.induct)
  case (2 c)
  then show ?case by (cases "fst x") (auto simp: Lit_def split: if_splits)
next
  case (3 c d cs)
  from 3(2) obtain z where z: "z \<in> set (succs (Lit c) x)" "y \<in> set (succs (Word (d # cs)) z)" by auto
  from z(1) have "fst x = c # fst z \<and> snd z = snd x"
    by (cases "fst x") (auto simp: Lit_def split: if_splits)
  with 3(1) [OF z(2)] show ?case by simp
qed simp

lemma succs_level:
  assumes "y \<in> set (succs level_names x)"
  shows "\<exists>w \<in> set levels. fst x = w @ fst y \<and> snd y = snd x"
  using assms by (auto simp: level_names_def levels_def simp del: Word.simps dest!: succs_Word)

lemma succs_Sq: "y \<in> set (succs (Sq r q) x) \<longleftrightarrow> (\<exists>z \<in> set (succs r x). y \<in> set (succs q z))"
  by simp

lemma succs_Cls: "y \<in> set (succs (Cls cs) x) \<Longrightarrow> snd y = snd x"
  by (cases x; cases "fst x") (simp_all split: if_split_asm)

lemma succs_levelRegex:
  assumes "y \<in> set (succs levelRegex (s, []))"
  shows "\<exists>w \<in> set levels. map_of (snd y) 1 = Some w"
proof -
  from assms obtain x2 x3 x4 where x: "x3 \<in> set (succs (Grp 1 level_names) x2)"
      "x4 \<in> set (succs (Many (Cls spaces)) x3)" "y \<in> set (succs (Lit CHR '':'') x4)"
    unfolding levelRegex_def succs_Sq by blast
  from x(1) obtain z where z: "z \<in> set (succs level_names x2)"
      "x3 = (fst z, (1, take (length (fst x2) - length (fst z)) (fst x2)) # snd z)" by auto
  from succs_level [OF z(1)] obtain w where w: "w \<in> set levels" "fst x2 = w @ fst z" by blast
  from x(2,3) have "snd y = snd x3"
    using groupless_captures [of "Many (Cls spaces)" x4 x3] succs_Cls [of y "[CHR '':'']" x4] by (simp add: Lit_def)
  with z w show ?thesis by auto
qed

lemma level_captured: "group 1 (find_submatch levelRegex l) = Some x \<Longrightarrow> x \<in> set levels"
proof (induction l)
  case Nil
  with succs_levelRegex [of "hd (succs levelRegex ([], []))" "[]"] show ?case
    by (cases "succs levelRegex ([], [])") (auto simp: group_def)
next
  case (Cons c l)
  with succs_levelRegex [of "hd (succs levelRegex (c # l, []))" "c # l"] show ?case
    by (cases "succs levelRegex (c # l, [])") (auto simp: group_def)
qed

lemma bump_other: "k \<noteq> l \<Longrightarrow> bump l m k = m k"
  by (simp add: bump_def)

lemma fold_bump:
  "fold (\<lambda>e m. bump (le_Level e) m) es m k =
     (let n = length (filter (\<lambda>e. le_Level e = k) es) in
      if n = 0 then m k else Some ((case m k of None \<Rightarrow> 0 | Some x \<Rightarrow> x) + int n))"
  by (induction es arbitrary: m) (auto simp: bump_def Let_def)

text \<open>The statistics count, for every level, the entries of that level, and their total; they are right
  for everything the parser produces, because no parsed level is called total.\<close>

theorem Stats_of_parsed:
  "Stats (ParseLines lines) k =
     (if k = ''total'' then Some (int (length lines))
      else let n = length (FilterByLevel (ParseLines lines) k) in if n = 0 then None else Some (int n))"
proof -
  have lev: "le_Level (fst (ParseLine line)) \<noteq> ''total''" for line
    using level_captured [of line] by (auto simp: ParseLine_def Let_def levels_def split: option.splits)
  have "filter (\<lambda>e. le_Level e = ''total'') (ParseLines lines) = []"
    by (auto simp: ParseLines_def lev filter_empty_conv)
  then show ?thesis
    by (auto simp: Stats_def fold_bump FilterByLevel_def Let_def) (simp add: ParseLines_def)
qed

subsection \<open>The JSON form\<close>

definition ascii_entry :: "log_entry \<Rightarrow> bool" where
  "ascii_entry e \<longleftrightarrow> ascii (le_Timestamp e) \<and> ascii (le_Level e) \<and> ascii (le_Message e) \<and> ascii (le_Raw e)"

lemma entry_json_prefix:
  assumes "ascii_entry e" and "ascii_entry f" and "entry_json e @ r = entry_json f @ r'"
  shows "e = f \<and> r = r'"
proof -
  note p = json_string_prefix
  have a: "ascii (le_Timestamp e)" "ascii (le_Level e)" "ascii (le_Message e)" "ascii (le_Raw e)"
      "ascii (le_Timestamp f)" "ascii (le_Level f)" "ascii (le_Message f)" "ascii (le_Raw f)"
    using assms(1,2) by (simp_all add: ascii_entry_def)
  have form: "entry_json x @ q = ''{'' @ json_string ''timestamp'' @ '':'' @ json_string (le_Timestamp x) @ '','' @
      json_string ''level'' @ '':'' @ json_string (le_Level x) @ '','' @ json_string ''message'' @ '':'' @
      json_string (le_Message x) @ '','' @ json_string ''raw'' @ '':'' @ json_string (le_Raw x) @ ''}'' @ q" for x q
    by (simp add: entry_json_def json_object_def Join_Cons del: json_body.simps)
  from assms(3) have "json_string (le_Timestamp e) @ '','' @ json_string ''level'' @ '':'' @ json_string (le_Level e) @ '','' @
      json_string ''message'' @ '':'' @ json_string (le_Message e) @ '','' @ json_string ''raw'' @ '':'' @
      json_string (le_Raw e) @ ''}'' @ r =
    json_string (le_Timestamp f) @ '','' @ json_string ''level'' @ '':'' @ json_string (le_Level f) @ '','' @
      json_string ''message'' @ '':'' @ json_string (le_Message f) @ '','' @ json_string ''raw'' @ '':'' @
      json_string (le_Raw f) @ ''}'' @ r'"
    unfolding form by (simp only: same_append_eq)
  note t = p [OF a(1,5) this]
  from t have "json_string (le_Level e) @ '','' @ json_string ''message'' @ '':'' @ json_string (le_Message e) @ '','' @
      json_string ''raw'' @ '':'' @ json_string (le_Raw e) @ ''}'' @ r =
    json_string (le_Level f) @ '','' @ json_string ''message'' @ '':'' @ json_string (le_Message f) @ '','' @
      json_string ''raw'' @ '':'' @ json_string (le_Raw f) @ ''}'' @ r'" by (simp only: same_append_eq)
  note l = p [OF a(2,6) this]
  from l have "json_string (le_Message e) @ '','' @ json_string ''raw'' @ '':'' @ json_string (le_Raw e) @ ''}'' @ r =
    json_string (le_Message f) @ '','' @ json_string ''raw'' @ '':'' @ json_string (le_Raw f) @ ''}'' @ r'"
    by (simp only: same_append_eq)
  note m = p [OF a(3,7) this]
  from m have "json_string (le_Raw e) @ ''}'' @ r = json_string (le_Raw f) @ ''}'' @ r'" by (simp only: same_append_eq)
  note w = p [OF a(4,8) this]
  from t l m w show ?thesis by (cases e; cases f) simp
qed

lemma entry_json_ne [simp]: "entry_json e \<noteq> []" "hd (entry_json e @ r) = CHR ''{''"
  by (simp_all add: entry_json_def json_object_def)

lemma Join_entries:
  "\<lbrakk>\<forall>e \<in> set es. ascii_entry e; \<forall>e \<in> set fs. ascii_entry e; es \<noteq> []; fs \<noteq> [];
    Join (map entry_json es) '','' @ '']'' = Join (map entry_json fs) '','' @ '']''\<rbrakk> \<Longrightarrow> es = fs"
proof (induction es arbitrary: fs)
  case (Cons e es)
  from Cons.prems obtain f gs where fs: "fs = f # gs" by (cases fs) auto
  define tl where "tl xs = (if xs = [] then '']'' else '','' @ Join (map entry_json xs) '','' @ '']'')" for xs :: "log_entry list"
  have step: "Join (map entry_json (x # xs)) '','' @ '']'' = entry_json x @ tl xs" for x xs
    by (cases xs) (simp_all add: tl_def)
  from Cons.prems(5) have "entry_json e @ tl es = entry_json f @ tl gs" unfolding fs step .
  moreover have "ascii_entry e" "ascii_entry f" using Cons.prems(1,2) fs by simp_all
  ultimately have ef: "e = f" and t: "tl es = tl gs" using entry_json_prefix by blast+
  have "es = gs"
  proof (cases "es = [] \<or> gs = []")
    case True
    with t show ?thesis by (simp add: tl_def split: if_splits)
  next
    case False
    with t have "Join (map entry_json es) '','' @ '']'' = Join (map entry_json gs) '','' @ '']''" by (simp add: tl_def)
    with False Cons.prems(1,2) fs show ?thesis by (intro Cons.IH) simp_all
  qed
  with ef fs show ?case by simp
qed simp

text \<open>C35: The JSON output loses nothing: on ASCII entries, different lists give different documents, so
  no message can be crafted that reads like two entries or like another one.\<close>

theorem ToJSON_injective:
  assumes "\<forall>e \<in> set es. ascii_entry e" and "\<forall>e \<in> set fs. ascii_entry e" and "ToJSON es = ToJSON fs"
  shows "es = fs"
proof -
  have ne: "json_array (map entry_json xs) = ''[]'' \<longleftrightarrow> xs = []" for xs
    by (cases xs rule: list.exhaust; cases "tl xs")
      (simp_all add: json_array_def entry_json_def json_object_def)
  consider "es = [] \<or> fs = []" | "es \<noteq> []" "fs \<noteq> []" by blast
  then show ?thesis
  proof cases
    case 1
    with assms(3) ne [of es] ne [of fs] show ?thesis by (simp add: ToJSON_def split: if_splits)
  next
    case 2
    with assms(3) have "Join (map entry_json es) '','' @ '']'' = Join (map entry_json fs) '','' @ '']''"
      by (simp add: ToJSON_def json_array_def)
    with Join_entries assms(1,2) 2 show ?thesis by blast
  qed
qed

theorem ToJSON_injective_witness:
  "ToJSON [fst (ParseLine ''[17:30:00] INFO: a'')] \<noteq> ToJSON [fst (ParseLine ''[17:30:00] INFO: b'')]"
proof
  let ?e = "\<lambda>m. \<lparr>le_Timestamp = clock_text 17 30 0, le_Level = ''INFO'', le_Message = m, le_Raw = log_line (clock_text 17 30 0) ''INFO'' m\<rparr>"
  have p: "fst (ParseLine ''[17:30:00] INFO: a'') = ?e ''a''" "fst (ParseLine ''[17:30:00] INFO: b'') = ?e ''b''"
    using parse_formatted [of 17 30 0 "''INFO''" "''a''"] parse_formatted [of 17 30 0 "''INFO''" "''b''"]
    by (simp_all add: levels_def level_of_def log_line_def clock_text_def digit_char_def char_of_def bit_0)
  have "ascii_entry (?e ''a'')" "ascii_entry (?e ''b'')" by (simp_all add: ascii_entry_def) code_simp+
  moreover assume "ToJSON [fst (ParseLine ''[17:30:00] INFO: a'')] = ToJSON [fst (ParseLine ''[17:30:00] INFO: b'')]"
  ultimately have "[?e ''a''] = [?e ''b'']" unfolding p by (intro ToJSON_injective) simp_all
  then show False by simp
qed

end
