(* ===== verification/Cli.thy ===== *)
theory Cli
  imports Log_Parser
begin

text \<open>
  The command-line client: \<open>internal/cli/cli.go\<close> (the commands, over data set before) and
  \<open>cmd/cli/main.go\<close> (the request to the server, the commands' data from its answer). The request
  is what is written to the connection; \<open>answer\<close> is what the one \<open>Read\<close> of the program finds
  there, cut to the size of its buffer.
\<close>

datatype status_value = StatusBool bool | StatusString string

record cli =
  cli_logData :: "string list"
  cli_sendResp :: string
  cli_status :: "(string \<times> status_value) list"

definition NewMockCLI :: cli where
  "NewMockCLI = \<lparr>cli_logData = [], cli_sendResp = [], cli_status = []\<rparr>"

definition SetLogData :: "string list \<Rightarrow> cli \<Rightarrow> cli" where
  "SetLogData data c = c\<lparr>cli_logData := data\<rparr>"

definition SetSendResponse :: "string \<Rightarrow> cli \<Rightarrow> cli" where
  "SetSendResponse resp c = c\<lparr>cli_sendResp := resp\<rparr>"

definition SetStatus :: "(string \<times> status_value) list \<Rightarrow> cli \<Rightarrow> cli" where
  "SetStatus status c = c\<lparr>cli_status := status\<rparr>"

subsection \<open>The fields of a line\<close>

definition extractTimestamp :: "string \<Rightarrow> string" where
  "extractTimestamp line =
     (if HasPrefix line ''['' then
        (case Index line '']'' of
           None \<Rightarrow> []
         | Some e \<Rightarrow> if 0 < e then Trim1 (take (e - 1) (drop 1 line)) CHR '' '' else [])
      else [])"

definition extractLevel :: "string \<Rightarrow> string" where
  "extractLevel line =
     (case SplitN2 line '']'' of
        [_, after] \<Rightarrow>
          (let levelPart = TrimSpace after in
           if Contains levelPart '':'' then TrimSpace (hd (SplitN2 levelPart '':'')) else ''INFO'')
      | _ \<Rightarrow> ''INFO'')"

definition extractMessage :: "string \<Rightarrow> string" where
  "extractMessage line = (case SplitN2 line '': '' of [_, after] \<Rightarrow> after | _ \<Rightarrow> line)"

subsection \<open>The commands\<close>

text \<open>
  The argument loop of \<open>handleLog\<close>. The two tests are made one after the other, the second on the
  index the first has advanced, so the value of \<open>--filter\<close> may itself be read as \<open>--format\<close>.
\<close>

fun log_args :: "string list \<Rightarrow> string \<Rightarrow> string \<Rightarrow> string \<times> string" where
  "log_args [] keyword fmt = (keyword, fmt)"
| "log_args [a] keyword fmt = (keyword, fmt)"
| "log_args (a # b # rest) keyword fmt =
     (if a = ''--filter'' then
        (case rest of
           [] \<Rightarrow> (b, fmt)
         | c # rest' \<Rightarrow> if b = ''--format'' then log_args rest' b c else log_args rest b fmt)
      else if a = ''--format'' then log_args rest keyword b
      else log_args (b # rest) keyword fmt)"

definition handleLog :: "string list \<Rightarrow> cli \<Rightarrow> string" where
  "handleLog args c =
     (let (keyword, fmt) = log_args args [] ''text'';
          filtered = filter (\<lambda>line. keyword = [] \<or> Contains line keyword) (cli_logData c)
      in if fmt = ''json'' then
           (if filtered = [] then ''[]''
            else json_array (map (\<lambda>line. json_map
                   [(''timestamp'', json_string (extractTimestamp line)), (''level'', json_string (extractLevel line)),
                    (''message'', json_string (extractMessage line)), (''raw'', json_string line)]) filtered))
         else Join filtered [CHR 0x0A])"

fun send_args :: "string list \<Rightarrow> string \<Rightarrow> string" where
  "send_args [] command = command"
| "send_args [a] command = command"
| "send_args (a # b # rest) command =
     (if a = ''--command'' then send_args rest b else send_args (b # rest) command)"

definition handleSend :: "string list \<Rightarrow> cli \<Rightarrow> go_error + string" where
  "handleSend args c =
     (if send_args args [] = [] then Inl (ErrorString ''no command specified'') else Inr (cli_sendResp c))"

definition status_json :: "status_value \<Rightarrow> string" where
  "status_json v = (case v of StatusBool b \<Rightarrow> if b then ''true'' else ''false'' | StatusString s \<Rightarrow> json_string s)"

definition handleStatus :: "string list \<Rightarrow> cli \<Rightarrow> string" where
  "handleStatus args c = json_map_indent (map (apsnd status_json) (cli_status c))"

definition handleHelp :: string where
  "handleHelp = Join
     [''ShareSerial CLI - Remote Serial Port Sharing Tool'',
      '''',
      ''Commands:'',
      ''  version           Show version information'',
      ''  log [options]     Get remote serial log data'',
      ''    --filter <regex> Filter by keyword (regex)'',
      ''    --since <time>   Time range start (e.g., \"5m\")'',
      ''    --format <fmt>   Output format: text/json'',
      ''    --lines <n>      Max lines to output'',
      ''  send [options]    Send command to remote serial'',
      ''    --command <cmd>  Command to send'',
      ''    --timeout <sec>  Lock timeout (default 30)'',
      ''  status            Show connection status'',
      ''  help              Show this help message'',
      '''',
      ''Examples:'',
      ''  shareserial log --filter ERROR --since 5m'',
      ''  shareserial send --command reboot'',
      ''  shareserial status'']
     [CHR 0x0A]"

definition Execute :: "string list \<Rightarrow> cli \<Rightarrow> go_error + string" where
  "Execute args c =
     (case args of
        [] \<Rightarrow> Inl (ErrorString ''no command specified'')
      | cmd # rest \<Rightarrow>
          if cmd = ''version'' then Inr ''shareserial v1.0.0''
          else if cmd = ''log'' then Inr (handleLog rest c)
          else if cmd = ''send'' then handleSend rest c
          else if cmd = ''status'' then Inr (handleStatus rest c)
          else if cmd = ''help'' then Inr handleHelp
          else Inl (ErrorString (''unknown command: '' @ cmd)))"

subsection \<open>The program\<close>

text \<open>The loop of \<open>splitLines\<close> with \<open>cur\<close> for \<open>data[start:i]\<close>.\<close>

fun split_loop :: "string \<Rightarrow> string \<Rightarrow> string list" where
  "split_loop cur [] = (if cur = [] then [] else [cur])"
| "split_loop cur (c # s) = (if c = CHR 0x0A then cur # split_loop [] s else split_loop (cur @ [c]) s)"

definition splitLines :: "string \<Rightarrow> string list" where
  "splitLines data = split_loop [] data"

definition parseLogData :: "string \<Rightarrow> string list" where
  "parseLogData data = filter (\<lambda>line. line \<noteq> []) (splitLines data)"

definition parseStatusData :: "string \<Rightarrow> (string \<times> status_value) list" where
  "parseStatusData data = [(''connected'', StatusBool True), (''server'', StatusString data)]"

text \<open>The command that \<open>main\<close> looks for: the first one.\<close>

fun first_command :: "string list \<Rightarrow> string" where
  "first_command [] = []"
| "first_command [a] = []"
| "first_command (a # b # rest) = (if a = ''--command'' then b else first_command (b # rest))"

text \<open>What \<open>main\<close> does: the request it writes, if any, and how it ends.\<close>

datatype cli_end = Printed string | Fatal string | Failed go_error

definition cli_request :: "string list \<Rightarrow> string option" where
  "cli_request args =
     (if hd args = ''log'' then Some (''GET_LOG'' @ [CHR 0x0A])
      else if hd args = ''status'' then Some (''GET_STATUS'' @ [CHR 0x0A])
      else if hd args = ''send'' \<and> first_command args \<noteq> []
        then Some (''SEND:'' @ first_command args @ [CHR 0x0A])
      else None)"

definition cli_data :: "string list \<Rightarrow> string \<Rightarrow> cli \<Rightarrow> cli" where
  "cli_data args answer c =
     (if hd args = ''log'' then SetLogData (parseLogData (take 4096 answer)) c
      else if hd args = ''status'' then SetStatus (parseStatusData (take 1024 answer)) c
      else if hd args = ''send'' \<and> first_command args \<noteq> [] then SetSendResponse (take 1024 answer) c
      else c)"

definition cli_main :: "(string \<Rightarrow> go_error option) \<Rightarrow> string \<Rightarrow> string \<Rightarrow> bool \<Rightarrow> string list \<Rightarrow> string option \<times> cli_end" where
  "cli_main dial answer serverAddr showVersion flag_args =
     (if showVersion then (None, Printed (''shareserial v1.0.0''))
      else
        let args = (if flag_args = [] then [''help''] else flag_args);
            connects = hd args \<in> {''log'', ''status'', ''send''}
        in if connects \<and> dial serverAddr \<noteq> None then (None, Fatal ''Failed to connect to server'')
           else (if connects then cli_request args else None,
                 case Execute args (if connects then cli_data args answer NewMockCLI else NewMockCLI) of
                   Inl err \<Rightarrow> Failed err
                 | Inr result \<Rightarrow> Printed result))"

subsection \<open>Options\<close>

lemma log_args_ignored: "''--filter'' \<notin> set args \<Longrightarrow> ''--format'' \<notin> set args \<Longrightarrow> log_args args k f = (k, f)"
  by (induction args k f rule: log_args.induct) auto

text \<open>Arguments of \<open>log\<close> other than \<open>--filter\<close> and \<open>--format\<close> have no effect: \<open>--since 5m\<close> and
  \<open>--lines n\<close>, which the help text offers, return the whole log.\<close>

theorem log_options_ignored:
  assumes "''--filter'' \<notin> set args" and "''--format'' \<notin> set args"
  shows "Execute (''log'' # args) c = Inr (Join (cli_logData c) [CHR 0x0A])"
  using assms by (simp add: Execute_def handleLog_def log_args_ignored)

theorem log_options_ignored_witness:
  "Execute [''log'', ''--since'', ''5m'', ''--lines'', ''1''] (SetLogData [''a'', ''b''] NewMockCLI) = Inr ([CHR ''a'', CHR 0x0A, CHR ''b''])"
  using log_options_ignored [of "[''--since'', ''5m'', ''--lines'', ''1'']" "SetLogData [''a'', ''b''] NewMockCLI"]
  by (simp add: SetLogData_def)

subsection \<open>Lines\<close>

abbreviation nl :: char where "nl \<equiv> CHR 0x0A"

lemma split_loop_line: "nl \<notin> set s \<Longrightarrow> split_loop cur (s @ nl # t) = (cur @ s) # split_loop [] t"
  by (induction s arbitrary: cur) auto

lemma split_loop_last: "nl \<notin> set s \<Longrightarrow> split_loop cur s = (if cur @ s = [] then [] else [cur @ s])"
  by (induction s arbitrary: cur) auto

lemma split_loop_clean: "nl \<notin> set cur \<Longrightarrow> l \<in> set (split_loop cur s) \<Longrightarrow> nl \<notin> set l"
  by (induction cur s rule: split_loop.induct) (auto split: if_splits)

lemma parse_Join:
  "\<forall>l \<in> set ls. l \<noteq> [] \<and> nl \<notin> set l \<Longrightarrow> parseLogData (Join ls [nl]) = ls"
proof (induction ls)
  case (Cons l ls)
  then show ?case
    by (cases "ls = []") (auto simp: parseLogData_def splitLines_def split_loop_last split_loop_line Join_Cons)
qed (simp add: parseLogData_def splitLines_def)

lemma parseLogData_clean: "l \<in> set (parseLogData s) \<Longrightarrow> l \<noteq> [] \<and> nl \<notin> set l"
  using split_loop_clean [of "[]"] by (auto simp: parseLogData_def splitLines_def)

text \<open>The text the \<open>log\<close> command prints holds, line by line, exactly the non-empty lines of the first
  4096 bytes of the server's answer that contain the keyword, in order.\<close>

theorem log_command_lines:
  assumes "dial addr = None" and "log_args args [] ''text'' = (keyword, fmt)" and "fmt \<noteq> ''json''"
  shows "\<exists>out. cli_main dial answer addr False (''log'' # args) = (Some (''GET_LOG'' @ [nl]), Printed out) \<and>
    parseLogData out = filter (\<lambda>line. keyword = [] \<or> Contains line keyword) (parseLogData (take 4096 answer))"
proof -
  let ?ls = "filter (\<lambda>line. keyword = [] \<or> Contains line keyword) (parseLogData (take 4096 answer))"
  have "parseLogData (Join ?ls [nl]) = ?ls" by (rule parse_Join) (auto dest: parseLogData_clean)
  then show ?thesis
    using assms by (simp add: cli_main_def Execute_def handleLog_def cli_data_def cli_request_def SetLogData_def)
qed

theorem log_command_lines_witness:
  "\<exists>out. cli_main (\<lambda>_. None) (''ok'' @ [nl] @ ''bad ERROR'' @ [nl]) ''127.0.0.1:7700'' False [''log'', ''--since'', ''5m'', ''--filter'', ''ERROR''] =
      (Some (''GET_LOG'' @ [nl]), Printed out) \<and> parseLogData out = [''bad ERROR'']"
proof -
  have "filter (\<lambda>line. ''ERROR'' = [] \<or> Contains line ''ERROR'') (parseLogData (take 4096 (''ok'' @ [nl] @ ''bad ERROR'' @ [nl]))) = [''bad ERROR'']"
    by (simp add: parseLogData_def splitLines_def Contains_def HasPrefix_def)
  then show ?thesis
    using log_command_lines [of "\<lambda>_. None" "''127.0.0.1:7700''" "[''--since'', ''5m'', ''--filter'', ''ERROR'']" "''ERROR''"
      "''text''" "''ok'' @ [nl] @ ''bad ERROR'' @ [nl]"] by simp
qed

subsection \<open>Sending\<close>

lemma first_command_found: "''--command'' \<notin> set pre \<Longrightarrow> first_command (pre @ ''--command'' # cmd # post) = cmd"
proof (induction pre rule: first_command.induct)
  case (2 a)
  then show ?case by simp
qed auto

lemma send_args_skip:
  "''--command'' \<notin> set pre \<Longrightarrow> send_args (pre @ ''--command'' # cmd # post) c = send_args post cmd"
proof (induction pre c rule: send_args.induct)
  case (2 a c)
  then show ?case by simp
qed auto

lemma send_args_none: "''--command'' \<notin> set args \<Longrightarrow> send_args args c = c"
  by (induction args c rule: send_args.induct) auto

text \<open>A command given once is sent as it is, once, and what the server answered first, at most 1024
  bytes of it, is printed as the outcome, whatever it is.\<close>

theorem send_command_spec:
  assumes "dial addr = None" and "cmd \<noteq> []" and "''--command'' \<notin> set pre" and "''--command'' \<notin> set post"
  shows "cli_main dial answer addr False (''send'' # pre @ ''--command'' # cmd # post) =
    (Some (''SEND:'' @ cmd @ [nl]), Printed (take 1024 answer))"
proof -
  have "first_command (''send'' # pre @ ''--command'' # cmd # post) = cmd"
    using first_command_found [of "''send'' # pre" cmd post] assms by simp
  then show ?thesis
    using assms by (simp add: cli_main_def Execute_def handleSend_def cli_request_def cli_data_def SetSendResponse_def
        send_args_skip send_args_none del: first_command.simps)
qed

theorem send_command_spec_witness:
  "cli_main (\<lambda>_. None) ''locked'' ''s:1'' False [''send'', ''--command'', ''reboot''] = (Some (''SEND:reboot'' @ [nl]), Printed ''locked'')"
  using send_command_spec [of "\<lambda>_. None" "''s:1''" "''reboot''" "[]" "[]" "''locked''"] by simp

text \<open>With the option given twice the two readings of it part: \<open>main\<close> sends the first command, the
  command itself looks at the last one. A command that was sent can be reported as missing, and a run that
  sent nothing can be reported as a success.\<close>

theorem send_readings_part:
  "cli_main (\<lambda>_. None) answer addr False [''send'', ''--command'', ''reboot'', ''--command'', []] =
     (Some (''SEND:reboot'' @ [nl]), Failed (ErrorString ''no command specified'')) \<and>
   cli_main (\<lambda>_. None) answer addr False [''send'', ''--command'', [], ''--command'', ''reboot''] = (None, Printed [])"
  by (simp add: cli_main_def Execute_def handleSend_def cli_request_def cli_data_def SetSendResponse_def NewMockCLI_def)

subsection \<open>Agreement with the parser\<close>

lemma extractMessage_parser: "extractMessage line = le_Message (fst (ParseLine line))"
  by (simp add: extractMessage_def ParseLine_def Let_def)

text \<open>No printable ASCII character occurs in the encoding of a space.\<close>

definition plain :: "char \<Rightarrow> bool" where
  "plain c \<longleftrightarrow> 33 \<le> (of_char c :: nat) \<and> (of_char c :: nat) < 128"

lemma space_rune_chars: "r \<in> set space_runes \<Longrightarrow> c \<in> set r \<Longrightarrow> \<not> plain c"
  by (auto simp: space_runes_def chars_def plain_def)

lemma space_rune_ne: "r \<in> set space_runes \<Longrightarrow> r \<noteq> []"
  by (auto simp: space_runes_def chars_def)

lemma blank: "CHR '' '' = char_of (32 :: nat)"
  by (simp add: char_of_def bit_0)

lemma space_rune_blank: "[CHR '' ''] \<in> set space_runes" "r \<in> set space_runes \<Longrightarrow> hd r = CHR '' '' \<Longrightarrow> r = [CHR '' '']"
  unfolding blank by (auto simp: space_runes_def chars_def char_of_eq)

lemma no_leading_space:
  assumes "plain c"
  shows "leading_space (c # s) = None"
proof -
  have "\<not> HasPrefix (c # s) r" if "r \<in> set space_runes" for r
    using space_rune_chars [OF that, of c] space_rune_ne [OF that] assms by (cases r) (auto simp: HasPrefix_iff)
  then show ?thesis by (auto simp: leading_space_def find_None_iff)
qed

lemma no_trailing_space:
  assumes "plain c"
  shows "trailing_space (s @ [c]) = None"
proof -
  have "\<not> HasSuffix (s @ [c]) r" if "r \<in> set space_runes" for r
    using space_rune_chars [OF that, of c] space_rune_ne [OF that] assms
    by (cases r rule: rev_cases) (auto simp: HasSuffix_iff)
  then show ?thesis by (auto simp: trailing_space_def find_None_iff)
qed

lemma longer_suffix: "x @ s = t @ r \<Longrightarrow> \<not> length r \<le> length s \<Longrightarrow> \<exists>u. x = t @ u \<and> r = u @ s \<and> u \<noteq> []"
  by (auto simp: append_eq_append_conv2)

lemma trailing_space_after:
  assumes "trailing_space (p @ [CHR '':''] @ s) = Some r"
  shows "length r \<le> length s"
proof (rule ccontr)
  assume l: "\<not> length r \<le> length s"
  from assms have r: "r \<in> set space_runes" "HasSuffix (p @ [CHR '':''] @ s) r"
    by (auto simp: trailing_space_def find_Some_iff)
  from r(2) obtain t where "(p @ [CHR '':'']) @ s = t @ r" by (auto simp: HasSuffix_iff)
  from longer_suffix [OF this l] obtain u where u: "p @ [CHR '':''] = t @ u" "r = u @ s" "u \<noteq> []" by blast
  then have "CHR '':'' \<in> set r" by (cases u rule: rev_cases) auto
  with space_rune_chars [OF r(1) this] show False by (simp add: plain_def of_char_def)
qed

lemma trim_right_after:
  "\<exists>s'. trim_right_fuel n (p @ [CHR '':''] @ s) = p @ [CHR '':''] @ s'"
proof (induction n arbitrary: s)
  case (Suc n)
  show ?case
  proof (cases "trailing_space (p @ [CHR '':''] @ s)")
    case (Some r)
    with trailing_space_after [OF Some] have
      "take (length (p @ [CHR '':''] @ s) - length r) (p @ [CHR '':''] @ s) = p @ [CHR '':''] @ take (length s - length r) s"
      by (simp add: Suc_diff_le)
    with Suc Some show ?thesis by (simp only: trim_right_fuel.simps option.case)
  qed auto
qed auto

lemma level_plain: "l \<in> set levels \<Longrightarrow> l \<noteq> [] \<and> plain (hd l) \<and> plain (last l) \<and> CHR '':'' \<notin> set l"
proof -
  have "\<forall>l \<in> set levels. l \<noteq> [] \<and> plain (hd l) \<and> plain (last l) \<and> CHR '':'' \<notin> set l" by code_simp
  then show "l \<in> set levels \<Longrightarrow> l \<noteq> [] \<and> plain (hd l) \<and> plain (last l) \<and> CHR '':'' \<notin> set l" by blast
qed

lemma TrimSpace_levels:
  assumes "l \<in> set levels"
  shows "TrimSpace l = l"
proof -
  obtain k where k: "length l = Suc k" using level_plain [OF assms] by (cases l) auto
  have "leading_space l = None" using level_plain [OF assms] no_leading_space [of "hd l" "tl l"] by simp
  moreover have "trailing_space l = None" using level_plain [OF assms] no_trailing_space [of "last l" "butlast l"] by simp
  ultimately show ?thesis by (simp add: TrimSpace_def k)
qed

lemma TrimSpace_after_level:
  assumes "l \<in> set levels"
  shows "\<exists>s'. TrimSpace (CHR '' '' # l @ [CHR '':''] @ s) = l @ [CHR '':''] @ s'"
proof -
  let ?t = "l @ [CHR '':''] @ s"
  have none: "leading_space ?t = None"
    using level_plain [OF assms] no_leading_space [of "hd l" "tl l @ [CHR '':''] @ s"] by (cases l) auto
  have "HasPrefix (CHR '' '' # ?t) r \<longleftrightarrow> r = [CHR '' '']" if "r \<in> set space_runes" for r
    using space_rune_blank(2) [OF that] space_rune_ne [OF that] by (cases r) (auto simp: HasPrefix_def)
  then have lead: "leading_space (CHR '' '' # ?t) = Some [CHR '' '']"
    using space_rune_blank(1) find_Some_iff [of "HasPrefix (CHR '' '' # ?t)" space_runes]
      find_None_iff [of "HasPrefix (CHR '' '' # ?t)" space_runes]
    unfolding leading_space_def
    by (cases "List.find (HasPrefix (CHR '' '' # ?t)) space_runes") (metis nth_mem option.distinct(1))+
  obtain k where k: "length (CHR '' '' # ?t) = Suc (Suc k)" by simp
  have "trim_left_fuel (Suc (Suc k)) (CHR '' '' # ?t) = ?t"
    unfolding trim_left_fuel.simps lead using none by simp
  then have "TrimSpace (CHR '' '' # ?t) = trim_right_fuel (length ?t) ?t" unfolding TrimSpace_def k Let_def by (simp only:)
  then show ?thesis using trim_right_after [of "length ?t" l s] by (simp only:)
qed

text \<open>C37: On a line in the documented format the command line and the log parser read the same time and
  message; the level is the same too, except that the command line leaves \<open>WARNING\<close> as it is.\<close>

theorem cli_agrees_with_parser:
  assumes "h < 100" and "m < 100" and "s < 100" and "level \<in> set levels"
  shows "let line = log_line (clock_text h m s) level msg; e = fst (ParseLine line) in
    extractTimestamp line = le_Timestamp e \<and> extractMessage line = le_Message e \<and>
    level_of (extractLevel line) = le_Level e \<and> extractLevel line = level"
proof -
  let ?ts = "clock_text h m s" and ?line = "log_line (clock_text h m s) level msg"
  have c: "CHR '']'' \<notin> set (''['' @ ?ts)" "CHR '' '' \<notin> set ?ts"
    using clock_text_chars [OF assms(1-3)] not_clock_char by auto
  have line: "?line = (''['' @ ?ts) @ CHR '']'' # ('' '' @ level @ [CHR '':''] @ '' '' @ msg)" by (simp add: log_line_def)
  have i: "Index ?line '']'' = Some (length (''['' @ ?ts))" unfolding line by (rule Index1_skip [OF c(1)])
  have dw: "dropWhile (\<lambda>x. x = CHR '' '') xs = xs" if "CHR '' '' \<notin> set xs" for xs
    using that by (cases xs) auto
  have "HasPrefix ?line ''[''" by (simp add: log_line_def HasPrefix_def)
  moreover have "take (length ?ts) (drop 1 ?line) = ?ts" by (simp add: log_line_def)
  ultimately have t: "extractTimestamp ?line = ?ts"
    using c(2) unfolding extractTimestamp_def i by (simp add: Trim1_def dw)
  have sp: "SplitN2 ?line '']'' = [''['' @ ?ts, CHR '' '' # level @ [CHR '':''] @ '' '' @ msg]"
    unfolding SplitN2_def i by (simp add: log_line_def)
  obtain s' where s': "TrimSpace (CHR '' '' # level @ [CHR '':''] @ '' '' @ msg) = level @ [CHR '':''] @ s'"
    using TrimSpace_after_level [OF assms(4)] by blast
  have "CHR '':'' \<notin> set level" using assms(4) by (auto simp: levels_def)
  then have ix: "Index (level @ [CHR '':''] @ s') [CHR '':''] = Some (length level)" using Index1_skip by simp
  have "Contains (level @ [CHR '':''] @ s') [CHR '':'']" unfolding Contains_def ix by simp
  moreover have "hd (SplitN2 (level @ [CHR '':''] @ s') [CHR '':'']) = level" unfolding SplitN2_def ix by simp
  ultimately have "extractLevel ?line = level"
    unfolding extractLevel_def sp list.case s' Let_def using TrimSpace_levels [OF assms(4)] by simp
  with t show ?thesis by (simp add: extractMessage_parser parse_formatted [OF assms] Let_def)
qed

theorem cli_agrees_with_parser_witness:
  "extractLevel (log_line (clock_text 17 30 5) ''WARNING'' ''disk: full'') = ''WARNING'' \<and>
   le_Level (fst (ParseLine (log_line (clock_text 17 30 5) ''WARNING'' ''disk: full''))) = ''WARN''"
proof -
  let ?line = "log_line (clock_text 17 30 5) ''WARNING'' ''disk: full''"
  have "''WARNING'' \<in> set levels" "(17 :: nat) < 100" "(30 :: nat) < 100" "(5 :: nat) < 100" by (simp_all add: levels_def)
  with cli_agrees_with_parser [of 17 30 5 "''WARNING''" "''disk: full''"]
  have "level_of (extractLevel ?line) = le_Level (fst (ParseLine ?line))" "extractLevel ?line = ''WARNING''"
    unfolding Let_def by blast+
  moreover have "level_of ''WARNING'' = ''WARN''" by (simp add: level_of_def)
  ultimately show ?thesis by metis
qed

end
