(* ===== verification/Go_Float.thy ===== *)
theory Go_Float
  imports Go_Strings "HOL-Library.Log_Nat"
begin

text \<open>
  The part of float64 that the program computes with: conversions of counts, one division and one
  product, all of them zero or far inside the range of normal numbers, so that a number is a rational
  and an operation rounds its exact result to 53 bits, to nearest and ties to even. Below it, the
  formats \<open>%.2f\<close> and the shortest decimal that \<open>encoding/json\<close> writes.

  The lemmas say that rounding never crosses a number of the format, which gives the bounds of the
  pass rate.
\<close>

definition round_even :: "rat \<Rightarrow> int" where
  "round_even x =
     (let f = \<lfloor>x\<rfloor>; d = x - of_int f in
      if d < 1 / 2 \<or> (d = 1 / 2 \<and> even f) then f else f + 1)"

text \<open>The binary exponent of a positive number.\<close>

definition float_exp :: "rat \<Rightarrow> int" where
  "float_exp x =
     (let (n, d) = quotient_of x; k = int (floorlog 2 (nat n)) - int (floorlog 2 (nat d))
      in if 2 powi k \<le> x then k else k - 1)"

definition fl :: "rat \<Rightarrow> rat" where
  "fl x = (if x = 0 then 0 else let u = 2 powi (float_exp x - 52) in of_int (round_even (x / u)) * u)"

text \<open>\<open>float64(n)\<close>, \<open>x / y\<close> and \<open>x * y\<close>.\<close>

definition float_of_nat :: "nat \<Rightarrow> rat" where
  "float_of_nat n = fl (of_nat n)"

definition float_div :: "rat \<Rightarrow> rat \<Rightarrow> rat" where
  "float_div x y = fl (x / y)"

definition float_mult :: "rat \<Rightarrow> rat \<Rightarrow> rat" where
  "float_mult x y = fl (x * y)"

subsection \<open>Rounding to an integer\<close>

lemma round_even_bounds: "round_even x = \<lfloor>x\<rfloor> \<or> round_even x = \<lfloor>x\<rfloor> + 1 \<and> of_int \<lfloor>x\<rfloor> + 1 / 2 \<le> x"
  by (auto simp: round_even_def Let_def)

lemma round_even_le: "x < of_int k + 1 / 2 \<Longrightarrow> round_even x \<le> k"
  using round_even_bounds [of x] by linarith

lemma round_even_ge: "of_int k - 1 / 2 < x \<Longrightarrow> k \<le> round_even x"
proof -
  assume a: "of_int k - 1 / 2 < x"
  have fl: "x < of_int \<lfloor>x\<rfloor> + 1" by linarith
  with a have "k - 1 < \<lfloor>x\<rfloor> + 1" by linarith
  then consider "k \<le> \<lfloor>x\<rfloor>" | "\<lfloor>x\<rfloor> = k - 1" by linarith
  then show ?thesis
  proof cases
    case 1
    then show ?thesis using round_even_bounds [of x] by auto
  next
    case 2
    with a have "\<not> x - of_int \<lfloor>x\<rfloor> \<le> 1 / 2" by simp
    with 2 show ?thesis by (auto simp: round_even_def Let_def)
  qed
qed

lemma round_even_int [simp]: "round_even (of_int k) = k"
  by (simp add: round_even_def)

subsection \<open>Rounding to the format\<close>

lemma floorlog_bounds: "0 < n \<Longrightarrow> 2 ^ (floorlog 2 n - 1) \<le> n \<and> n < 2 ^ floorlog 2 n \<and> 0 < floorlog 2 n"
  using floorlog_bounds [of n 2] by (simp add: floorlog_def)

lemma float_exp_bounds:
  assumes "0 < x"
  shows "2 powi (float_exp x) \<le> x" and "x < 2 powi (float_exp x + 1)"
proof -
  obtain n d where q: "quotient_of x = (n, d)" by fastforce
  have d: "0 < d" using quotient_of_denom_pos [OF q] .
  have x: "x = of_int n / of_int d" using quotient_of_div [OF q] .
  have n: "0 < n" using assms d unfolding x by (simp add: zero_less_divide_iff)
  let ?a = "floorlog 2 (nat n)" and ?b = "floorlog 2 (nat d)"
  have a: "2 ^ (?a - 1) \<le> nat n" "nat n < 2 ^ ?a" "0 < ?a" using floorlog_bounds [of "nat n"] n by auto
  have b: "2 ^ (?b - 1) \<le> nat d" "nat d < 2 ^ ?b" "0 < ?b" using floorlog_bounds [of "nat d"] d by auto
  have ra: "(2 :: rat) ^ (?a - 1) \<le> of_int n" "of_int n < (2 :: rat) ^ ?a"
    using a(1,2) n by (simp_all add: nat_less_iff le_nat_iff)
  have rb: "(2 :: rat) ^ (?b - 1) \<le> of_int d" "of_int d < (2 :: rat) ^ ?b"
    using b(1,2) d by (simp_all add: nat_less_iff le_nat_iff)
  define k where "k = int ?a - int ?b"
  have p: "(2 :: rat) powi (k + 1) = 2 ^ ?a / 2 ^ (?b - 1)" "(2 :: rat) powi (k - 1) = 2 ^ (?a - 1) / 2 ^ ?b"
    using a(3) b(3) by (simp_all add: k_def power_int_diff power_int_add field_simps flip: power_int_of_nat power_Suc)
  have "x < 2 powi (k + 1)" unfolding x p
    using ra rb n d by (intro frac_less) auto
  moreover have "2 powi (k - 1) \<le> x" unfolding x p
    using ra rb n d by (intro frac_le) auto
  moreover have "float_exp x = (if 2 powi k \<le> x then k else k - 1)"
    by (simp add: float_exp_def q k_def Let_def)
  ultimately show "2 powi (float_exp x) \<le> x" "x < 2 powi (float_exp x + 1)" by auto
qed

text \<open>Rounding does not cross a number of the format, \<open>m * 2 powi j\<close> with \<open>m \<le> 2 ^ 53\<close>.\<close>

lemma powi_pos [simp]: "0 < (2 :: rat) powi i"
  by (simp add: zero_less_power_int)

lemma in_units:
  assumes "i \<le> j"
  shows "of_int m * (2 :: rat) powi j = of_int (m * 2 ^ nat (j - i)) * 2 powi i"
proof -
  have "(2 :: rat) powi j = 2 powi (j - i) * 2 powi i" by (simp add: power_int_diff)
  also have "(2 :: rat) powi (j - i) = 2 ^ nat (j - i)" using assms by (simp add: power_int_def)
  finally show ?thesis by simp
qed

lemma small_below:
  assumes "m \<le> 2 ^ 53" and "j < e - 52"
  shows "of_int m * (2 :: rat) powi j \<le> 2 powi e"
proof (cases "0 \<le> m")
  case True
  have "of_int m \<le> (of_int (2 ^ 53) :: rat)" using assms(1) by (simp only: of_int_le_iff)
  then have "of_int m * (2 :: rat) powi j \<le> 2 powi 53 * 2 powi (e - 53)"
    using assms(2) True by (intro mult_mono power_int_increasing) (simp_all add: power_int_def)
  also have "\<dots> = 2 powi e" using power_int_add [of "2 :: rat" 53 "e - 53"] by simp
  finally show ?thesis .
next
  case False
  then have "of_int m * (2 :: rat) powi j \<le> 0" by (simp add: mult_nonpos_nonneg)
  then show ?thesis using powi_pos [of e] by linarith
qed

lemma unit_52: "(2 :: rat) powi e = of_int (2 ^ 52) * 2 powi (e - 52)"
  using in_units [of "e - 52" e 1] by simp

lemma fl_pos: "x \<noteq> 0 \<Longrightarrow> fl x = of_int (round_even (x / 2 powi (float_exp x - 52))) * 2 powi (float_exp x - 52)"
  by (simp add: fl_def Let_def)

lemma fl_le_units: "0 < x \<Longrightarrow> x \<le> of_int k * 2 powi (float_exp x - 52) \<Longrightarrow> fl x \<le> of_int k * 2 powi (float_exp x - 52)"
proof -
  let ?u = "(2 :: rat) powi (float_exp x - 52)"
  assume "0 < x" and "x \<le> of_int k * ?u"
  then have "x / ?u \<le> of_int k" by (simp add: field_simps)
  then have "round_even (x / ?u) \<le> k" by (intro round_even_le) linarith
  then have "(of_int (round_even (x / ?u)) :: rat) \<le> of_int k" by (simp only: of_int_le_iff)
  with \<open>0 < x\<close> show ?thesis by (simp add: fl_pos)
qed

lemma fl_ge_units: "0 < x \<Longrightarrow> of_int k * 2 powi (float_exp x - 52) \<le> x \<Longrightarrow> of_int k * 2 powi (float_exp x - 52) \<le> fl x"
proof -
  let ?u = "(2 :: rat) powi (float_exp x - 52)"
  assume "0 < x" and "of_int k * ?u \<le> x"
  then have "of_int k \<le> x / ?u" by (simp add: field_simps)
  then have "k \<le> round_even (x / ?u)" by (intro round_even_ge) linarith
  then have "(of_int k :: rat) \<le> of_int (round_even (x / ?u))" by (simp only: of_int_le_iff)
  with \<open>0 < x\<close> show ?thesis by (simp add: fl_pos)
qed

lemma fl_upper:
  assumes "0 < x" and "x \<le> of_int m * 2 powi j" and "m \<le> 2 ^ 53"
  shows "fl x \<le> of_int m * 2 powi j"
proof (cases "float_exp x - 52 \<le> j")
  case True
  show ?thesis using fl_le_units [OF assms(1)] assms(2) unfolding in_units [OF True] by blast
next
  case False
  then have "x \<le> 2 powi float_exp x" using small_below [OF assms(3), of j "float_exp x"] assms(2) by linarith
  then have "fl x \<le> 2 powi float_exp x" using fl_le_units [OF assms(1), of "2 ^ 52"] unfolding unit_52 [symmetric] by blast
  with float_exp_bounds(1) [OF assms(1)] assms(2) show ?thesis by linarith
qed

lemma fl_lower:
  assumes "0 < x" and "of_int m * 2 powi j \<le> x" and "m \<le> 2 ^ 53"
  shows "of_int m * 2 powi j \<le> fl x"
proof (cases "float_exp x - 52 \<le> j")
  case True
  show ?thesis using fl_ge_units [OF assms(1)] assms(2) unfolding in_units [OF True] by blast
next
  case False
  have "2 powi float_exp x \<le> fl x"
    using fl_ge_units [OF assms(1), of "2 ^ 52"] float_exp_bounds(1) [OF assms(1)] unfolding unit_52 [symmetric] by simp
  with small_below [OF assms(3), of j "float_exp x"] False show ?thesis by linarith
qed

lemma fl_exact: "0 < m \<Longrightarrow> m \<le> 2 ^ 53 \<Longrightarrow> fl (of_int m * 2 powi j) = of_int m * 2 powi j"
  by (intro antisym fl_upper fl_lower) (simp_all add: mult_pos_pos)

lemma fl_0 [simp]: "fl 0 = 0"
  by (simp add: fl_def)

lemma float_of_nat_exact: "n \<le> 2 ^ 53 \<Longrightarrow> float_of_nat n = of_nat n"
proof (cases "n = 0")
  case False
  assume "n \<le> 2 ^ 53"
  then have "int n \<le> 2 ^ 53" using of_nat_mono [of n "2 ^ 53", where 'a = int] by simp
  then have "fl (of_int (int n) * 2 powi 0) = of_int (int n) * 2 powi 0"
    using False by (intro fl_exact) simp_all
  then show ?thesis by (simp add: float_of_nat_def)
qed (simp add: float_of_nat_def)

subsection \<open>Output\<close>

text \<open>\<open>%.2f\<close> of a number that is not negative.\<close>

definition format_2f :: "rat \<Rightarrow> string" where
  "format_2f x =
     (let c = nat (round_even (x * 100)) in
      show_nat (c div 100) @ ''.'' @ [digit_char (c div 10 mod 10), digit_char (c mod 10)])"

text \<open>
  \<open>strconv.FormatFloat(x, 'f', -1, 64)\<close> of a number that is not negative: the fewest decimals that
  read back as the number. Thirty are enough for the numbers above \<open>10 powi -6\<close> that are written so.
\<close>

fun pad_zeros :: "nat \<Rightarrow> string \<Rightarrow> string" where
  "pad_zeros k s = replicate (k - length s) CHR ''0'' @ s"

definition decimals :: "rat \<Rightarrow> nat \<Rightarrow> string" where
  "decimals x k =
     (let c = nat (round_even (x * 10 ^ k)) in
      if k = 0 then show_nat c else show_nat (c div 10 ^ k) @ ''.'' @ pad_zeros k (show_nat (c mod 10 ^ k)))"

fun shortest_from :: "nat \<Rightarrow> nat \<Rightarrow> rat \<Rightarrow> string" where
  "shortest_from 0 k x = decimals x k"
| "shortest_from (Suc n) k x =
     (if fl (of_int (round_even (x * 10 ^ k)) / 10 ^ k) = x then decimals x k else shortest_from n (Suc k) x)"

definition format_float :: "rat \<Rightarrow> string" where
  "format_float x = shortest_from 30 0 x"

end
