(* ===== verification/Report_Gen.thy ===== *)
theory Report_Gen
  imports Go_Base Go_Float "HOL-Library.Sublist"
begin

text \<open>
  The report generator, \<open>cmd/report-generator/main.go\<close>: reading the output of \<open>go test -v\<close> into a
  suite, and the report over the three log files. The file system is a parameter: \<open>stat\<close> says which
  log files exist, \<open>read_file\<close> gives their contents, \<open>bin_dir\<close> the entries of the \<open>bin\<close> directory,
  \<open>now\<close> the formatted time. The pass rate is computed in float64 (\<open>Go_Float\<close>); the output formats
  are in \<open>Report_Output\<close>.
\<close>

record test_case =
  tc_Name :: string
  tc_Status :: string
  tc_Duration :: string
  tc_Message :: string

record test_suite =
  su_Name :: string
  su_Package :: string
  su_TotalTests :: nat
  su_PassedTests :: nat
  su_FailedTests :: nat
  su_SkippedTests :: nat
  su_Duration :: string
  su_TestCases :: "test_case list"
  su_Status :: string

record test_summary =
  sm_TotalTests :: nat
  sm_PassedTests :: nat
  sm_FailedTests :: nat
  sm_SkippedTests :: nat
  sm_PassRate :: rat
  sm_Duration :: string
  sm_Status :: string

record build_info =
  bi_Name :: string
  bi_Path :: string
  bi_Size :: int
  bi_Modified :: string

record environment =
  en_OS :: string
  en_Arch :: string
  en_Hostname :: string
  en_Socat :: string

record test_report =
  re_Timestamp :: string
  re_GitCommit :: string
  re_GitBranch :: string
  re_GoVersion :: string
  re_Summary :: test_summary
  re_TestSuites :: "test_suite list"
  re_BuildArtifacts :: "build_info list"
  re_Environment :: environment

definition extractDuration :: "string \<Rightarrow> string" where
  "extractDuration line =
     (case (Index line ''('', Index line '')'') of
        (Some i, Some j) \<Rightarrow> if i < j then take (j - (i + 1)) (drop (i + 1) line) else ''0s''
      | _ \<Rightarrow> ''0s'')"

text \<open>\<open>suite.TestCases[len(suite.TestCases)-1].Status = ...\<close>: the last case; none is a panic.\<close>

definition set_last :: "string \<Rightarrow> string \<Rightarrow> test_suite \<Rightarrow> go_panic + test_suite" where
  "set_last status line suite =
     (if su_TestCases suite = [] then Inl IndexOutOfRange
      else Inr (suite\<lparr>su_TestCases := butlast (su_TestCases suite) @
             [(last (su_TestCases suite))\<lparr>tc_Status := status, tc_Duration := extractDuration line\<rparr>]\<rparr>))"

definition parse_line :: "string \<Rightarrow> test_suite \<Rightarrow> go_panic + test_suite" where
  "parse_line line suite =
     (if HasPrefix line ''=== RUN'' then
        Inr (suite\<lparr>su_TestCases := su_TestCases suite @
               [\<lparr>tc_Name = TrimPrefix line ''=== RUN   '', tc_Status = ''RUNNING'', tc_Duration = [], tc_Message = []\<rparr>],
             su_TotalTests := su_TotalTests suite + 1\<rparr>)
      else if HasPrefix line ''--- PASS'' then
        map_sum id (\<lambda>s. s\<lparr>su_PassedTests := su_PassedTests s + 1\<rparr>) (set_last ''PASS'' line suite)
      else if HasPrefix line ''--- FAIL'' then
        map_sum id (\<lambda>s. s\<lparr>su_FailedTests := su_FailedTests s + 1\<rparr>) (set_last ''FAIL'' line suite)
      else if HasPrefix line ''--- SKIP'' then
        map_sum id (\<lambda>s. s\<lparr>su_SkippedTests := su_SkippedTests s + 1\<rparr>) (set_last ''SKIP'' line suite)
      else if HasPrefix line ''FAIL'' then
        Inr (suite\<lparr>su_Status := ''FAIL'', su_Name := TrimSpace (TrimPrefix line ''FAIL'')\<rparr>)
      else if HasPrefix line ''PASS'' then
        Inr (suite\<lparr>su_Status := ''PASS'', su_Name := TrimSpace (TrimPrefix line ''PASS'')\<rparr>)
      else Inr suite)"

fun parse_lines :: "string list \<Rightarrow> test_suite \<Rightarrow> go_panic + test_suite" where
  "parse_lines [] suite = Inr suite"
| "parse_lines (line # rest) suite =
     (case parse_line line suite of Inl p \<Rightarrow> Inl p | Inr suite' \<Rightarrow> parse_lines rest suite')"

definition new_suite :: "string \<Rightarrow> test_suite" where
  "new_suite base =
     \<lparr>su_Name = [], su_Package = TrimSuffix base ''.log'', su_TotalTests = 0, su_PassedTests = 0,
      su_FailedTests = 0, su_SkippedTests = 0, su_Duration = [], su_TestCases = [], su_Status = []\<rparr>"

definition ParseTestLog :: "string \<Rightarrow> go_error + string \<Rightarrow> go_panic + (go_error + test_suite)" where
  "ParseTestLog base file =
     (case file of
        Inl err \<Rightarrow> Inr (Inl err)
      | Inr content \<Rightarrow> map_sum id Inr (parse_lines (Split content [CHR 0x0A]) (new_suite base)))"

subsection \<open>The report\<close>

definition log_files :: "string list" where
  "log_files = [''unit_test_output.log'', ''e2e_test_output.log'', ''simulation_test_output.log'']"

definition to_upper :: "char \<Rightarrow> char" where
  "to_upper c = (if 97 \<le> (of_char c :: nat) \<and> (of_char c :: nat) \<le> 122 then char_of (of_char c - (32 :: nat)) else c)"

definition suite_name :: "string \<Rightarrow> string" where
  "suite_name logFile =
     (let n = Replace1 (Replace1 logFile ''_output.log'' []) ''_test'' [] in map to_upper (take 1 n) @ drop 1 n)"

definition add_suite :: "test_suite \<Rightarrow> test_summary \<Rightarrow> test_summary" where
  "add_suite suite m =
     m\<lparr>sm_TotalTests := sm_TotalTests m + su_TotalTests suite, sm_PassedTests := sm_PassedTests m + su_PassedTests suite,
       sm_FailedTests := sm_FailedTests m + su_FailedTests suite,
       sm_SkippedTests := sm_SkippedTests m + su_SkippedTests suite\<rparr>"

fun collect ::
    "(string \<Rightarrow> bool) \<Rightarrow> (string \<Rightarrow> go_error + string) \<Rightarrow> string list \<Rightarrow> test_suite list \<times> test_summary \<Rightarrow>
     go_panic + (test_suite list \<times> test_summary)" where
  "collect stat read_file [] acc = Inr acc"
| "collect stat read_file (f # fs) (suites, m) =
     (if \<not> stat f then collect stat read_file fs (suites, m)
      else case ParseTestLog f (read_file f) of
             Inl p \<Rightarrow> Inl p
           | Inr (Inl err) \<Rightarrow> collect stat read_file fs (suites, m)
           | Inr (Inr suite) \<Rightarrow>
               collect stat read_file fs (suites @ [suite\<lparr>su_Name := suite_name f\<rparr>], add_suite suite m))"

definition overall_status :: "test_summary \<Rightarrow> string" where
  "overall_status m =
     (if sm_FailedTests m = 0 then if 0 < sm_PassedTests m then ''passed'' else ''no_tests''
      else if sm_FailedTests m < sm_PassedTests m then ''partial'' else ''failed'')"

definition artifacts :: "(string \<times> bool \<times> int \<times> string) list option \<Rightarrow> build_info list" where
  "artifacts bin_dir =
     (case bin_dir of
        None \<Rightarrow> []
      | Some files \<Rightarrow>
          map (\<lambda>(name, dir, size, modified). \<lparr>bi_Name = name, bi_Path = ''bin/'' @ name, bi_Size = size, bi_Modified = modified\<rparr>)
            (filter (\<lambda>(name, dir, size, modified). \<not> dir) files))"

text \<open>\<open>float64(PassedTests) / float64(TotalTests) * 100\<close>, and 0 without tests.\<close>

definition pass_rate :: "nat \<Rightarrow> nat \<Rightarrow> rat" where
  "pass_rate passed tests =
     (if 0 < tests then float_mult (float_div (float_of_nat passed) (float_of_nat tests)) 100 else 0)"

definition empty_summary :: test_summary where
  "empty_summary = \<lparr>sm_TotalTests = 0, sm_PassedTests = 0, sm_FailedTests = 0, sm_SkippedTests = 0,
     sm_PassRate = 0, sm_Duration = [], sm_Status = []\<rparr>"

definition getGitCommit :: string where "getGitCommit = ''N/A''"
definition getGitBranch :: string where "getGitBranch = ''main''"
definition getGoVersion :: string where "getGoVersion = ''go1.21''"

definition getEnvironment :: environment where
  "getEnvironment = \<lparr>en_OS = ''linux'', en_Arch = ''amd64'', en_Hostname = ''localhost'', en_Socat = ''installed''\<rparr>"

definition GenerateReport ::
    "string \<Rightarrow> (string \<Rightarrow> bool) \<Rightarrow> (string \<Rightarrow> go_error + string) \<Rightarrow> (string \<times> bool \<times> int \<times> string) list option \<Rightarrow>
     go_panic + test_report" where
  "GenerateReport now stat read_file bin_dir =
     (case collect stat read_file log_files ([], empty_summary) of
        Inl p \<Rightarrow> Inl p
      | Inr (suites, m) \<Rightarrow>
          Inr \<lparr>re_Timestamp = now, re_GitCommit = getGitCommit, re_GitBranch = getGitBranch, re_GoVersion = getGoVersion,
            re_Summary = m\<lparr>sm_PassRate := pass_rate (sm_PassedTests m) (sm_TotalTests m), sm_Status := overall_status m\<rparr>,
            re_TestSuites = suites, re_BuildArtifacts = artifacts bin_dir, re_Environment = getEnvironment\<rparr>)"

subsection \<open>What the counts mean\<close>











text \<open>The log of a failing test with one subtest.\<close>

definition subtest_log :: string where
  "subtest_log = Join [''=== RUN   TestA'', ''=== RUN   TestA/sub'', ''--- FAIL: TestA (0.10s)'', ''    --- PASS: TestA/sub (0.05s)'', ''FAIL'']
     [CHR 0x0A]"

text \<open>The outcome is credited to the test that was started last, so the result of a test with a
  subtest goes to the subtest: the log of a failing parent shows the subtest failed, the parent running
  for ever, and one result for two tests.\<close>

theorem outcome_goes_to_subtest:
  "\<exists>suite. ParseTestLog ''unit_test_output.log'' (Inr subtest_log) = Inr (Inr suite) \<and>
     su_TotalTests suite = 2 \<and> su_PassedTests suite = 0 \<and> su_FailedTests suite = 1 \<and>
     map (\<lambda>c. (tc_Name c, tc_Status c)) (su_TestCases suite) = [(''TestA'', ''RUNNING''), (''TestA/sub'', ''FAIL'')]"
proof -
  have "Split subtest_log [CHR 0x0A] = [''=== RUN   TestA'', ''=== RUN   TestA/sub'', ''--- FAIL: TestA (0.10s)'', ''    --- PASS: TestA/sub (0.05s)'', ''FAIL'']"
    by code_simp
  then show ?thesis
    by (simp add: ParseTestLog_def parse_line_def HasPrefix_def set_last_def new_suite_def TrimPrefix_def)
qed

subsection \<open>The totals\<close>

definition summary_sums :: "test_suite list \<Rightarrow> test_summary \<Rightarrow> bool" where
  "summary_sums suites m \<longleftrightarrow>
     sm_TotalTests m = sum_list (map su_TotalTests suites) \<and>
     sm_PassedTests m = sum_list (map su_PassedTests suites) \<and>
     sm_FailedTests m = sum_list (map su_FailedTests suites) \<and>
     sm_SkippedTests m = sum_list (map su_SkippedTests suites)"

lemma collect_sums:
  "collect stat rd fs (suites, m) = Inr (suites', m') \<Longrightarrow> summary_sums suites m \<Longrightarrow> summary_sums suites' m'"
proof (induction fs arbitrary: suites m)
  case (Cons f fs)
  show ?case
  proof (cases "ParseTestLog f (rd f)")
    case (Inl p)
    with Cons show ?thesis by (auto split: if_splits)
  next
    case (Inr r)
    with Cons show ?thesis
      by (cases r) (auto simp: summary_sums_def add_suite_def split: if_splits)
  qed
qed simp

lemma collect_names:
  "collect stat rd fs (suites, m) = Inr (suites', m') \<Longrightarrow>
     subseq (map su_Name suites') (map su_Name suites @ map suite_name fs)"
proof (induction fs arbitrary: suites m)
  case (Cons f fs)
  have skip: "subseq (map su_Name suites @ map suite_name fs) (map su_Name suites @ map suite_name (f # fs))"
    by (simp add: subseq_append_iff) (rule exI [of _ "map su_Name suites"], auto)
  show ?case
  proof (cases "ParseTestLog f (rd f)")
    case (Inl p)
    with Cons skip show ?thesis by (auto split: if_splits intro: subseq_order.order_trans)
  next
    case (Inr r)
    with Cons skip show ?thesis
      by (cases r) (auto split: if_splits intro: subseq_order.order_trans dest!: Cons.IH)
  qed
qed simp

text \<open>The summary is the sum of the suites, each log file gives at most one suite, in a fixed order, and
  the report passes exactly when no suite counts a failure and some suite counts a pass - tests that never
  finished are not counted against it.\<close>

theorem GenerateReport_spec:
  assumes "GenerateReport now stat rd bin_dir = Inr r"
  shows "summary_sums (re_TestSuites r) (re_Summary r) \<and>
    subseq (map su_Name (re_TestSuites r)) [''Unit'', ''E2e'', ''Simulation''] \<and>
    (sm_Status (re_Summary r) = ''passed'' \<longleftrightarrow>
       (\<forall>s \<in> set (re_TestSuites r). su_FailedTests s = 0) \<and> (\<exists>s \<in> set (re_TestSuites r). 0 < su_PassedTests s))"
proof -
  obtain suites m where c: "collect stat rd log_files ([], empty_summary) = Inr (suites, m)"
    and r: "re_Summary r = m\<lparr>sm_PassRate := pass_rate (sm_PassedTests m) (sm_TotalTests m), sm_Status := overall_status m\<rparr>"
      "re_TestSuites r = suites"
    using assms by (auto simp: GenerateReport_def split: sum.splits)
  have s: "summary_sums suites m" by (rule collect_sums [OF c]) (simp add: summary_sums_def empty_summary_def)
  have "map suite_name log_files = [''Unit'', ''E2e'', ''Simulation'']" by code_simp
  with collect_names [OF c] have n: "subseq (map su_Name suites) [''Unit'', ''E2e'', ''Simulation'']" by simp
  have "sm_Status (re_Summary r) = ''passed'' \<longleftrightarrow> sm_FailedTests m = 0 \<and> 0 < sm_PassedTests m"
    by (simp add: r overall_status_def)
  also have "\<dots> \<longleftrightarrow> (\<forall>s \<in> set suites. su_FailedTests s = 0) \<and> (\<exists>s \<in> set suites. 0 < su_PassedTests s)"
  proof -
    have "0 < sum_list (map su_PassedTests suites) \<longleftrightarrow> (\<exists>s \<in> set suites. 0 < su_PassedTests s)"
      by (induction suites) auto
    then show ?thesis using s by (auto simp: summary_sums_def)
  qed
  finally show ?thesis using s n by (simp add: r summary_sums_def)
qed

theorem GenerateReport_spec_witness:
  "\<exists>r. GenerateReport ''2024-01-01 00:00:00'' (\<lambda>f. f = ''e2e_test_output.log'') (\<lambda>_. Inr ''PASS'') None = Inr r \<and> sm_Status (re_Summary r) \<noteq> ''passed''"
proof -
  have sp: "Split ''PASS'' [CHR 0x0A] = [''PASS'']" by code_simp
  let ?g = "GenerateReport ''2024-01-01 00:00:00'' (\<lambda>f. f = ''e2e_test_output.log'') (\<lambda>_. Inr ''PASS'') None"
  obtain r where r: "?g = Inr r" and s: "map su_PassedTests (re_TestSuites r) = [0]"
    by (simp add: GenerateReport_def log_files_def ParseTestLog_def sp parse_line_def HasPrefix_def new_suite_def)
  from s have "\<not> (\<exists>x \<in> set (re_TestSuites r). 0 < su_PassedTests x)" by auto
  with GenerateReport_spec [OF r] r show ?thesis by blast
qed

subsection \<open>The pass rate\<close>











end
