(* ===== verification/Tcp_Progress.thy ===== *)
theory Tcp_Progress
  imports Tcp_Safety
begin












text \<open>C11: the types of the server's state fit together in every reachable state: live handlers have
  distinct non-empty addresses, the map of clients names only live handlers under their own
  addresses, and the arbiter's fields agree with each other.\<close>

theorem server_state_well_formed:
  assumes "srv_steps drv (srv_init addr port) es s"
  shows "(\<forall>i h. ts_clients (sv s) i = Some h \<longrightarrow> live s h \<and> hid s h = i) \<and>
    (\<forall>h k. live s h \<longrightarrow> live s k \<longrightarrow> hid s h = hid s k \<longrightarrow> h = k) \<and>
    (\<forall>h. live s h \<longrightarrow> hid s h \<noteq> '''') \<and> arb_inv (the_arb s)"
  using srv_inv_reach [OF assms] by (simp add: srv_inv_def ids_ok_def clients_ok_def)

theorem server_state_well_formed_witness:
  "live (two_clients (MockPort NewMockSerialPort) :: bytes srv_sys) 0 \<and>
   hid (two_clients (MockPort NewMockSerialPort) :: bytes srv_sys) 0 = ''a''"
proof -
  have "ts_clients (sv (two_clients (MockPort NewMockSerialPort) :: bytes srv_sys)) ''a'' = Some 0"
    by (simp add: srv_run_simps)
  with server_state_well_formed [OF two_clients_reached [of loopback]] show ?thesis by blast
qed

end
