(* ===== verification/End_To_End.thy ===== *)
theory End_To_End
  imports Server_Main Client_Main Tcp_Progress
begin

text \<open>
  The components together, both ways along the path between a user's terminal program and the serial
  port. The network between two of them is TCP: what one side has read so far is a prefix, as bytes,
  of what the other side has written, however it is cut into chunks; that is the hypothesis of the
  properties, and it is all they assume of it.
\<close>

subsection \<open>From a local connection of the proxy to the server\<close>

text \<open>The chunks read from a local connection, those written for it to a remote one, and the one in hand.\<close>

fun typed :: "nat \<Rightarrow> px_event list \<Rightarrow> bytes list" where
  "typed h [] = []"
| "typed h (LReadOk k d # es) = (if k = h then d # typed h es else typed h es)"
| "typed h (e # es) = typed h es"

definition sent_by :: "nat \<Rightarrow> px_sys \<Rightarrow> bytes list" where
  "sent_by h s = map (\<lambda>w. snd (snd w)) (filter (\<lambda>w. fst (snd w) = h) (px_to s))"

definition stream_to :: "nat \<Rightarrow> px_sys \<Rightarrow> bytes list" where
  "stream_to c s = map (\<lambda>w. snd (snd w)) (filter (\<lambda>w. fst w = c) (px_to s))"

fun in_handler :: "local_state \<Rightarrow> bytes list" where
  "in_handler (LChunk d) = [d]"
| "in_handler (LWriting c d) = [d]"
| "in_handler _ = []"

lemma sent_step:
  assumes "px_step s e t" and "accept_inv s"
  shows "subseq (sent_by h t @ in_handler (px_hp t h)) (sent_by h s @ in_handler (px_hp s h) @ typed h [e])"
  using assms
  by (induction rule: px_step.induct)
    (auto simp: sent_by_def px_moves accept_inv_def split: option.split)

lemma typed_append: "typed h (es @ fs) = typed h es @ typed h fs"
  by (induction h es rule: typed.induct) simp_all

lemma sent_in_order:
  "px_steps s es t \<Longrightarrow> px_mu_inv s \<Longrightarrow>
     subseq (sent_by h t @ in_handler (px_hp t h)) (sent_by h s @ in_handler (px_hp s h) @ typed h es)"
proof (induction rule: px_steps.induct)
  case (px_cons s e t es u)
  have a: "accept_inv s" and t: "px_mu_inv t"
    using px_cons px_mu_inv_step by (auto simp: px_mu_inv_def)
  have "subseq (sent_by h u @ in_handler (px_hp u h)) ((sent_by h t @ in_handler (px_hp t h)) @ typed h es)"
    using px_cons.IH [OF t] by simp
  also have "subseq \<dots> ((sent_by h s @ in_handler (px_hp s h) @ typed h [e]) @ typed h es)"
    by (rule list_emb_append_mono [OF sent_step [OF px_cons(1) a]]) simp
  finally show ?case using typed_append [of h "[e]" es] by simp
qed simp

lemma subseq_concat: "subseq xs ys \<Longrightarrow> subseq (concat xs) (concat ys)"
proof (induction xs ys rule: list_emb.induct)
  case (list_emb_Cons xs ys y)
  then show ?case by (simp add: subseq_append_iff) (metis append_Nil list_emb_Nil)
qed (auto intro: list_emb_append_mono)

lemma subseq_prefix: "prefix xs ys \<Longrightarrow> subseq xs ys"
  by (auto simp: prefix_def)

text \<open>C4: what one user types reaches the serial port in order: while the proxy serves one local
  connection, the bytes that the server writes to the serial port for the proxy's connection are a
  subsequence of the bytes read from that local connection - some may be dropped, for want of the
  lock or of a connection, but none is invented, duplicated or overtaken.\<close>

theorem typed_bytes_reach_serial_in_order:
  assumes "px_steps (px_init p c) pes ps" and "\<forall>w \<in> set (px_to ps). fst (snd w) = u"
    and "srv_steps drv (srv_init addr port) ses ss"
    and "prefix (concat (read_from h ses)) (concat (stream_to c ps))"
  shows "subseq (concat (written_for h ss)) (concat (typed u pes))"
proof -
  have "px_mu_inv (px_init p c)" by (rule px_mu_inv_reach [OF px_nil])
  from sent_in_order [OF assms(1) this, of u] have "subseq (sent_by u ps) (typed u pes)"
    by (auto simp: px_init_def sent_by_def intro: subseq_left)
  moreover have "subseq (stream_to c ps) (sent_by u ps)"
  proof -
    have "filter (\<lambda>w. fst (snd w) = u) (px_to ps) = px_to ps" using assms(2) by (simp add: filter_id_conv)
    then show ?thesis by (simp add: stream_to_def sent_by_def subseq_map)
  qed
  ultimately have "subseq (concat (stream_to c ps)) (concat (typed u pes))"
    using subseq_order.order_trans subseq_concat by blast
  with subseq_concat [OF written_in_order [OF assms(3), of h]] subseq_prefix [OF assms(4)]
  show ?thesis by (meson subseq_order.order_trans)
qed

theorem typed_bytes_reach_serial_in_order_witness:
  "\<exists>pes ps ses ss. px_steps (px_init 8888 7) pes ps \<and> srv_steps loopback (srv_init '':9999'' (MockPort NewMockSerialPort)) ses ss \<and>
     written_for 0 ss = [[104], [105]] \<and> stream_to 7 ps = [[104, 105]] \<and>
     subseq (concat (written_for 0 ss)) (concat (typed 0 pes))"
proof -
  let ?pes = "[LAccept 0, LRegister, LLoad, LReadOk 0 [104, 105], LLock 0]"
  have "\<exists>s. px_execs ?pes (px_init 8888 7) = Some s \<and> px_hp s 0 = LWriting 7 [104, 105] \<and> px_to s = [] \<and> px_stalled s = {}"
    by (simp add: px_run_simps)
  then obtain s where s: "px_steps (px_init 8888 7) ?pes s" "px_hp s 0 = LWriting 7 [104, 105]" "px_to s = []" "px_stalled s = {}"
    by (blast dest: px_execs_steps)
  let ?ps = "s\<lparr>px_hp := (px_hp s)(0 := LRead), px_mu := None, px_to := px_to s @ [(7, 0, [104, 105])]\<rparr>"
  have "px_steps s [LWrite 0] ?ps"
    using px_step.l_write [OF s(2)] s(4) by (simp add: px_steps_Cons px_steps_Nil)
  with s(1) have ps: "px_steps (px_init 8888 7) (?pes @ [LWrite 0]) ?ps" unfolding px_steps_append by blast
  let ?ses = "[ReadOk 0 [104], Check 0, First 0, Guard 0, SerialWrite 0, ReadOk 0 [105], Check 0, Guard 0, SerialWrite 0]"
  have "\<exists>t. srv_execs loopback ?ses (two_clients (MockPort NewMockSerialPort)) = Some t \<and> g_writes t = [(0, [104]), (0, [105])]"
    by (simp add: srv_run_simps)
  then obtain t where t: "srv_execs loopback ?ses (two_clients (MockPort NewMockSerialPort)) = Some t" "g_writes t = [(0, [104]), (0, [105])]"
    by blast
  note r = run_two_clients [OF t(1)]
  let ?all = "([Accept 0 ''a'', Register 0] @ [Accept 1 ''b'', Register 1]) @ ?ses"
  have "stream_to 7 ?ps = [[104, 105]]" using s(3) by (simp add: stream_to_def)
  moreover have "concat (read_from 0 ?all) = [104, 105]" by simp
  moreover have "\<forall>w \<in> set (px_to ?ps). fst (snd w) = 0" using s(3) by simp
  ultimately have "subseq (concat (written_for 0 t)) (concat (typed 0 (?pes @ [LWrite 0])))"
    using typed_bytes_reach_serial_in_order [OF ps _ r, of 0 0] by simp
  with ps r t(2) \<open>stream_to 7 ?ps = [[104, 105]]\<close> show ?thesis
    by (intro exI [of _ "?pes @ [LWrite 0]"] exI [of _ ?ps] exI [of _ ?all] exI [of _ t]) (simp add: written_for_def)
qed

subsection \<open>From the serial port to the terminal of the Linux client\<close>

text \<open>The turns of the forwarding goroutine on one connection, with the results of its reads.\<close>

fun s2p_run :: "int \<Rightarrow> (go_error + bytes) list \<Rightarrow> bytes list" where
  "s2p_run n [] = []"
| "s2p_run n (r # rs) =
     (case server_to_pty False (Some 0) (\<lambda>_. r) n of
        (S2P_Write d, n') \<Rightarrow> d # s2p_run n' rs
      | (_, n') \<Rightarrow> s2p_run n' rs)"

lemma s2p_writes: "concat (s2p_run n rs) = concat (map payload rs)"
  by (induction rs arbitrary: n) (auto simp: server_to_pty_def split: sum.splits)

text \<open>C5: what the device sends reaches the terminal in order: the bytes that the Linux client writes to its
  pseudo terminal for a connection are a subsequence of the bytes that the server program has read
  from the serial port, whatever the two programs interleave with.\<close>

theorem serial_output_reaches_terminal:
  assumes "main_steps drv (main_init addr port) es s"
    and "prefix (concat (map payload reads)) (concat (cn_out (cn (ms_srv s) h)))"
  shows "subseq (concat (s2p_run n reads)) (concat (g_read s))"
proof -
  have "subseq (concat (cn_out (cn (ms_srv s) h))) (concat (g_read s))"
    using clients_get_what_was_read [OF assms(1), of h] subseq_concat by blast
  with subseq_prefix [OF assms(2)] show ?thesis
    unfolding s2p_writes by (rule subseq_order.order_trans)
qed

lemma main_srv_steps:
  "srv_steps drv w es u \<Longrightarrow> ms_srv s = w \<Longrightarrow> \<forall>e \<in> set es. \<not> own_call e \<Longrightarrow>
     main_steps drv s (map MSrv es) (s\<lparr>ms_srv := u\<rparr>)"
proof (induction arbitrary: s rule: srv_steps.induct)
  case (srv_nil w)
  then show ?case by (auto simp: main_steps_Nil)
next
  case (srv_cons w e t es u)
  have "main_step drv s (MSrv e) (s\<lparr>ms_srv := t\<rparr>)"
    using srv_cons by (intro main_step.srv_acts) simp_all
  with srv_cons.IH [of "s\<lparr>ms_srv := t\<rparr>"] srv_cons.prems show ?case by (auto simp: main_steps_Cons)
qed

text \<open>One byte on its way: read from the port, broadcast, and written to the connected client.\<close>

lemma delivering_run:
  "\<exists>es s. main_steps loopback (main_init '':9999'' (MockPort (NewMockSerialPort\<lparr>ms_inputBuffer := [5]\<rparr>))) es s \<and>
     cn_out (cn (ms_srv s) 0) = [[5]] \<and> g_read s = [[5]]"
proof -
  let ?port = "MockPort (NewMockSerialPort\<lparr>ms_inputBuffer := [5]\<rparr>) :: bytes any_port"
  let ?s0 = "main_init '':9999'' ?port"
  let ?s1 = "?s0\<lparr>ms_srv := one_client ?port\<rparr>"
  let ?s2 = "?s1\<lparr>ms_reader := RdRead\<rparr>"
  let ?s3 = "(set_port (MockPort NewMockSerialPort) ?s2)\<lparr>ms_reader := RdSend [5], g_read := [[5]]\<rparr>"
  have c: "main_steps loopback ?s0 (map MSrv [Accept 0 ''a'', Register 0]) ?s1"
    by (rule main_srv_steps [OF one_client_reached]) (simp_all add: main_init_def)
  have r1: "main_step loopback ?s1 MSelect ?s2"
    using main_step.select [of ?s1 loopback] by (simp add: main_init_def)
  have p: "ts_serial (sv (ms_srv ?s2)) = Some ?port" by (simp add: srv_run_simps)
  have "Port_Read loopback 4096 ?port = (MockPort NewMockSerialPort, Inr [5])"
    by (simp add: NewMockSerialPort_def go_defs go_simps)
  from main_step.read [OF _ p this] have r2: "main_step loopback ?s2 MRead ?s3"
    by (simp add: after_read_def main_init_def)
  have "\<exists>t. srv_execs loopback [CallBroadcast [5]] (ms_srv ?s3) = Some t \<and>
      (\<exists>u. srv_execs loopback [LoopRecv, LoopSnapshot [0], LoopWrite] t = Some u \<and> cn_out (cn u 0) = [[5]])"
    by (simp add: srv_run_simps set_port_def main_init_def)
  then obtain t u where t: "srv_execs loopback [CallBroadcast [5]] (ms_srv ?s3) = Some t"
    and u: "srv_execs loopback [LoopRecv, LoopSnapshot [0], LoopWrite] t = Some u" "cn_out (cn u 0) = [[5]]" by blast
  have "srv_step loopback (ms_srv ?s3) (CallBroadcast [5]) t"
    using srv_execs_steps [OF t] by (simp add: srv_steps_Cons srv_steps_Nil)
  from main_step.broadcast [OF _ this] have r3: "main_step loopback ?s3 MBroadcast (?s3\<lparr>ms_srv := t, ms_reader := RdSelect\<rparr>)"
    by simp
  have r4: "main_steps loopback (?s3\<lparr>ms_srv := t, ms_reader := RdSelect\<rparr>) (map MSrv [LoopRecv, LoopSnapshot [0], LoopWrite])
      (?s3\<lparr>ms_srv := t, ms_reader := RdSelect\<rparr>\<lparr>ms_srv := u\<rparr>)"
    by (rule main_srv_steps [OF srv_execs_steps [OF u(1)]]) simp_all
  from r1 r2 r3 r4 have "main_steps loopback ?s1 ([MSelect, MRead, MBroadcast] @ map MSrv [LoopRecv, LoopSnapshot [0], LoopWrite])
      (?s3\<lparr>ms_srv := t, ms_reader := RdSelect\<rparr>\<lparr>ms_srv := u\<rparr>)"
    unfolding main_steps_append main_steps_Cons main_steps_Nil by blast
  with c have "main_steps loopback ?s0 (map MSrv [Accept 0 ''a'', Register 0] @ ([MSelect, MRead, MBroadcast] @
      map MSrv [LoopRecv, LoopSnapshot [0], LoopWrite])) (?s3\<lparr>ms_srv := t, ms_reader := RdSelect\<rparr>\<lparr>ms_srv := u\<rparr>)"
    unfolding main_steps_append by blast
  with u(2) show ?thesis by fastforce
qed

theorem serial_output_reaches_terminal_witness:
  "\<exists>es s. main_steps loopback (main_init '':9999'' (MockPort (NewMockSerialPort\<lparr>ms_inputBuffer := [5]\<rparr>))) es s \<and>
     s2p_run 0 [Inl IoEOF, Inr [5]] = [[5]] \<and> subseq (concat (s2p_run 0 [Inl IoEOF, Inr [5]])) (concat (g_read s))"
proof -
  obtain es s where r: "main_steps loopback (main_init '':9999'' (MockPort (NewMockSerialPort\<lparr>ms_inputBuffer := [5]\<rparr>))) es s"
      "cn_out (cn (ms_srv s) 0) = [[5]]" using delivering_run by blast
  have "prefix (concat (map payload [Inl IoEOF, Inr [5]])) (concat (cn_out (cn (ms_srv s) 0)))" by (simp add: r(2))
  from serial_output_reaches_terminal [OF r(1) this, of 0] r(1) show ?thesis
    by (intro exI [of _ es] exI [of _ s]) (simp add: server_to_pty_def)
qed

end
