(* ===== verification/Tcp_Refine.thy ===== *)
theory Tcp_Refine
  imports Tcp_Safety
begin

text \<open>
  The TCP server as its clients see it: a multiplexer of one serial line.
  Its state is the set of connected clients, at most one holder of the write lock, the clients
  that have been cleared to write one chunk, the output of the line, and the queue of serial
  input still to be broadcast. Every step of the interleaved server, with its program counters,
  timers, closures and connections, is one guarded operation of this state or does not change it.
\<close>

subsection \<open>The multiplexer\<close>

record mux =
  mx_members :: "string \<rightharpoonup> nat"
  mx_holder :: "string option"
  mx_cleared :: "nat \<Rightarrow> bytes option"
  mx_output :: "(nat \<times> bytes) list"
  mx_feed :: "bytes list"
  mx_room :: nat
  mx_open :: bool

datatype mux_event =
    MJoin string nat
  | MLeave string
  | MAcquire string
  | MRelease string       \<comment> \<open>by the client, or by its timer\<close>
  | MClear string nat bytes
  | MEmit nat
  | MOffer bytes
  | MTake
  | MStop
  | MSkip

definition free_for :: "string \<Rightarrow> string option \<Rightarrow> string option" where
  "free_for i holder = (if holder = Some i then None else holder)"

text \<open>\<open>None\<close>: the multiplexer does not allow the operation in this state.\<close>

fun mux_do :: "mux_event \<Rightarrow> mux \<Rightarrow> mux option" where
  "mux_do (MJoin i h) m =
     (if i \<noteq> '''' \<and> mx_members m i = None then Some (m\<lparr>mx_members := (mx_members m)(i \<mapsto> h)\<rparr>) else None)"
| "mux_do (MLeave i) m =
     Some (m\<lparr>mx_members := (mx_members m)(i := None), mx_holder := free_for i (mx_holder m)\<rparr>)"
| "mux_do (MAcquire i) m = Some (m\<lparr>mx_holder := Some (case mx_holder m of None \<Rightarrow> i | Some j \<Rightarrow> j)\<rparr>)"
| "mux_do (MRelease i) m = Some (m\<lparr>mx_holder := free_for i (mx_holder m)\<rparr>)"
| "mux_do (MClear i h d) m =
     (if mx_holder m = Some i \<and> mx_cleared m h = None
      then Some (m\<lparr>mx_cleared := (mx_cleared m)(h := Some d)\<rparr>) else None)"
| "mux_do (MEmit h) m =
     (case mx_cleared m h of
        None \<Rightarrow> None
      | Some d \<Rightarrow> Some (m\<lparr>mx_cleared := (mx_cleared m)(h := None), mx_output := mx_output m @ [(h, d)]\<rparr>))"
| "mux_do (MOffer d) m =
     (if mx_open m \<and> length (mx_feed m) < mx_room m then Some (m\<lparr>mx_feed := mx_feed m @ [d]\<rparr>) else None)"
| "mux_do MTake m = (case mx_feed m of [] \<Rightarrow> None | d # ds \<Rightarrow> Some (m\<lparr>mx_feed := ds\<rparr>))"
| "mux_do MStop m =
     (if mx_open m then Some (m\<lparr>mx_members := Map.empty, mx_open := False\<rparr>) else None)"
| "mux_do MSkip m = Some m"

fun mux_run :: "mux_event list \<Rightarrow> mux \<Rightarrow> mux option" where
  "mux_run [] m = Some m"
| "mux_run (e # es) m = (case mux_do e m of None \<Rightarrow> None | Some n \<Rightarrow> mux_run es n)"

definition mux_new :: mux where
  "mux_new = \<lparr>mx_members = Map.empty, mx_holder = None, mx_cleared = (\<lambda>_. None), mx_output = [],
     mx_feed = [], mx_room = 1024, mx_open = True\<rparr>"

subsection \<open>The abstraction\<close>

fun cleared :: "handler_pc \<Rightarrow> bytes option" where
  "cleared (HWrite d) = Some d"
| "cleared p = None"

definition mux_view :: "'d srv_sys \<Rightarrow> mux" where
  "mux_view s = \<lparr>mx_members = ts_clients (sv s), mx_holder = lock_view (the_arb s),
     mx_cleared = (\<lambda>h. cleared (hp s h)), mx_output = g_writes s,
     mx_feed = ch_buf (ts_broadcast (sv s)), mx_room = ch_cap (ts_broadcast (sv s)),
     mx_open = (\<not> ch_closed (ts_broadcast (sv s)))\<rparr>"

text \<open>The operation that a step of the server is.\<close>

fun timer_mux :: "arb_sys \<Rightarrow> arb_event \<Rightarrow> mux_event" where
  "timer_mux a (ECallback i) = MRelease (t_client (timers a ! i))"
| "timer_mux a e = MSkip"

fun mux_event_of :: "'d srv_sys \<Rightarrow> srv_event \<Rightarrow> mux_event" where
  "mux_event_of s (Register h) = MJoin (hid s h) h"
| "mux_event_of s (ReadErr h) = MLeave (hid s h)"
| "mux_event_of s (First h) = MAcquire (hid s h)"
| "mux_event_of s (Retry h) = MAcquire (hid s h)"
| "mux_event_of s (CallAcquire i) = MAcquire i"
| "mux_event_of s (CallRelease i) = MRelease i"
| "mux_event_of s (ArbTimer e) = timer_mux (the_arb s) e"
| "mux_event_of s (Guard h) =
     (case hp s h of
        HGuard d \<Rightarrow> (case after_guard (hid s h) d (sv s) of HWrite d \<Rightarrow> MClear (hid s h) h d | _ \<Rightarrow> MSkip)
      | _ \<Rightarrow> MSkip)"
| "mux_event_of s (SerialWrite h) = MEmit h"
| "mux_event_of s (CallBroadcast d) = MOffer d"
| "mux_event_of s LoopRecv = MTake"
| "mux_event_of s CallStop = (if ts_running (sv s) then MStop else MSkip)"
| "mux_event_of s e = MSkip"

subsection \<open>The refinement\<close>

lemma cleared_after [simp]:
  "cleared (after_check i d a) = None" "cleared (after_first d x) = None" "cleared (after_retry d n x) = None"
  by (simp_all add: after_check_def after_first_def after_retry_def)

lemma free_for_view:
  "lock_view (fst (Release c a)) = free_for c (lock_view a)"
  "lock_view (ForceRelease c a) = free_for c (lock_view a)"
  "lock_view (expire_callback c a) = free_for c (lock_view a)"
  by (simp_all add: lock_view_ops free_for_def)

lemma acquire_view:
  "lock_view (fst (Acquire c a)) = Some (case lock_view a of None \<Rightarrow> c | Some j \<Rightarrow> j)"
  by (simp add: lock_view_Acquire split: option.split)

lemma acquire_view':
  "Acquire c a = (b, r) \<Longrightarrow> lock_view b = Some (case lock_view a of None \<Rightarrow> c | Some j \<Rightarrow> j)"
  using acquire_view [of c a] by simp

lemma drop_client_view:
  assumes "arb_inv (ts_arbiter v)" and "i \<noteq> ''''"
  shows "lock_view (ts_arbiter (drop_client i v)) = free_for i (lock_view (ts_arbiter v))"
    and "ts_clients (drop_client i v) = (ts_clients v)(i := None)"
    and "ts_broadcast (drop_client i v) = ts_broadcast v"
  using arb_lock.own_iff_holder [OF assms]
  by (auto simp: drop_client_def Let_def free_for_view) (auto simp: free_for_def)

lemma timer_view:
  "timer_event e \<Longrightarrow> arb_do e (the_arb s) = Some a \<Longrightarrow>
     mux_do (timer_mux (the_arb s) e) (mux_view s) = Some (mux_view (with_arb s a))"
  by (cases e) (auto simp: timer_event_def mux_view_def with_arb_def free_for_view split: if_splits)

lemma fresh_member: "srv_inv s \<Longrightarrow> ap s = AGot h \<Longrightarrow> hid s h \<noteq> '''' \<and> ts_clients (sv s) (hid s h) = None"
  unfolding srv_inv_def ids_ok_def clients_ok_def by (metis option.exhaust)

lemma mux_step:
  assumes "srv_step drv s e t" and "srv_inv s"
  shows "mux_do (mux_event_of s e) (mux_view s) = Some (mux_view t)"
  using assms
proof (induction rule: srv_step.induct)
  case (accept_register s h)
  then show ?case
    using fresh_member [of s h] by (simp add: mux_view_def srv_simps ids_ok_def srv_inv_def fun_eq_iff)
next
  case (read_err s h)
  then have "live s h" by (simp add: live_def)
  with read_err have i: "arb_inv (the_arb s)" "hid s h \<noteq> ''''" by (auto simp: srv_inv_def ids_ok_def)
  from read_err.hyps show ?case by (simp add: mux_view_def at_def drop_client_view [OF i] fun_eq_iff)
next
  case (guard s h d)
  then have "Owner (the_arb s) = hid s h \<longleftrightarrow> lock_view (the_arb s) = Some (hid s h)"
    by (intro owner_is_holder) (simp_all add: live_def)
  with guard.hyps show ?case by (simp add: mux_view_def at_def after_guard_def fun_eq_iff)
next
  case (arb_timer e s a)
  then show ?case by (simp add: timer_view)
next
  case (call_stop s v closed)
  then show ?case
    by (auto simp: mux_view_def TCPServer_Stop_def chan_close_def split: if_splits sum.splits)
next
  case (call_broadcast d s v)
  then show ?case
    by (auto simp: mux_view_def TCPServer_Broadcast_def chan_send_Some split: option.splits sum.splits)
next
  case (call_acquire s i)
  then show ?case
    by (simp add: mux_view_def AcquireWriteLock_def acquire_view' split: prod.split)
qed (auto simp: mux_view_def at_def with_arb_def acquire_view' chan_recv_Got ReleaseWriteLock_def free_for_view fun_eq_iff)

interpretation mux_runs: event_runs mux_do mux_run
  by unfold_locales simp_all

lemma mux_view_init: "mux_view (srv_init addr port) = mux_new"
  by (simp add: mux_view_def srv_init_def mux_new_def TCPServer_Start_def SetSerial_def NewTCPServer_def)

lemma mux_run_of_steps:
  "srv_steps drv s es t \<Longrightarrow> srv_inv s \<Longrightarrow> \<exists>ms. length ms = length es \<and> mux_run ms (mux_view s) = Some (mux_view t)"
proof (induction rule: srv_steps.induct)
  case (srv_nil s)
  then show ?case by simp
next
  case (srv_cons s e t es u)
  from srv_cons.IH srv_inv_step [OF srv_cons.hyps(1) srv_cons.prems]
  obtain ms where "length ms = length es" "mux_run ms (mux_view t) = Some (mux_view u)" by blast
  with mux_step [OF srv_cons.hyps(1) srv_cons.prems] show ?case
    by (intro exI [of _ "mux_event_of s e # ms"]) simp
qed

text \<open>C2: the server refines the multiplexer: in every reachable state, each step of the interleaved
  server is the operation \<open>mux_event_of\<close> of the abstract multiplexer, whose guard holds: a client
  joins under a fresh name, only the holder is cleared to write, only a cleared chunk is emitted,
  the lock is handed out only when free, and the feed never exceeds its 1024 places. The state
  itself is reached by as many operations from the empty multiplexer.\<close>

theorem server_refines_mux:
  assumes "srv_steps drv (srv_init addr port) es s" and "srv_step drv s e t"
  shows "(\<exists>ms. length ms = length es \<and> mux_run ms mux_new = Some (mux_view s)) \<and>
    mux_do (mux_event_of s e) (mux_view s) = Some (mux_view t)"
  using mux_run_of_steps [OF assms(1) srv_inv_init] mux_step [OF assms(2) srv_inv_reach [OF assms(1)]]
  by (simp add: mux_view_init)

theorem server_refines_mux_witness:
  "\<exists>es s t. srv_steps loopback (srv_init '':9999'' (MockPort NewMockSerialPort)) es s \<and> srv_step loopback s (Guard 0) t \<and>
     mux_do (MClear (hid s 0) 0 [1]) (mux_view s) = Some (mux_view t) \<and> mx_cleared (mux_view t) 0 = Some [1]"
proof -
  obtain es s t where s: "srv_steps loopback (srv_init '':9999'' (MockPort NewMockSerialPort)) es s"
      "srv_step loopback s (Guard 0) t" "hp t 0 = HWrite [1]" "hp s 0 = HGuard [1]"
    using demo_guard by blast
  then have "after_guard (hid s 0) [1] (sv s) = HWrite [1]" by (auto simp: srv_Guard)
  with server_refines_mux [OF s(1,2)] s(4)
  have "mux_do (MClear (hid s 0) 0 [1]) (mux_view s) = Some (mux_view t)" by (simp del: mux_do.simps)
  moreover have "mx_cleared (mux_view t) 0 = Some [1]" using s(3) by (simp add: mux_view_def)
  ultimately show ?thesis using s(1,2) by blast
qed

subsection \<open>What the multiplexer guarantees\<close>

text \<open>
  The contract that a client of the serial line relies on, read off the abstract state alone: a
  chunk enters the output only after its client was cleared, and nobody is cleared while somebody
  else holds the lock.
\<close>

definition mux_inv :: "mux \<Rightarrow> bool" where
  "mux_inv m \<longleftrightarrow> length (mx_feed m) \<le> mx_room m \<and> '''' \<notin> dom (mx_members m)"

lemma mux_inv_do: "mux_do e m = Some n \<Longrightarrow> mux_inv m \<Longrightarrow> mux_inv n"
  by (cases e) (auto simp: mux_inv_def split: if_splits option.splits list.splits)

lemma mux_inv_run:
  assumes "mux_run es m = Some n" and "mux_inv m"
  shows "mux_inv n"
  using assms by (rule mux_runs.run_keep) (rule mux_inv_do)

lemma mux_inv_new: "mux_inv mux_new"
  by (simp add: mux_inv_def mux_new_def)

lemma feed_bounded:
  assumes "srv_steps drv (srv_init addr port) es s"
  shows "length (ch_buf (ts_broadcast (sv s))) \<le> ch_cap (ts_broadcast (sv s)) \<and> ts_clients (sv s) '''' = None"
proof -
  obtain ms where "mux_run ms mux_new = Some (mux_view s)"
    using mux_run_of_steps [OF assms srv_inv_init] by (auto simp: mux_view_init)
  from mux_inv_run [OF this mux_inv_new] show ?thesis by (auto simp: mux_inv_def mux_view_def)
qed

end
