(* ===== verification/Tcp_Fair.thy ===== *)
theory Tcp_Fair
  imports Tcp_Progress
begin

text \<open>
  How the server shares the line among its clients. The arbiter inside the server is driven only by the
  handlers' attempts, releases and its own timers, never by \<open>ExtendTimeout\<close>, so every reachable lock has
  a deadline at most 30 seconds away and no client keeps it longer. What the clients do not get is a
  turn: the lock is not queued for, and a client can lose every race for it.
\<close>

subsection \<open>The arbiter inside the server\<close>

definition extends :: "arb_event \<Rightarrow> bool" where
  "extends e = (case e of EExtend _ _ \<Rightarrow> True | _ \<Rightarrow> False)"

lemma extends_iff: "extends x \<longleftrightarrow> (\<exists>c n. x = EExtend c n)"
  by (cases x) (simp_all add: extends_def)

lemma srv_arb_step:
  assumes "srv_step drv s e t"
  shows "the_arb t = the_arb s \<or> (\<exists>x. \<not> extends x \<and> arb_do x (the_arb s) = Some (the_arb t))"
  using assms
proof (induction rule: srv_step.induct)
  case (first s h d a acquired err)
  then show ?case by (intro disjI2 exI [of _ "EAcquire (hid s h)"]) (simp add: srv_simps extends_def)
next
  case (retry s h d i a acquired err)
  then show ?case by (intro disjI2 exI [of _ "EAcquire (hid s h)"]) (simp add: srv_simps extends_def)
next
  case (read_err s h)
  show ?case
  proof (cases "Owner (the_arb s) = hid s h")
    case True
    then show ?thesis
      by (intro disjI2 exI [of _ "EForce (hid s h)"]) (simp add: drop_client_def at_def extends_def)
  qed (simp add: drop_client_def at_def)
next
  case (call_acquire s i)
  then show ?case
    by (cases "Acquire i (the_arb s)")
      (auto intro!: exI [of _ "EAcquire i"] simp: AcquireWriteLock_def extends_def)
next
  case (call_release s i)
  then show ?case by (intro disjI2 exI [of _ "ERelease i"]) (simp add: ReleaseWriteLock_def extends_def)
next
  case (arb_timer e s a)
  then show ?case
    by (intro disjI2 exI [of _ e]) (auto simp: with_arb_def timer_event_def extends_def split: arb_event.splits)
next
  case (call_stop s v closed)
  then show ?case by (auto simp: TCPServer_Stop_def split: if_splits sum.splits)
next
  case (call_broadcast d s v)
  then show ?case by (auto simp: TCPServer_Broadcast_def split: option.splits sum.splits)
qed (simp_all add: srv_simps)

text \<open>The timeout is never changed, and no timer is due later than a full timeout from now.\<close>

definition near :: "int \<Rightarrow> arb_sys \<Rightarrow> bool" where
  "near d a \<longleftrightarrow> arb_timeout (arb a) = d \<and> (\<forall>i < length (timers a). t_deadline (timers a ! i) \<le> clock a + d)"

lemma near_do: "arb_do x a = Some b \<Longrightarrow> \<not> extends x \<Longrightarrow> 0 \<le> d \<Longrightarrow> near d a \<Longrightarrow> near d b"
  by (cases x)
    (auto simp: near_def extends_def arb_ops nth_set_status nth_stop_timer nth_append Let_def less_Suc_eq split: if_splits)


lemma near_srv_step: "srv_step drv s e t \<Longrightarrow> near lock_timeout (the_arb s) \<Longrightarrow> near lock_timeout (the_arb t)"
  using srv_arb_step [of drv s e t] near_do [of _ "the_arb s" "the_arb t" lock_timeout]
  by (auto simp: lock_timeout_def)

lemma near_reach:
  assumes "srv_steps drv (srv_init addr port) es s"
  shows "near lock_timeout (the_arb s)"
proof (rule srv_steps_inv [OF assms])
  show "near lock_timeout (the_arb (srv_init addr port))"
    by (simp add: srv_init_def TCPServer_Start_def SetSerial_def NewTCPServer_def NewArbiter_def near_def)
qed (rule near_srv_step)

subsection \<open>No client keeps the lock\<close>

text \<open>While a client holds the lock, its timer is not touched: not by the attempts of others or of its own,
  which fail, and not by the run-time system, which can only run it.\<close>

lemma due_srv_step:
  assumes "srv_step drv s e t" and "due_at c D (the_arb s)" and "lock_view (the_arb s) = Some c"
  shows "lock_view (the_arb t) \<noteq> Some c \<or> due_at c D (the_arb t)"
  using srv_arb_step [OF assms(1)]
proof
  assume "\<exists>x. \<not> extends x \<and> arb_do x (the_arb s) = Some (the_arb t)"
  then obtain x where x: "\<forall>n. x \<noteq> EExtend c n" "arb_do x (the_arb s) = Some (the_arb t)"
    by (auto simp: extends_iff)
  show ?thesis
  proof (cases "lock_view (the_arb t) = Some c")
    case True
    from deadline_step [OF x(2) assms(3) True x(1)] assms(2,3) show ?thesis
      by (auto simp: due_at_def split: option.splits)
  qed simp
qed (use assms(2) in simp)

lemma kept_or_due:
  assumes "srv_steps drv s es t" and "due_at c D (the_arb s)" and "lock_view (the_arb s) = Some c"
  shows "(\<exists>xs ys v. es = xs @ ys \<and> srv_steps drv s xs v \<and> srv_steps drv v ys t \<and> lock_view (the_arb v) \<noteq> Some c) \<or>
    due_at c D (the_arb t)"
  using assms
proof (induction rule: srv_steps.induct)
  case (srv_cons s e t es u)
  show ?case
  proof (cases "lock_view (the_arb t) = Some c")
    case False
    with srv_cons.hyps have "srv_steps drv s [e] t" by (simp add: srv_steps_Cons srv_steps_Nil)
    with False srv_cons.hyps(2) show ?thesis
      by (intro disjI1 exI [of _ "[e]"] exI [of _ es] exI [of _ t]) simp
  next
    case True
    with due_srv_step [OF srv_cons.hyps(1) srv_cons.prems] have "due_at c D (the_arb t)" by simp
    from srv_cons.IH [OF this True] show ?thesis
    proof (elim disjE exE conjE)
      fix xs ys v
      assume v: "es = xs @ ys" "srv_steps drv t xs v" "srv_steps drv v ys u" "lock_view (the_arb v) \<noteq> Some c"
      then show ?thesis using srv_cons.hyps(1)
        by (intro disjI1 exI [of _ "e # xs"] exI [of _ ys] exI [of _ v]) (auto simp: srv_steps_Cons)
    qed simp
  qed
qed simp

text \<open>A held lock has a deadline, at most a timeout away.\<close>

lemma held_is_due:
  assumes "srv_inv s" and "near d (the_arb s)" and "lock_view (the_arb s) = Some c"
  shows "\<exists>D. due_at c D (the_arb s) \<and> D \<le> clock (the_arb s) + d"
proof -
  obtain i where "arb_expireTimer (arb (the_arb s)) = Some i" "i < length (timers (the_arb s))"
    using assms(1,3) by (auto simp: srv_inv_def arb_inv_def lock_view_def split: option.splits if_splits)
  with assms(2) show ?thesis by (auto simp: near_def due_at_def)
qed

text \<open>C3: no client monopolises the line: in every run of the server that lasts the lock's 30 seconds and at
  whose end the due timers have run, every client that held the lock at the start has lost it at
  some moment, whatever it and the others sent in the meantime.\<close>

theorem no_client_keeps_the_lock:
  assumes "srv_steps drv (srv_init addr port) pre s" and "srv_steps drv s es t"
    and "settled (the_arb t)" and "clock (the_arb s) + lock_timeout \<le> clock (the_arb t)"
  shows "\<exists>xs ys v. es = xs @ ys \<and> srv_steps drv s xs v \<and> srv_steps drv v ys t \<and> lock_view (the_arb v) \<noteq> Some c"
proof (cases "lock_view (the_arb s) = Some c")
  case False
  with assms(2) show ?thesis
    by (intro exI [of _ "[]"] exI [of _ es] exI [of _ s]) (simp add: srv_steps_Nil)
next
  case True
  from held_is_due [OF srv_inv_reach [OF assms(1)] near_reach [OF assms(1)] True]
  obtain D where D: "due_at c D (the_arb s)" "D \<le> clock (the_arb s) + lock_timeout" by blast
  have "srv_steps drv (srv_init addr port) (pre @ es) t" using assms(1,2) srv_steps_append by blast
  from srv_inv_reach [OF this] have t: "arb_inv (the_arb t)" by (simp add: srv_inv_def)
  from kept_or_due [OF assms(2) D(1) True] show ?thesis
  proof
    assume d: "due_at c D (the_arb t)"
    have "lock_view (the_arb t) \<noteq> Some c"
      by (rule settled_not_due [OF t assms(3) d]) (use D(2) assms(4) in simp)
    with assms(2) show ?thesis
      by (intro exI [of _ es] exI [of _ "[]"] exI [of _ t]) (simp add: srv_steps_Nil)
  qed
qed

text \<open>A grant at work: the first client is granted the lock, and after 30 seconds it is gone.\<close>

theorem no_client_keeps_the_lock_witness:
  "\<exists>s es t xs ys v. lock_view (the_arb s) = Some ''a'' \<and> es = xs @ ys \<and> srv_steps loopback s es t \<and>
     srv_steps loopback s xs v \<and> lock_view (the_arb v) \<noteq> Some ''a''"
proof -
  let ?pre = "([Accept 0 ''a'', Register 0] @ [Accept 1 ''b'', Register 1]) @ [ReadOk 0 [1], Check 0, First 0]"
  let ?es = "[ArbTimer (ETick lock_timeout), ArbTimer (EFire 0), ArbTimer (ECallback 0)]"
  obtain s where s: "srv_execs loopback [ReadOk 0 [1], Check 0, First 0] (two_clients (MockPort NewMockSerialPort)) = Some s"
      "lock_view (the_arb s) = Some ''a''" "clock (the_arb s) = 0"
      "timers (the_arb s) = [\<lparr>t_client = ''a'', t_deadline = lock_timeout, t_status = Armed\<rparr>]"
    by (simp add: srv_run_simps lock_view_def)
  then obtain t where t: "srv_execs loopback ?es s = Some t" "settled (the_arb t)" "clock (the_arb t) = lock_timeout"
    by (auto simp: timer_event_def with_arb_def expire_callback_def set_status_def settled_def lock_timeout_def)
  have "srv_steps loopback (srv_init '':9999'' (MockPort NewMockSerialPort)) ?pre s" using run_two_clients [OF s(1)] .
  from no_client_keeps_the_lock [OF this srv_execs_steps [OF t(1)] t(2), of "''a''"] s(2,3) t(3)
    srv_execs_steps [OF t(1)] show ?thesis by (metis add_0 order_refl)
qed

subsection \<open>A client can lose every race\<close>












end
