(* ===== verification/Darwin.thy ===== *)
theory Darwin
  imports Port_Platforms Pty_Device Scanner
begin

text \<open>
  What the builds for macOS and Windows have of their own: the choice of a port and the scanner over
  the guarded serial port (\<open>real_serial_darwin.go\<close>, \<open>real_serial_windows.go\<close>, \<open>scanner_darwin.go\<close>),
  and the pseudo terminal of macOS, whose methods hold the device's mutex (\<open>real_pty_darwin.go\<close>).
  As in \<open>Port_Platforms\<close>, a call on an object whose mutex is taken waits, which is \<open>None\<close>.
\<close>

subsection \<open>The serial port\<close>

text \<open>The implementations of \<open>Port\<close> in these builds.\<close>

datatype 'd guarded_any = GuardedMock mock_serial | GuardedReal "'d guarded_port"

definition guarded_NewPort :: "'d driver \<Rightarrow> string \<Rightarrow> (go_error + 'd guarded_any) option" where
  "guarded_NewPort drv path =
     (case guarded_Open drv path guarded_NewRealSerialPort of
        None \<Rightarrow> None
      | Some (port, Some err) \<Rightarrow>
          (case MockSerialPort_Open path NewMockSerialPort of
             (mockPort, Some mockErr) \<Rightarrow> Some (Inl err)
           | (mockPort, None) \<Rightarrow> Some (Inr (GuardedMock mockPort)))
      | Some (port, None) \<Rightarrow> Some (Inr (GuardedReal port)))"

text \<open>The file for macOS has the bodies of the one for Windows.\<close>

definition darwin_NewRealSerialPort :: "'d guarded_port" where
  "darwin_NewRealSerialPort = guarded_NewRealSerialPort"

definition darwin_call :: "'d driver \<Rightarrow> port_call \<Rightarrow> 'd guarded_port \<Rightarrow> ('d guarded_port \<times> port_result) option" where
  "darwin_call drv c g = guarded_call drv c g"

definition darwin_NewPort :: "'d driver \<Rightarrow> string \<Rightarrow> (go_error + 'd guarded_any) option" where
  "darwin_NewPort drv path = guarded_NewPort drv path"

lemma guarded_open_fresh:
  "guarded_Open drv path guarded_NewRealSerialPort =
     Some (case drv_open drv path 115200 of
       Inl err \<Rightarrow> (guarded_NewRealSerialPort, Some err)
     | Inr dev \<Rightarrow> (\<lparr>gp_mu = False, gp_port = \<lparr>rs_port = Some dev, rs_open = True, rs_path = path, rs_config = DefaultConfig\<rparr>\<rparr>, None))"
  by (simp add: guarded_defs guarded_NewRealSerialPort_def NewRealSerialPort_def DefaultConfig_def BaudRate_def split: sum.split)

text \<open>On these platforms too \<open>NewPort\<close> always yields an open port, the mock one when the driver refuses.\<close>

theorem guarded_NewPort_total:
  "guarded_NewPort drv path = Some (Inr (case drv_open drv path 115200 of
       Inr dev \<Rightarrow> GuardedReal \<lparr>gp_mu = False, gp_port = \<lparr>rs_port = Some dev, rs_open = True, rs_path = path, rs_config = DefaultConfig\<rparr>\<rparr>
     | Inl _ \<Rightarrow> GuardedMock \<lparr>ms_open = True, ms_path = path, ms_inputBuffer = [], ms_outputBuffer = []\<rparr>))"
  by (simp add: guarded_NewPort_def guarded_open_fresh go_defs split: sum.split)

subsection \<open>The scanner\<close>

definition darwin_NewScanner :: path_scanner where
  "darwin_NewScanner = NewScannerDarwin"

definition darwin_isAccessible :: "'d driver \<Rightarrow> reader \<Rightarrow> string \<Rightarrow> bool option" where
  "darwin_isAccessible drv readfile path =
     (case readfile path of
        None \<Rightarrow> None
      | Some (Inl err) \<Rightarrow> Some False
      | Some (Inr content) \<Rightarrow>
          (case guarded_Open drv path guarded_NewRealSerialPort of
             None \<Rightarrow> None
           | Some (port, Some err) \<Rightarrow> Some False
           | Some (port, None) \<Rightarrow> map_option (\<lambda>_. True) (guarded_Close drv port)))"

definition darwin_Scan ::
    "'d driver \<Rightarrow> reader \<Rightarrow> (string \<Rightarrow> go_error + string list) \<Rightarrow> path_scanner \<Rightarrow> string list option" where
  "darwin_Scan drv readfile glob s = scan_patterns glob (darwin_isAccessible drv readfile) (searchPaths s)"

definition ScanTTY ::
    "'d driver \<Rightarrow> reader \<Rightarrow> (string \<Rightarrow> go_error + string list) \<Rightarrow> string list option" where
  "ScanTTY drv readfile glob =
     scan_patterns glob (darwin_isAccessible drv readfile) [''/dev/tty.usbserial*'', ''/dev/tty.usbmodem*'']"

definition ScanCU ::
    "'d driver \<Rightarrow> reader \<Rightarrow> (string \<Rightarrow> go_error + string list) \<Rightarrow> string list option" where
  "ScanCU drv readfile glob =
     scan_patterns glob (darwin_isAccessible drv readfile) [''/dev/cu.usbserial*'', ''/dev/cu.usbmodem*'']"

definition darwin_SetSearchPaths :: "string list \<Rightarrow> path_scanner \<Rightarrow> path_scanner" where
  "darwin_SetSearchPaths paths s = s\<lparr>searchPaths := paths\<rparr>"

definition darwin_AddSearchPath :: "string \<Rightarrow> path_scanner \<Rightarrow> path_scanner" where
  "darwin_AddSearchPath pattern s = s\<lparr>searchPaths := searchPaths s @ [pattern]\<rparr>"

definition darwin_IsPortAvailable :: "'d driver \<Rightarrow> reader \<Rightarrow> string \<Rightarrow> bool option" where
  "darwin_IsPortAvailable drv readfile path = darwin_isAccessible drv readfile path"

lemma darwin_isAccessible_eq: "darwin_isAccessible drv readfile path = isAccessible drv readfile path"
  by (simp add: darwin_isAccessible_def isAccessible_eq guarded_open_fresh guarded_Close_def with_mutex_def
      split: option.split sum.split)

lemma scan_patterns_append:
  "scan_patterns glob acc (ps @ qs) =
     (case scan_patterns glob acc ps of
        None \<Rightarrow> None
      | Some xs \<Rightarrow> map_option (\<lambda>ys. xs @ ys) (scan_patterns glob acc qs))"
  by (cases "scan_patterns glob acc qs"; induction ps) (auto split: sum.split option.split)

text \<open>The scan of macOS is the scan of Linux over its own paths: the guarded port that each probe opens
  is fresh, so no probe waits for a mutex. With the default paths it is the scan of the dial-in
  devices followed by that of the call-out devices, and a path added is scanned last.\<close>

theorem darwin_scan_spec:
  "darwin_Scan drv readfile glob s = PathScanner_Scan drv readfile glob s \<and>
   darwin_Scan drv readfile glob darwin_NewScanner =
     (case ScanTTY drv readfile glob of
        None \<Rightarrow> None | Some xs \<Rightarrow> map_option (\<lambda>ys. xs @ ys) (ScanCU drv readfile glob)) \<and>
   darwin_Scan drv readfile glob (darwin_AddSearchPath p s) =
     (case darwin_Scan drv readfile glob s of
        None \<Rightarrow> None | Some xs \<Rightarrow> map_option (\<lambda>ys. xs @ ys) (scan_patterns glob (darwin_isAccessible drv readfile) [p]))"
proof (intro conjI)
  have acc: "darwin_isAccessible drv readfile = isAccessible drv readfile"
    by (rule ext) (rule darwin_isAccessible_eq)
  show "darwin_Scan drv readfile glob s = PathScanner_Scan drv readfile glob s"
    by (simp add: darwin_Scan_def PathScanner_Scan_def acc)
  have "searchPaths darwin_NewScanner =
      [''/dev/tty.usbserial*'', ''/dev/tty.usbmodem*''] @ [''/dev/cu.usbserial*'', ''/dev/cu.usbmodem*'']"
    by (simp add: darwin_NewScanner_def NewScannerDarwin_def)
  then show "darwin_Scan drv readfile glob darwin_NewScanner =
     (case ScanTTY drv readfile glob of
        None \<Rightarrow> None | Some xs \<Rightarrow> map_option (\<lambda>ys. xs @ ys) (ScanCU drv readfile glob))"
    unfolding darwin_Scan_def ScanTTY_def ScanCU_def by (simp only: scan_patterns_append)
  show "darwin_Scan drv readfile glob (darwin_AddSearchPath p s) =
     (case darwin_Scan drv readfile glob s of
        None \<Rightarrow> None | Some xs \<Rightarrow> map_option (\<lambda>ys. xs @ ys) (scan_patterns glob (darwin_isAccessible drv readfile) [p]))"
    unfolding darwin_Scan_def darwin_AddSearchPath_def by (simp add: scan_patterns_append del: scan_patterns.simps)
qed

subsection \<open>The pseudo terminal\<close>

record 'f darwin_pty =
  dp_mu :: bool
  dp_dev :: "'f real_pty"

definition pty_locked ::
    "('f real_pty \<Rightarrow> 'o \<Rightarrow> 'f real_pty \<times> 'o \<times> 'r) \<Rightarrow> 'f darwin_pty \<Rightarrow> 'o \<Rightarrow> ('f darwin_pty \<times> 'o \<times> 'r) option" where
  "pty_locked f g w =
     (if dp_mu g then None
      else let (r, w', x) = f (dp_dev g) w in Some (g\<lparr>dp_mu := False, dp_dev := r\<rparr>, w', x))"

definition darwin_SymlinkPath :: "'f darwin_pty \<Rightarrow> 'o \<Rightarrow> ('f darwin_pty \<times> 'o \<times> string) option" where
  "darwin_SymlinkPath = pty_locked (\<lambda>r w. (r, w, rp_symlinkPath r))"

definition darwin_Read ::
    "('o, 'f) pty_os \<Rightarrow> nat \<Rightarrow> 'f darwin_pty \<Rightarrow> 'o \<Rightarrow> ('f darwin_pty \<times> 'o \<times> (go_error + bytes)) option" where
  "darwin_Read os n = pty_locked (\<lambda>r w.
     if \<not> rp_open r \<or> rp_master r = None then (r, w, Inl ErrPTYNotOpen) else (r, po_read os n (the (rp_master r)) w))"

definition darwin_Write ::
    "('o, 'f) pty_os \<Rightarrow> bytes \<Rightarrow> 'f darwin_pty \<Rightarrow> 'o \<Rightarrow> ('f darwin_pty \<times> 'o \<times> (go_error + nat)) option" where
  "darwin_Write os buf = pty_locked (\<lambda>r w.
     if \<not> rp_open r \<or> rp_master r = None then (r, w, Inl ErrPTYNotOpen) else (r, po_write os buf (the (rp_master r)) w))"

definition darwin_ReadFromSlave ::
    "('o, 'f) pty_os \<Rightarrow> nat \<Rightarrow> 'f darwin_pty \<Rightarrow> 'o \<Rightarrow> ('f darwin_pty \<times> 'o \<times> (go_error + bytes)) option" where
  "darwin_ReadFromSlave os n = pty_locked (\<lambda>r w.
     if \<not> rp_open r \<or> rp_slave r = None then (r, w, Inl ErrPTYNotOpen) else (r, po_read os n (the (rp_slave r)) w))"

definition darwin_Close :: "('o, 'f) pty_os \<Rightarrow> 'f darwin_pty \<Rightarrow> 'o \<Rightarrow> ('f darwin_pty \<times> 'o \<times> unit) option" where
  "darwin_Close os = pty_locked (\<lambda>r w. case darwin_RealPTYDevice_Close os r w of (r', w') \<Rightarrow> (r', w', ()))"

definition darwin_IsOpen :: "'f darwin_pty \<Rightarrow> 'o \<Rightarrow> ('f darwin_pty \<times> 'o \<times> bool) option" where
  "darwin_IsOpen = pty_locked (\<lambda>r w. (r, w, rp_open r))"

definition darwin_SetTermios :: "termios_config \<Rightarrow> 'f darwin_pty \<Rightarrow> 'o \<Rightarrow> ('f darwin_pty \<times> 'o \<times> unit) option" where
  "darwin_SetTermios config = pty_locked (\<lambda>r w. (r\<lparr>rp_termios := config\<rparr>, w, ()))"

definition darwin_GetTermios :: "'f darwin_pty \<Rightarrow> 'o \<Rightarrow> ('f darwin_pty \<times> 'o \<times> termios_config) option" where
  "darwin_GetTermios = pty_locked (\<lambda>r w. (r, w, rp_termios r))"

text \<open>The one method that does not take the mutex, so it goes through while a read is pending.\<close>

definition darwin_InjectExternalData :: "('o, 'f) pty_os \<Rightarrow> bytes \<Rightarrow> 'f darwin_pty \<Rightarrow> 'o \<Rightarrow> 'o" where
  "darwin_InjectExternalData os data g w =
     (case rp_slave (dp_dev g) of None \<Rightarrow> w | Some f \<Rightarrow> fst (po_write os data f w))"

definition darwin_GetSlaveData :: "'f darwin_pty \<Rightarrow> bytes" where
  "darwin_GetSlaveData g = []"

datatype 'f darwin_device = DarwinPTY "'f darwin_pty" | DarwinMock mock_pty

definition darwin_CreatePTY :: "('o, 'f) pty_os \<Rightarrow> string \<Rightarrow> 'o \<Rightarrow> 'o \<times> (go_error + 'f darwin_device)" where
  "darwin_CreatePTY os symlinkPath w =
     (case darwin_CreateRealPTY os symlinkPath w of
        (w1, Inl err) \<Rightarrow> (w1, Inr (DarwinMock (CreateMockPTY symlinkPath)))
      | (w1, Inr r) \<Rightarrow> (w1, Inr (DarwinPTY \<lparr>dp_mu = False, dp_dev = r\<rparr>)))"

lemmas darwin_pty_defs = darwin_SymlinkPath_def darwin_Read_def darwin_Write_def darwin_ReadFromSlave_def
  darwin_Close_def darwin_IsOpen_def darwin_SetTermios_def darwin_GetTermios_def pty_locked_def

text \<open>A call on a free device is the Linux method on its record and leaves the device free; the two
  closings differ only in that macOS closes again what is already closed.\<close>

theorem darwin_pty_is_linux:
  "darwin_Read os n \<lparr>dp_mu = False, dp_dev = r\<rparr> w = Some (\<lparr>dp_mu = False, dp_dev = r\<rparr>, RealPTYDevice_Read os n r w) \<and>
   darwin_Write os b \<lparr>dp_mu = False, dp_dev = r\<rparr> w = Some (\<lparr>dp_mu = False, dp_dev = r\<rparr>, RealPTYDevice_Write os b r w) \<and>
   darwin_ReadFromSlave os n \<lparr>dp_mu = False, dp_dev = r\<rparr> w =
     Some (\<lparr>dp_mu = False, dp_dev = r\<rparr>, RealPTYDevice_ReadFromSlave os n r w) \<and>
   darwin_InjectExternalData os b \<lparr>dp_mu = False, dp_dev = r\<rparr> w = RealPTYDevice_InjectExternalData os b r w \<and>
   (case linux_RealPTYDevice_Close os (r\<lparr>rp_open := True\<rparr>) w of
      (r', w') \<Rightarrow> darwin_Close os \<lparr>dp_mu = False, dp_dev = r\<rparr> w = Some (\<lparr>dp_mu = False, dp_dev = r'\<rparr>, w', ()))"
  by (auto simp: darwin_pty_defs RealPTYDevice_Read_def RealPTYDevice_Write_def RealPTYDevice_ReadFromSlave_def
      RealPTYDevice_InjectExternalData_def darwin_InjectExternalData_def linux_RealPTYDevice_Close_def
      darwin_RealPTYDevice_Close_def close_files_def close_opt_def split: option.split)

end
