(* ===== verification/Windows_Server.thy ===== *)
theory Windows_Server
  imports Server_Main Tcp_Exec
begin

text \<open>
  The Windows server, \<open>cmd/server-windows/main.go\<close>, over the serial port of its platform. Its reader is
  the loop of the Linux server, but the port's \<open>Read\<close> takes the port's mutex and keeps it until the
  driver returns, and a handler's \<open>Write\<close> waits for that mutex. \<open>w_mu\<close> says that the reader waits in the
  driver with the mutex; the driver's read returns when the device has sent something. A mock port
  (the fallback of \<open>NewPort\<close>) and a closed one return at once.

  The theorem is the consequence for the whole server: while the device is silent no client can
  write to it, whoever holds the write lock.
\<close>

record 'd win_sys =
  wm :: "'d main_sys"
  w_mu :: bool

datatype 'd win_event = WMain "'d main_event" | WReadStart | WReadReturn

definition port_blocks :: "'d main_sys \<Rightarrow> bool" where
  "port_blocks s = (case ts_serial (sv (ms_srv s)) of Some (RealPort r) \<Rightarrow> rs_open r \<and> rs_port r \<noteq> None | _ \<Rightarrow> False)"

text \<open>The main goroutine after the signal: \<open>close(stopChan)\<close> and \<open>srv.Stop()\<close>.\<close>

definition win_shutdown :: "'d driver \<Rightarrow> 'd main_sys \<Rightarrow> 'd main_event \<Rightarrow> 'd main_sys \<Rightarrow> bool" where
  "win_shutdown drv s e t \<longleftrightarrow> (e = MSignal \<or> e = MStopServer) \<and> main_step drv s e t"

fun is_serial_write :: "'d main_event \<Rightarrow> bool" where
  "is_serial_write (MSrv (SerialWrite h)) = True"
| "is_serial_write e = False"

inductive win_step :: "'d driver \<Rightarrow> 'd win_sys \<Rightarrow> 'd win_event \<Rightarrow> 'd win_sys \<Rightarrow> bool" for drv where
  w_read_start: "ms_reader (wm s) = RdRead \<Longrightarrow> port_blocks (wm s) \<Longrightarrow> \<not> w_mu s \<Longrightarrow>
    win_step drv s WReadStart (s\<lparr>w_mu := True\<rparr>)"
| w_read_return: "w_mu s \<Longrightarrow> main_step drv (wm s) MRead t \<Longrightarrow>
    win_step drv s WReadReturn (s\<lparr>wm := t, w_mu := False\<rparr>)"
| w_read_at_once: "\<not> w_mu s \<Longrightarrow> \<not> port_blocks (wm s) \<Longrightarrow> main_step drv (wm s) MRead t \<Longrightarrow>
    win_step drv s (WMain MRead) (s\<lparr>wm := t\<rparr>)"
| w_write: "\<not> w_mu s \<Longrightarrow> is_serial_write e \<Longrightarrow> main_step drv (wm s) e t \<Longrightarrow>
    win_step drv s (WMain e) (s\<lparr>wm := t\<rparr>)"
| w_shutdown: "win_shutdown drv (wm s) e t \<Longrightarrow> win_step drv s (WMain e) (s\<lparr>wm := t\<rparr>)"
| w_other: "e \<notin> {MRead, MSignal, MStopServer} \<Longrightarrow> \<not> is_serial_write e \<Longrightarrow> main_step drv (wm s) e t \<Longrightarrow>
    win_step drv s (WMain e) (s\<lparr>wm := t\<rparr>)"

inductive_cases win_stepE: "win_step drv s e t"

inductive win_steps :: "'d driver \<Rightarrow> 'd win_sys \<Rightarrow> 'd win_event list \<Rightarrow> 'd win_sys \<Rightarrow> bool" for drv where
  win_nil: "win_steps drv s [] s"
| win_cons: "win_step drv s e t \<Longrightarrow> win_steps drv t es u \<Longrightarrow> win_steps drv s (e # es) u"

inductive_simps win_steps_Nil: "win_steps drv s [] u"
inductive_simps win_steps_Cons: "win_steps drv s (e # es) u"

interpretation win_runs: runs "win_step drv" "win_steps drv" for drv :: "'d driver"
  by unfold_locales (auto simp: win_steps_Nil win_steps_Cons)

definition win_init :: "string \<Rightarrow> 'd any_port \<Rightarrow> 'd win_sys" where
  "win_init addr port = \<lparr>wm = main_init addr port, w_mu = False\<rparr>"

subsection \<open>A silent device\<close>

lemma srv_inv_port [simp]: "srv_inv (ms_srv (set_port p s)) = srv_inv (ms_srv s)"
  by (simp add: srv_inv_def ids_ok_def clients_ok_def live_def set_port_def)

lemma srv_inv_main_step: "main_step drv s e t \<Longrightarrow> srv_inv (ms_srv s) \<Longrightarrow> srv_inv (ms_srv t)"
  by (induction rule: main_step.induct) (auto intro: srv_inv_step)

lemma srv_inv_win_step: "win_step drv s e t \<Longrightarrow> srv_inv (ms_srv (wm s)) \<Longrightarrow> srv_inv (ms_srv (wm t))"
  by (induction rule: win_step.induct) (auto simp: win_shutdown_def intro: srv_inv_main_step)

lemma srv_inv_win_steps:
  assumes "win_steps drv s es t" and "srv_inv (ms_srv (wm s))"
  shows "srv_inv (ms_srv (wm t))"
  using assms by (rule win_runs.steps_keep) (rule srv_inv_win_step)

text \<open>Only \<open>SerialWrite\<close> writes, and takes a handler from its write.\<close>

definition writes_kept :: "'d srv_sys \<Rightarrow> 'd srv_sys \<Rightarrow> bool" where
  "writes_kept s t \<longleftrightarrow> g_writes t = g_writes s \<and> (\<forall>h d. hp s h = HWrite d \<longrightarrow> hp t h = HWrite d)"

lemma writes_kept_refl [simp]: "writes_kept s s"
  by (simp add: writes_kept_def)

lemma writes_kept_trans: "writes_kept s t \<Longrightarrow> writes_kept t u \<Longrightarrow> writes_kept s u"
  by (simp add: writes_kept_def)

lemma srv_keeps_writes:
  assumes "srv_step drv s e t" and "\<forall>h. e \<noteq> SerialWrite h" and "ids_ok s"
  shows "writes_kept s t"
  using assms
proof (induction rule: srv_step.induct)
  case (accept_register s k)
  then show ?case by (auto simp: writes_kept_def srv_simps ids_ok_def)
qed (auto simp: writes_kept_def srv_simps)

lemma main_keeps_writes:
  assumes "main_step drv s e t" and "\<not> is_serial_write e" and "srv_inv (ms_srv s)"
  shows "writes_kept (ms_srv s) (ms_srv t)"
  using assms
proof (induction rule: main_step.induct)
  case (srv_acts s e u)
  have "\<forall>h. e \<noteq> SerialWrite h" using srv_acts.prems(1) by (cases e) auto
  with srv_acts show ?case by (auto simp: srv_inv_def intro: srv_keeps_writes)
qed (auto simp: srv_inv_def intro: srv_keeps_writes, auto simp: writes_kept_def set_port_def)

lemma win_keeps_writes:
  assumes "win_step drv s e t" and "w_mu s" and "e \<noteq> WReadReturn" and "srv_inv (ms_srv (wm s))"
  shows "w_mu t \<and> writes_kept (ms_srv (wm s)) (ms_srv (wm t))"
  using assms
proof (induction rule: win_step.induct)
  case (w_shutdown s e t)
  then have "main_step drv (wm s) e t" "\<not> is_serial_write e" by (auto simp: win_shutdown_def)
  with w_shutdown.prems main_keeps_writes show ?case by simp
qed (auto intro: main_keeps_writes)

lemma win_silent:
  assumes "win_steps drv s es t" and "w_mu s" and "WReadReturn \<notin> set es" and "srv_inv (ms_srv (wm s))"
  shows "w_mu t \<and> writes_kept (ms_srv (wm s)) (ms_srv (wm t))"
proof -
  have "w_mu t \<and> srv_inv (ms_srv (wm t)) \<and> writes_kept (ms_srv (wm s)) (ms_srv (wm t))"
    by (rule win_runs.steps_keep_on [OF assms(1), where Q = "\<lambda>e. e \<noteq> WReadReturn"])
      (use assms(2-4) in \<open>auto dest: win_keeps_writes srv_inv_win_step intro: writes_kept_trans\<close>)
  then show ?thesis by simp
qed

text \<open>C13: on the Windows server, from the moment its reader waits in the serial driver until the device
  sends something, no byte of any client reaches the device: whatever the clients, the timers, the
  broadcast loop and the main goroutine do, the output stays as it is and every handler that has
  come to its write, the lock's holder included, stays there.\<close>

theorem silent_device_mutes_windows:
  assumes "win_steps drv (win_init addr port) es s" and "w_mu s"
    and "win_steps drv s es' t" and "WReadReturn \<notin> set es'"
  shows "g_writes (ms_srv (wm t)) = g_writes (ms_srv (wm s)) \<and>
    (hp (ms_srv (wm s)) h = HWrite d \<longrightarrow> hp (ms_srv (wm t)) h = HWrite d)"
proof -
  have "srv_inv (ms_srv (wm s))"
    using srv_inv_win_steps [OF assms(1)] by (simp add: win_init_def main_init_def srv_inv_init)
  with win_silent [OF assms(3,2,4)] show ?thesis by (simp add: writes_kept_def)
qed

text \<open>A run: a client's command comes to its write while the reader waits.\<close>

lemma is_serial_write_iff: "is_serial_write (MSrv e) \<longleftrightarrow> (\<exists>h. e = SerialWrite h)"
  by (cases e) auto

lemma win_srv_steps:
  "srv_steps drv w es u \<Longrightarrow> ms_srv (wm s) = w \<Longrightarrow> \<forall>e \<in> set es. \<not> own_call e \<and> (\<forall>h. e \<noteq> SerialWrite h) \<Longrightarrow>
     win_steps drv s (map (\<lambda>e. WMain (MSrv e)) es) (s\<lparr>wm := (wm s)\<lparr>ms_srv := u\<rparr>\<rparr>)"
proof (induction arbitrary: s rule: srv_steps.induct)
  case (srv_nil w)
  then show ?case by (auto simp: win_steps_Nil)
next
  case (srv_cons w e t es u)
  have "\<not> own_call e" "\<forall>h. e \<noteq> SerialWrite h" "srv_step drv (ms_srv (wm s)) e t"
    using srv_cons.hyps(1) srv_cons.prems by auto
  then have "win_step drv s (WMain (MSrv e)) (s\<lparr>wm := (wm s)\<lparr>ms_srv := t\<rparr>\<rparr>)"
    by (intro win_step.w_other main_step.srv_acts) (auto simp: is_serial_write_iff)
  with srv_cons.IH [of "s\<lparr>wm := (wm s)\<lparr>ms_srv := t\<rparr>\<rparr>"] srv_cons.prems show ?case
    by (auto simp: win_steps_Cons)
qed

definition demo_port :: "bytes any_port" where
  "demo_port = RealPort \<lparr>rs_port = Some [], rs_open = True, rs_path = ''COM3'', rs_config = DefaultConfig\<rparr>"

lemma win_demo:
  "\<exists>es s. win_steps loopback (win_init '':9999'' demo_port) es s \<and> w_mu s \<and> hp (ms_srv (wm s)) 0 = HWrite [1]"
proof -
  let ?s0 = "win_init '':9999'' demo_port"
  have "\<exists>u. srv_execs loopback [ReadOk 0 [1], Check 0, First 0, Guard 0] (one_client demo_port) = Some u \<and> hp u 0 = HWrite [1] \<and>
      ts_serial (sv u) = Some demo_port"
    by (simp add: srv_run_simps)
  then obtain u where u: "srv_execs loopback [ReadOk 0 [1], Check 0, First 0, Guard 0] (one_client demo_port) = Some u"
      "hp u 0 = HWrite [1]" "ts_serial (sv u) = Some demo_port" by blast
  let ?es = "[Accept 0 ''a'', Register 0] @ [ReadOk 0 [1], Check 0, First 0, Guard 0]"
  let ?s1 = "?s0\<lparr>wm := (wm ?s0)\<lparr>ms_srv := u\<rparr>\<rparr>"
  let ?s2 = "?s1\<lparr>wm := (wm ?s1)\<lparr>ms_reader := RdRead\<rparr>\<rparr>"
  have "srv_steps loopback (srv_init '':9999'' demo_port) ?es u"
    unfolding srv_steps_append using one_client_reached srv_execs_steps [OF u(1)] by blast
  then have 1: "win_steps loopback ?s0 (map (\<lambda>e. WMain (MSrv e)) ?es) ?s1"
    by (rule win_srv_steps) (simp_all add: win_init_def main_init_def)
  have "win_step loopback ?s1 (WMain MSelect) ?s2"
    using main_step.select [of "wm ?s1" loopback] by (intro win_step.w_other) (simp_all add: win_init_def main_init_def)
  moreover have "win_step loopback ?s2 WReadStart (?s2\<lparr>w_mu := True\<rparr>)"
    by (intro win_step.w_read_start) (simp_all add: win_init_def main_init_def port_blocks_def u(3) demo_port_def)
  ultimately have "win_steps loopback ?s1 [WMain MSelect, WReadStart] (?s2\<lparr>w_mu := True\<rparr>)"
    unfolding win_steps_Cons win_steps_Nil by blast
  with 1 have "win_steps loopback ?s0 (map (\<lambda>e. WMain (MSrv e)) ?es @ [WMain MSelect, WReadStart]) (?s2\<lparr>w_mu := True\<rparr>)"
    unfolding win_runs.steps_append by blast
  moreover have "w_mu (?s2\<lparr>w_mu := True\<rparr>)" "hp (ms_srv (wm (?s2\<lparr>w_mu := True\<rparr>))) 0 = HWrite [1]"
    using u(2) by simp_all
  ultimately show ?thesis by blast
qed

theorem silent_device_mutes_windows_witness:
  "\<exists>es s t. win_steps loopback (win_init '':9999'' demo_port) es s \<and> w_mu s \<and> hp (ms_srv (wm s)) 0 = HWrite [1] \<and>
     win_steps loopback s [WMain (MSrv (ArbTimer (ETick 31000000000)))] t \<and> hp (ms_srv (wm t)) 0 = HWrite [1]"
proof -
  obtain es s where s: "win_steps loopback (win_init '':9999'' demo_port) es s" "w_mu s" "hp (ms_srv (wm s)) 0 = HWrite [1]"
    using win_demo by blast
  let ?e = "ArbTimer (ETick 31000000000)"
  have "srv_step loopback (ms_srv (wm s)) ?e (with_arb (ms_srv (wm s)) (the (arb_do (ETick 31000000000) (the_arb (ms_srv (wm s))))))"
    by (intro srv_step.arb_timer) (simp_all add: timer_event_def)
  then obtain u where "srv_steps loopback (ms_srv (wm s)) [?e] u"
    by (auto simp: srv_steps_Cons srv_steps_Nil)
  from win_srv_steps [OF this, of s] obtain t where t: "win_steps loopback s [WMain (MSrv ?e)] t" by auto
  from silent_device_mutes_windows [OF s(1,2) t, of 0 "[1]"] s t show ?thesis by auto
qed

end
