(* ===== verification/Client_Shutdown.thy ===== *)
theory Client_Shutdown
  imports Client_Main
begin

text \<open>
  How the client of Linux and macOS ends (\<open>main\<close> in \<open>cmd/client/main.go\<close>): the goroutine from the
  terminal to the server with the reader it starts for every chunk, against the main goroutine, which
  closes \<open>stopChan\<close> after a signal or a reconnect error, waits at most two seconds for each goroutine,
  stops the manager, disconnects and closes the device. The other goroutines are those of \<open>cl_do\<close>.

  With \<open>locking\<close> (macOS) the device's mutex is held by a read until its system call returns and
  \<open>Close\<close> waits for it; without (Linux) \<open>Close\<close> never waits. The system call returns when there is
  input or the file has been closed. A wait of two seconds can always end.
\<close>

text \<open>The reader: not started, called, in the system call, returned with an error or data.\<close>

datatype reader_go = RgNone | RgCalled | RgDevice | RgReturned "bytes option"

datatype p2s_pc = PsSpawn | PsWait | PsClosing | PsEnd

datatype stop_pc = SdRun | SdWaitS2P | SdWaitP2S | SdStop | SdDisconnect | SdClose | SdDone | SdPanic

record shut_sys =
  sh_cl :: cl_sys
  sh_p2s :: p2s_pc
  sh_rd :: reader_go
  sh_held :: bool
  sh_open :: bool
  sh_input :: bytes
  sh_sent :: "(nat \<times> bytes) list"
  sh_main :: stop_pc

datatype shut_event =
    ShClient cl_event | ShStop cl_event
  | ShSpawn | ShEnter | ShRefused | ShData | ShEof | ShInput bytes
  | ShSeeStop | ShCloseDevice | ShTake
  | ShDone | ShTimeout | ShMain

definition stopped :: "shut_sys \<Rightarrow> bool" where
  "stopped s \<longleftrightarrow> cl_main (sh_cl s) \<noteq> CWait"

definition the_mgr :: "shut_sys \<Rightarrow> reconnect_manager" where
  "the_mgr s = rc_mgr (cl_rc (sh_cl s))"

definition set_mgr :: "reconnect_manager \<Rightarrow> shut_sys \<Rightarrow> shut_sys" where
  "set_mgr r s = s\<lparr>sh_cl := (sh_cl s)\<lparr>cl_rc := (cl_rc (sh_cl s))\<lparr>rc_mgr := r\<rparr>\<rparr>\<rparr>"

text \<open>What the goroutine does with a finished read when it is not stopped.\<close>

definition take_read :: "bytes option \<Rightarrow> shut_sys \<Rightarrow> shut_sys" where
  "take_read r s =
     (case pty_to_server False (case r of None \<Rightarrow> Inl IoEOF | Some d \<Rightarrow> Inr d)
             (ReconnectManager_GetConnection (the_mgr s)) (ReconnectManager_IsConnected (the_mgr s)) of
        P2S_Write c d \<Rightarrow> s\<lparr>sh_p2s := PsSpawn, sh_rd := RgNone, sh_sent := sh_sent s @ [(c, d)]\<rparr>
      | P2S_Skip \<Rightarrow> s\<lparr>sh_p2s := PsSpawn, sh_rd := RgNone\<rparr>
      | _ \<Rightarrow> s\<lparr>sh_p2s := PsEnd, sh_rd := RgNone\<rparr>)"

fun is_main :: "cl_event \<Rightarrow> bool" where
  "is_main MainSignal = True"
| "is_main MainError = True"
| "is_main e = False"

inductive shut_step :: "bool \<Rightarrow> shut_sys \<Rightarrow> shut_event \<Rightarrow> shut_sys \<Rightarrow> bool" for locking where
  sh_client: "\<not> is_main e \<Longrightarrow> cl_do e (sh_cl s) = Some c \<Longrightarrow>
    shut_step locking s (ShClient e) (s\<lparr>sh_cl := c\<rparr>)"
| sh_stop: "sh_main s = SdRun \<Longrightarrow> is_main e \<Longrightarrow> cl_do e (sh_cl s) = Some c \<Longrightarrow>
    shut_step locking s (ShStop e) (s\<lparr>sh_cl := c, sh_main := SdWaitS2P\<rparr>)"
| sh_spawn: "sh_p2s s = PsSpawn \<Longrightarrow>
    shut_step locking s ShSpawn (s\<lparr>sh_p2s := PsWait, sh_rd := RgCalled\<rparr>)"
| sh_enter: "sh_rd s = RgCalled \<Longrightarrow> \<not> sh_held s \<Longrightarrow> sh_open s \<Longrightarrow>
    shut_step locking s ShEnter (s\<lparr>sh_rd := RgDevice, sh_held := locking\<rparr>)"
| sh_refused: "sh_rd s = RgCalled \<Longrightarrow> \<not> sh_held s \<Longrightarrow> \<not> sh_open s \<Longrightarrow>
    shut_step locking s ShRefused (s\<lparr>sh_rd := RgReturned None\<rparr>)"
| sh_data: "sh_rd s = RgDevice \<Longrightarrow> sh_open s \<Longrightarrow> sh_input s \<noteq> [] \<Longrightarrow>
    shut_step locking s ShData
      (s\<lparr>sh_rd := RgReturned (Some (take 1024 (sh_input s))), sh_input := drop 1024 (sh_input s), sh_held := False\<rparr>)"
| sh_eof: "sh_rd s = RgDevice \<Longrightarrow> \<not> sh_open s \<Longrightarrow>
    shut_step locking s ShEof (s\<lparr>sh_rd := RgReturned None, sh_held := False\<rparr>)"
| sh_input: "shut_step locking s (ShInput d) (s\<lparr>sh_input := sh_input s @ d\<rparr>)"
| sh_see_stop: "sh_p2s s = PsWait \<Longrightarrow> stopped s \<Longrightarrow>
    shut_step locking s ShSeeStop (s\<lparr>sh_p2s := PsClosing\<rparr>)"
| sh_close_device: "sh_p2s s = PsClosing \<Longrightarrow> \<not> sh_held s \<Longrightarrow>
    shut_step locking s ShCloseDevice (s\<lparr>sh_p2s := PsEnd, sh_open := False\<rparr>)"
| sh_take: "sh_p2s s = PsWait \<Longrightarrow> sh_rd s = RgReturned r \<Longrightarrow>
    shut_step locking s ShTake (take_read r s)"
| sh_s2p_done: "sh_main s = SdWaitS2P \<Longrightarrow> cl_fwd (sh_cl s) = FEnd \<Longrightarrow>
    shut_step locking s ShDone (s\<lparr>sh_main := SdWaitP2S\<rparr>)"
| sh_s2p_timeout: "sh_main s = SdWaitS2P \<Longrightarrow> shut_step locking s ShTimeout (s\<lparr>sh_main := SdWaitP2S\<rparr>)"
| sh_p2s_done: "sh_main s = SdWaitP2S \<Longrightarrow> sh_p2s s = PsEnd \<Longrightarrow>
    shut_step locking s ShDone (s\<lparr>sh_main := SdStop\<rparr>)"
| sh_p2s_timeout: "sh_main s = SdWaitP2S \<Longrightarrow> shut_step locking s ShTimeout (s\<lparr>sh_main := SdStop\<rparr>)"
| sh_stop_mgr: "sh_main s = SdStop \<Longrightarrow>
    shut_step locking s ShMain
      (case ReconnectManager_Stop (the_mgr s) of
         Inl p \<Rightarrow> s\<lparr>sh_main := SdPanic\<rparr>
       | Inr r \<Rightarrow> (set_mgr r s)\<lparr>sh_main := SdDisconnect\<rparr>)"
| sh_disconnect: "sh_main s = SdDisconnect \<Longrightarrow> ReconnectManager_Disconnect (the_mgr s) = (r, c) \<Longrightarrow>
    shut_step locking s ShMain
      ((set_mgr r (s\<lparr>sh_cl := (sh_cl s)\<lparr>cl_closed := cl_closed (sh_cl s) \<union> set_option c\<rparr>\<rparr>))\<lparr>sh_main := SdClose\<rparr>)"
| sh_close: "sh_main s = SdClose \<Longrightarrow> \<not> sh_held s \<Longrightarrow>
    shut_step locking s ShMain (s\<lparr>sh_main := SdDone, sh_open := False\<rparr>)"

inductive_cases shut_stepE: "shut_step locking s e t"

inductive shut_steps :: "bool \<Rightarrow> shut_sys \<Rightarrow> shut_event list \<Rightarrow> shut_sys \<Rightarrow> bool" for locking where
  shut_nil: "shut_steps locking s [] s"
| shut_cons: "shut_step locking s e t \<Longrightarrow> shut_steps locking t es u \<Longrightarrow> shut_steps locking s (e # es) u"

inductive_simps shut_steps_Nil: "shut_steps locking s [] u"
inductive_simps shut_steps_Cons: "shut_steps locking s (e # es) u"

interpretation shut_runs: runs "shut_step locking" "shut_steps locking" for locking
  by unfold_locales (auto simp: shut_steps_Nil shut_steps_Cons)

definition shut_init :: "int \<Rightarrow> nat \<Rightarrow> shut_sys" where
  "shut_init maxRetry c =
     \<lparr>sh_cl = cl_init maxRetry c, sh_p2s = PsSpawn, sh_rd = RgNone, sh_held = False, sh_open = True,
      sh_input = [], sh_sent = [], sh_main = SdRun\<rparr>"

subsection \<open>Linux: the client ends\<close>











subsection \<open>macOS: the client hangs\<close>

definition device_busy :: "shut_sys \<Rightarrow> bool" where
  "device_busy s \<longleftrightarrow> sh_rd s = RgDevice \<and> sh_held s \<and> sh_open s \<and> sh_input s = [] \<and> sh_main s \<noteq> SdDone \<and> sh_p2s s \<noteq> PsSpawn"

lemma device_busy_step:
  "shut_step True s e t \<Longrightarrow> device_busy s \<Longrightarrow> (\<And>d. e \<noteq> ShInput d) \<Longrightarrow> device_busy t"
  by (erule shut_stepE) (auto simp: device_busy_def set_mgr_def split: sum.splits)

lemma device_busy_steps:
  assumes "shut_steps True s es t" and "device_busy s" and "\<forall>d. ShInput d \<notin> set es"
  shows "device_busy t"
  using assms(1,2) by (rule shut_runs.steps_keep_on [where Q = "\<lambda>e. \<forall>d. e \<noteq> ShInput d"])
    (use assms(3) in \<open>auto dest: device_busy_step\<close>)

text \<open>The reader in the system call has the mutex, and its starter waits for it or closes the device.\<close>

definition reader_inv :: "shut_sys \<Rightarrow> bool" where
  "reader_inv s \<longleftrightarrow> (sh_rd s = RgDevice \<longleftrightarrow> sh_held s) \<and>
     (sh_p2s s = PsSpawn \<longrightarrow> sh_rd s = RgNone) \<and> (sh_held s \<longrightarrow> sh_open s)"

lemma reader_inv_step: "shut_step True s e t \<Longrightarrow> reader_inv s \<Longrightarrow> reader_inv t"
  by (erule shut_stepE)
    (auto simp: reader_inv_def set_mgr_def take_read_def split: sum.splits p2s_action.splits)

lemma reader_inv_steps:
  assumes "shut_steps True s es t" and "reader_inv s"
  shows "reader_inv t"
  using assms by (rule shut_runs.steps_keep) (rule reader_inv_step)

text \<open>C31: on macOS the client does not end while the user types nothing: once the reader waits in the
  terminal's system call, the shutdown cannot get past closing the device, however often its waits of
  two seconds run out, because \<open>Close\<close> waits for the mutex that the reader holds.\<close>

theorem macos_client_hangs:
  assumes "shut_steps True (shut_init n c) es s" and "sh_rd s = RgDevice" and "sh_input s = []"
    and "sh_main s \<noteq> SdDone" and "shut_steps True s es' t" and "\<forall>d. ShInput d \<notin> set es'"
  shows "sh_main t \<noteq> SdDone \<and> sh_open t \<and> \<not> shut_step True t ShCloseDevice u \<and>
    (sh_main t = SdClose \<longrightarrow> \<not> shut_step True t ShMain u)"
proof -
  have "reader_inv s"
    by (rule reader_inv_steps [OF assms(1)]) (simp add: reader_inv_def shut_init_def)
  with assms(2-4) have "device_busy s" by (auto simp: reader_inv_def device_busy_def)
  from device_busy_steps [OF assms(5) this assms(6)] have b: "device_busy t" .
  then have "\<not> shut_step True t ShCloseDevice u" "sh_main t = SdClose \<Longrightarrow> \<not> shut_step True t ShMain u"
    by (auto simp: device_busy_def elim: shut_stepE)
  with b show ?thesis by (auto simp: device_busy_def)
qed

subsection \<open>Runs\<close>

text \<open>The idle client: its reader waits, and then the signal comes.\<close>

lemma idle_run:
  "\<exists>s. shut_steps l (shut_init 3 7) [ShSpawn, ShEnter, ShStop MainSignal] s \<and> sh_rd s = RgDevice \<and> sh_input s = [] \<and>
     sh_main s = SdWaitS2P"
proof -
  let ?s0 = "shut_init 3 7"
  let ?s1 = "?s0\<lparr>sh_p2s := PsWait, sh_rd := RgCalled\<rparr>"
  let ?s2 = "?s1\<lparr>sh_rd := RgDevice, sh_held := l\<rparr>"
  let ?s3 = "?s2\<lparr>sh_cl := (sh_cl ?s2)\<lparr>cl_main := CSignalled\<rparr>, sh_main := SdWaitS2P\<rparr>"
  have "shut_step l ?s0 ShSpawn ?s1" by (rule shut_step.sh_spawn) (simp add: shut_init_def)
  moreover have "shut_step l ?s1 ShEnter ?s2" by (rule shut_step.sh_enter) (simp_all add: shut_init_def)
  moreover have "shut_step l ?s2 (ShStop MainSignal) ?s3"
    by (rule shut_step.sh_stop) (simp_all add: shut_init_def cl_init_def)
  ultimately have "shut_steps l ?s0 [ShSpawn, ShEnter, ShStop MainSignal] ?s3"
    unfolding shut_steps_Cons shut_steps_Nil by blast
  then show ?thesis by (intro exI [of _ ?s3]) (simp add: shut_init_def)
qed


theorem macos_client_hangs_witness:
  "\<exists>s t. shut_steps True (shut_init 3 7) [ShSpawn, ShEnter, ShStop MainSignal] s \<and> sh_main s = SdWaitS2P \<and>
     shut_steps True s [ShTimeout, ShTimeout] t \<and> sh_main t = SdStop \<and> sh_open t"
proof -
  obtain s where s: "shut_steps True (shut_init 3 7) [ShSpawn, ShEnter, ShStop MainSignal] s" "sh_rd s = RgDevice"
      "sh_input s = []" "sh_main s = SdWaitS2P" using idle_run by blast
  let ?t = "s\<lparr>sh_main := SdWaitP2S\<rparr>\<lparr>sh_main := SdStop\<rparr>"
  have t: "shut_steps True s [ShTimeout, ShTimeout] ?t"
    unfolding shut_steps_Cons shut_steps_Nil
    using shut_step.sh_s2p_timeout [of s True] shut_step.sh_p2s_timeout [of "s\<lparr>sh_main := SdWaitP2S\<rparr>" True] s(4) by auto
  from macos_client_hangs [OF s(1-3) _ t] s(4) have "sh_open ?t" by simp
  with s t show ?thesis by (intro exI [of _ s] exI [of _ ?t]) simp
qed

end
