(* ===== verification/Log_Scan.thy ===== *)
theory Log_Scan
  imports Log_Parser
begin

subsection \<open>Parsing without regular expressions\<close>

text \<open>
  The two patterns as scanners by hand: the first bracket that closes over a time of day, and the
  first closing bracket followed by a level name and a colon, with blanks between them.
\<close>

definition digit_str :: "string \<Rightarrow> bool" where
  "digit_str s = list_all (\<lambda>c. c \<in> set digits) s"

fun is_fraction :: "string \<Rightarrow> bool" where
  "is_fraction [] = True"
| "is_fraction (c # s) = (c = CHR ''.'' \<and> s \<noteq> [] \<and> digit_str s)"

definition is_stamp :: "string \<Rightarrow> bool" where
  "is_stamp ts =
     (8 \<le> length ts \<and> digit_str (take 2 ts) \<and> ts ! 2 = CHR '':'' \<and> digit_str (take 2 (drop 3 ts)) \<and>
      ts ! 5 = CHR '':'' \<and> digit_str (take 2 (drop 6 ts)) \<and> is_fraction (drop 8 ts))"

definition stamp_here :: "string \<Rightarrow> string option" where
  "stamp_here s =
     (case s of
        [] \<Rightarrow> None
      | c # t \<Rightarrow>
          let ts = takeWhile (\<lambda>x. x \<noteq> CHR '']'') t in
          if c = CHR ''['' \<and> is_stamp ts \<and> length ts < length t then Some ts else None)"

definition is_space_byte :: "char \<Rightarrow> bool" where
  "is_space_byte c = (c \<in> set spaces)"

definition level_here :: "string \<Rightarrow> string option" where
  "level_here s =
     (case s of
        [] \<Rightarrow> None
      | c # t \<Rightarrow>
          let u = dropWhile is_space_byte t;
              l = takeWhile (\<lambda>x. \<not> is_space_byte x \<and> x \<noteq> CHR '':'') u;
              v = dropWhile is_space_byte (drop (length l) u)
          in if c = CHR '']'' \<and> l \<in> set levels \<and> v \<noteq> [] \<and> hd v = CHR '':'' then Some l else None)"

lemma matches_digit2: "matches digit2 u \<longleftrightarrow> length u = 2 \<and> digit_str u"
  unfolding digit2_def matches_Sq_Cls by (auto simp: digit_str_def length_Suc_conv numeral_2_eq_2)

lemma digit_str_sub: "digit_str s \<longleftrightarrow> set s \<subseteq> set digits"
  by (auto simp: digit_str_def list_all_iff)

lemma matches_fraction:
  "matches (Opt (Grp 2 (Sq (Lit CHR ''.'') (Plus (Cls digits))))) u \<longleftrightarrow> is_fraction u"
  by (cases u) (auto simp: matches_Plus_Cls digit_str_sub)

abbreviation stamp_pat :: regexp where
  "stamp_pat \<equiv> Sq digit2 (Sq (Lit CHR '':'') (Sq digit2 (Sq (Lit CHR '':'') (Sq digit2
              (Opt (Grp 2 (Sq (Lit CHR ''.'') (Plus (Cls digits)))))))))"

lemma matches_parts:
  "matches (Sq p (Sq (Lit x) (Sq q (Sq (Lit y) (Sq r f))))) u \<longleftrightarrow>
     (\<exists>a b c d. u = a @ x # b @ y # c @ d \<and> matches p a \<and> matches q b \<and> matches r c \<and> matches f d)"
  by (simp (no_asm)) blast

lemmas stamp_parts = matches_parts [of digit2 "CHR '':''" digit2 "CHR '':''" digit2
  "Opt (Grp 2 (Sq (Lit CHR ''.'') (Plus (Cls digits))))", unfolded matches_fraction]

lemma matches_stamp: "matches stamp_pat u \<longleftrightarrow> is_stamp u"
proof
  assume "matches stamp_pat u"
  then obtain a b c f where u: "u = a @ CHR '':'' # b @ CHR '':'' # c @ f" "matches digit2 a" "matches digit2 b"
      "matches digit2 c" "is_fraction f"
    unfolding stamp_parts by blast
  then show "is_stamp u"
    unfolding matches_digit2 is_stamp_def by (auto simp: nth_append)
next
  assume s: "is_stamp u"
  let ?t = "take 2 u" and ?m = "take 2 (drop 3 u)" and ?s = "take 2 (drop 6 u)"
  have "8 \<le> length u" using s by (simp add: is_stamp_def)
  then have "u = ?t @ u ! 2 # drop 3 u" "drop 3 u = ?m @ drop 3 u ! 2 # drop 6 u" "drop 3 u ! 2 = u ! 5"
      "drop 6 u = ?s @ drop 8 u"
    using id_take_nth_drop [of 2 u] id_take_nth_drop [of 2 "drop 3 u"] append_take_drop_id [of 2 "drop 6 u"]
    by simp_all
  with s have "u = ?t @ CHR '':'' # ?m @ CHR '':'' # ?s @ drop 8 u" by (metis is_stamp_def)
  moreover have "matches digit2 ?t" "matches digit2 ?m" "matches digit2 ?s"
    using s by (auto simp: matches_digit2 is_stamp_def)
  moreover have "is_fraction (drop 8 u)" using s by (simp add: is_stamp_def)
  ultimately show "matches stamp_pat u" unfolding stamp_parts by blast
qed

lemma stamp_no_bracket: "is_stamp u \<Longrightarrow> CHR '']'' \<notin> set u"
proof -
  assume "is_stamp u"
  then have "matches stamp_pat u" by (simp only: matches_stamp)
  then obtain a b c f where u: "u = a @ CHR '':'' # b @ CHR '':'' # c @ f" "matches digit2 a" "matches digit2 b"
      "matches digit2 c" "is_fraction f"
    unfolding stamp_parts by blast
  then have "set u \<subseteq> set digits \<union> {CHR '':'', CHR ''.''}"
    unfolding matches_digit2 by (cases f) (auto simp: digit_str_sub)
  then show ?thesis by (auto simp: digits_def)
qed

lemma timeRegex_pat: "timeRegex = Sq (Lit CHR ''['') (Sq (Grp 1 stamp_pat) (Lit CHR '']''))"
  by (simp add: timeRegex_def)

lemma takeWhile_stop:
  assumes "c \<notin> set u"
  shows "takeWhile (\<lambda>x. x \<noteq> c) t = u \<and> length (takeWhile (\<lambda>x. x \<noteq> c) t) < length t \<longleftrightarrow> (\<exists>w. t = u @ c # w)"
proof
  assume l: "takeWhile (\<lambda>x. x \<noteq> c) t = u \<and> length (takeWhile (\<lambda>x. x \<noteq> c) t) < length t"
  then have "dropWhile (\<lambda>x. x \<noteq> c) t \<noteq> []" by (metis append_Nil2 nat_neq_iff takeWhile_dropWhile_id)
  then obtain d w where "dropWhile (\<lambda>x. x \<noteq> c) t = d # w" by (meson neq_Nil_conv)
  moreover from this have "d = c" by (simp add: dropWhile_eq_Cons_conv)
  ultimately show "\<exists>w. t = u @ c # w" using l by (metis takeWhile_dropWhile_id)
next
  assume "\<exists>w. t = u @ c # w"
  with assms show "takeWhile (\<lambda>x. x \<noteq> c) t = u \<and> length (takeWhile (\<lambda>x. x \<noteq> c) t) < length t"
    by (auto simp: takeWhile_append)
qed

lemma stamp_here_iff: "stamp_here s = Some u \<longleftrightarrow> is_stamp u \<and> (\<exists>w. s = CHR ''['' # u @ CHR '']'' # w)"
proof (cases s)
  case (Cons c t)
  show ?thesis
  proof (cases "is_stamp u")
    case True
    from takeWhile_stop [OF stamp_no_bracket [OF this], of t] True Cons show ?thesis
      by (auto simp: stamp_here_def Let_def)
  next
    case False
    with Cons show ?thesis by (auto simp: stamp_here_def Let_def)
  qed
qed (simp add: stamp_here_def)

lemma bracket_succs:
  "succs (Sq (Lit a) (Sq (Grp i r) (Lit b))) (t, cs) = [] \<longleftrightarrow> (\<forall>u w. t = a # u @ b # w \<longrightarrow> \<not> matches r u)"
  unfolding succs_empty_iff by auto (metis append.assoc append_Cons append_Nil)

lemma bracket_capture:
  "y \<in> set (succs (Sq (Lit a) (Sq (Grp i r) (Lit b))) (t, cs)) \<Longrightarrow>
     \<exists>u. t = a # u @ b # fst y \<and> matches r u \<and> map_of (snd y) i = Some u"
  by (drule group_capture) (auto simp: Lit_def)

lemma stamp_scan: "group 1 (find_submatch timeRegex line) = leftmost stamp_here line"
proof (rule find_submatch_leftmost)
  show "stamp_here t = None \<Longrightarrow> succs timeRegex (t, []) = []" for t
    unfolding timeRegex_pat bracket_succs matches_stamp using stamp_here_iff [of t] by auto
next
  fix t u y assume h: "stamp_here t = Some u" and "y \<in> set (succs timeRegex (t, []))"
  then obtain v where "t = CHR ''['' # v @ CHR '']'' # fst y" "is_stamp v" "map_of (snd y) 1 = Some v"
    unfolding timeRegex_pat using bracket_capture by (metis matches_stamp)
  moreover from this have "stamp_here t = Some v" using stamp_here_iff by blast
  ultimately show "map_of (snd y) 1 = Some u" using h by simp
next
  show "stamp_here t = Some u \<Longrightarrow> succs timeRegex (t, []) \<noteq> []" for t u
    unfolding timeRegex_pat bracket_succs matches_stamp using stamp_here_iff [of t u] by auto
qed

subsection \<open>The level\<close>

lemma matches_names: "matches level_names u \<longleftrightarrow> u \<in> set levels"
  by (simp add: level_names_def levels_def)

lemma levels_plain: "l \<in> set levels \<Longrightarrow> l \<noteq> [] \<and> list_all (\<lambda>x. \<not> is_space_byte x \<and> x \<noteq> CHR '':'') l"
proof -
  have "list_all (\<lambda>l. l \<noteq> [] \<and> list_all (\<lambda>x. \<not> is_space_byte x \<and> x \<noteq> CHR '':'') l) levels"
    by (simp add: levels_def is_space_byte_def spaces_def)
  then show "l \<in> set levels \<Longrightarrow> l \<noteq> [] \<and> list_all (\<lambda>x. \<not> is_space_byte x \<and> x \<noteq> CHR '':'') l"
    by (auto simp: list_all_iff)
qed

lemma dropWhile_prefix: "list_all P u \<Longrightarrow> v = [] \<or> \<not> P (hd v) \<Longrightarrow> dropWhile P (u @ v) = v"
  by (induction u; cases v) auto

lemma takeWhile_prefix: "list_all P u \<Longrightarrow> v = [] \<or> \<not> P (hd v) \<Longrightarrow> takeWhile P (u @ v) = u"
  by (induction u; cases v) auto

definition level_at :: "string \<Rightarrow> string \<Rightarrow> string \<Rightarrow> bool" where
  "level_at s l w \<longleftrightarrow> l \<in> set levels \<and>
     (\<exists>a b. s = CHR '']'' # a @ l @ b @ CHR '':'' # w \<and> list_all is_space_byte a \<and> list_all is_space_byte b)"

lemma level_here_iff: "level_here s = Some l \<longleftrightarrow> (\<exists>w. level_at s l w)"
proof
  assume "level_here s = Some l"
  then obtain t where s: "s = CHR '']'' # t" and l: "l \<in> set levels"
      "takeWhile (\<lambda>x. \<not> is_space_byte x \<and> x \<noteq> CHR '':'') (dropWhile is_space_byte t) = l"
      and v: "dropWhile is_space_byte (drop (length l) (dropWhile is_space_byte t)) \<noteq> []"
      "hd (dropWhile is_space_byte (drop (length l) (dropWhile is_space_byte t))) = CHR '':''"
    by (auto simp: level_here_def Let_def split: list.splits if_splits)
  define u where "u = dropWhile is_space_byte t"
  define v where "v = drop (length l) u"
  have "t = takeWhile is_space_byte t @ u" by (simp add: u_def)
  moreover have "u = l @ v" using l(2) unfolding u_def [symmetric] v_def
    by (metis append_eq_conv_conj takeWhile_dropWhile_id)
  moreover obtain w where "v = takeWhile is_space_byte v @ CHR '':'' # w"
    using v unfolding u_def [symmetric] v_def [symmetric] by (metis list.collapse takeWhile_dropWhile_id)
  ultimately have "s = CHR '']'' # takeWhile is_space_byte t @ l @ takeWhile is_space_byte v @ CHR '':'' # w"
    using s by (metis append.assoc)
  moreover have "list_all is_space_byte (takeWhile is_space_byte x)" for x
    by (induction x) simp_all
  ultimately show "\<exists>w. level_at s l w" unfolding level_at_def using l(1) by blast
next
  assume "\<exists>w. level_at s l w"
  then obtain a b w where s: "s = CHR '']'' # a @ l @ b @ CHR '':'' # w" and l: "l \<in> set levels"
      and ab: "list_all is_space_byte a" "list_all is_space_byte b"
    unfolding level_at_def by blast
  from levels_plain [OF l] have l1: "l \<noteq> []" "\<not> is_space_byte (hd l)"
      "list_all (\<lambda>x. \<not> is_space_byte x \<and> x \<noteq> CHR '':'') l"
    by (auto simp: neq_Nil_conv)
  have colon: "\<not> is_space_byte CHR '':''" by (simp add: is_space_byte_def spaces_def)
  have d: "dropWhile is_space_byte (a @ l @ b @ CHR '':'' # w) = l @ b @ CHR '':'' # w"
    using l1 by (intro dropWhile_prefix [OF ab(1)]) simp
  have t: "takeWhile (\<lambda>x. \<not> is_space_byte x \<and> x \<noteq> CHR '':'') (l @ b @ CHR '':'' # w) = l"
    using ab(2) by (intro takeWhile_prefix [OF l1(3)]) (cases b; simp)
  have e: "dropWhile is_space_byte (b @ CHR '':'' # w) = CHR '':'' # w"
    using colon by (intro dropWhile_prefix [OF ab(2)]) simp
  show "level_here s = Some l"
    using l by (simp add: s level_here_def Let_def d t e colon)
qed

lemma matches_blanks: "matches (Many (Cls spaces)) u \<longleftrightarrow> list_all is_space_byte u"
  by (auto simp: matches_Many_Cls list_all_iff is_space_byte_def)

lemma level_split:
  "(\<exists>u. s = u @ w \<and> matches levelRegex u) \<longleftrightarrow> (\<exists>l. level_at s l w)"
proof
  assume "\<exists>u. s = u @ w \<and> matches levelRegex u"
  then show "\<exists>l. level_at s l w"
    by (auto simp: levelRegex_def level_at_def matches_blanks matches_names) blast
next
  assume "\<exists>l. level_at s l w"
  then obtain l a b where s: "l \<in> set levels" "s = ('']'' @ a @ l @ b @ '':'') @ w" "list_all is_space_byte a"
      "list_all is_space_byte b"
    unfolding level_at_def by auto
  then have "matches levelRegex ('']'' @ a @ l @ b @ '':'')"
    unfolding levelRegex_def
    by (intro m_sq m_grp) (simp_all add: matches_blanks matches_names)
  with s(2) show "\<exists>u. s = u @ w \<and> matches levelRegex u" by blast
qed

lemma level_capture:
  assumes "y \<in> set (succs levelRegex (t, []))"
  shows "\<exists>l. level_at t l (fst y) \<and> map_of (snd y) 1 = Some l"
proof -
  let ?r = "Sq (Many (Cls spaces)) (Sq (Grp 1 level_names) (Sq (Many (Cls spaces)) (Lit CHR '':'')))"
  from assms obtain t' where t': "t = CHR '']'' # t'" "y \<in> set (succs ?r (t', []))"
    unfolding levelRegex_def by (cases t) (auto simp: Lit_def split: if_splits)
  from group_capture [OF t'(2)] t'(1) show ?thesis
    by (auto simp: level_at_def matches_blanks matches_names Lit_def) blast
qed

lemma level_scan: "group 1 (find_submatch levelRegex line) = leftmost level_here line"
proof (rule find_submatch_leftmost)
  show "level_here t = None \<Longrightarrow> succs levelRegex (t, []) = []" for t
    unfolding succs_empty_iff using level_split [of t] level_here_iff [of t] by (metis option.distinct(1))
next
  fix t u y assume h: "level_here t = Some u" and "y \<in> set (succs levelRegex (t, []))"
  with level_capture obtain v where "level_at t v (fst y)" "map_of (snd y) 1 = Some v" by blast
  with h level_here_iff [of t v] show "map_of (snd y) 1 = Some u" by auto
next
  show "level_here t = Some u \<Longrightarrow> succs levelRegex (t, []) \<noteq> []" for t u
    unfolding succs_empty_iff using level_split [of t] level_here_iff [of t u] by metis
qed


text \<open>The parser without regular expressions.\<close>

definition scan_line :: "string \<Rightarrow> log_entry \<times> go_error option" where
  "scan_line line =
     (let stamp = leftmost stamp_here line;
          level = (case leftmost level_here line of None \<Rightarrow> ''INFO'' | Some l \<Rightarrow> level_of l)
      in (\<lparr>le_Timestamp = (case stamp of None \<Rightarrow> '''' | Some ts \<Rightarrow> ts), le_Level = level,
           le_Message = (case Index line '': '' of None \<Rightarrow> line | Some i \<Rightarrow> drop (i + 2) line), le_Raw = line\<rparr>,
          if stamp = None then Some (ErrorString ''invalid log format'') else None))"

lemma leftmost_stamp: "leftmost stamp_here line = Some ts \<Longrightarrow> is_stamp ts"
  by (induction line) (auto simp: stamp_here_iff split: option.splits)

lemma parse_scans: "ParseLine line = scan_line line"
proof -
  have "ts \<noteq> ''''" if "leftmost stamp_here line = Some ts" for ts
    using leftmost_stamp [OF that] by (auto simp: is_stamp_def)
  then show ?thesis
    unfolding ParseLine_def scan_line_def stamp_scan level_scan
    by (simp add: level_of_def SplitN2_def Let_def split: option.split)
qed

text \<open>C34: on every line whatever, formatted or not, the parser with its two regular expressions is the
  scanner by hand: the timestamp is what stands in the first bracket that closes over a time of
  day, the level is the first name between a closing bracket and a colon and \<open>INFO\<close> without one,
  the message follows the first colon and blank, and the error says that there is no timestamp.\<close>

theorem ParseLine_scans: "ParseLine line = scan_line line"
  by (rule parse_scans)

end
