(* ===== verification/Report_Output.thy ===== *)
theory Report_Output
  imports Report_Gen Go_Json
begin

text \<open>
  The three outputs of the report generator, \<open>cmd/report-generator/main.go\<close>: the Markdown and the
  HTML template with the texts of the source, both executed by \<open>html/template\<close>, and the indented
  JSON; and \<open>main\<close>. A line of a definition is a line of the template. All the actions of the
  templates stand in element text or in a quoted \<open>class\<close> attribute, for which \<open>html/template\<close> has the
  same escaping. Chinese text is given by its code points.
\<close>

subsection \<open>Text\<close>

text \<open>The UTF-8 bytes of code points below 0x10000.\<close>

definition utf8_char :: "nat \<Rightarrow> nat list" where
  "utf8_char n =
     (if n < 0x80 then [n]
      else if n < 0x800 then [0xC0 + n div 64, 0x80 + n mod 64]
      else [0xE0 + n div 4096, 0x80 + n div 64 mod 64, 0x80 + n mod 64])"

definition utf8 :: "nat list \<Rightarrow> string" where
  "utf8 ns = chars (concat (map utf8_char ns))"

definition eol :: string where "eol = [CHR 0x0A]"
definition qt :: string where "qt = [CHR 0x22]"

definition unlines :: "string list \<Rightarrow> string" where
  "unlines ls = concat (map (\<lambda>l. l @ eol) ls)"

text \<open>The escaping of \<open>html/template\<close> in text and in quoted attributes.\<close>

definition esc_char :: "char \<Rightarrow> string" where
  "esc_char c =
     (if c = CHR 0x22 then ''&#34;'' else if c = CHR ''&'' then ''&amp;'' else if c = CHR 0x27 then ''&#39;''
      else if c = CHR ''+'' then ''&#43;'' else if c = CHR ''<'' then ''&lt;'' else if c = CHR ''>'' then ''&gt;''
      else if c = CHR 0x00 then utf8 [0xFFFD] else [c])"

definition esc :: "string \<Rightarrow> string" where
  "esc s = concat (map esc_char s)"

definition count_text :: "nat \<Rightarrow> string" where
  "count_text n = show_nat n"

definition to_lower :: "string \<Rightarrow> string" where
  "to_lower s = map (\<lambda>c. if 65 \<le> (of_char c :: nat) \<and> (of_char c :: nat) \<le> 90 then char_of (of_char c + (32 :: nat)) else c) s"

subsection \<open>Markdown\<close>

definition markdown_case :: "test_case \<Rightarrow> string" where
  "markdown_case c =
     ''| '' @ esc (tc_Name c) @ '' | '' @ esc (tc_Status c) @ '' | '' @ esc (tc_Duration c) @ '' |'' @ eol"

definition markdown_suite :: "test_suite \<Rightarrow> string" where
  "markdown_suite s =
     eol @
     ''### '' @ esc (su_Name s) @ eol @ eol @
     ''- **'' @ utf8 [0x72B6, 0x6001] @ '':** '' @ esc (su_Status s) @ eol @
     ''- **'' @ utf8 [0x6D4B, 0x8BD5, 0x6570] @ '':** '' @ count_text (su_TotalTests s) @ '' ('' @ utf8 [0x901A, 0x8FC7] @
       '': '' @ count_text (su_PassedTests s) @ '', '' @ utf8 [0x5931, 0x8D25] @ '': '' @ count_text (su_FailedTests s) @ '', '' @
       utf8 [0x8DF3, 0x8FC7] @ '': '' @ count_text (su_SkippedTests s) @ '')'' @ eol @
     ''- **'' @ utf8 [0x8017, 0x65F6] @ '':** '' @ esc (su_Duration s) @ eol @ eol @
     ''| '' @ utf8 [0x6D4B, 0x8BD5, 0x540D, 0x79F0] @ '' | '' @ utf8 [0x72B6, 0x6001] @ '' | '' @ utf8 [0x8017, 0x65F6] @
       '' |'' @ eol @
     ''|---------|------|------|'' @ eol @
     concat (map markdown_case (su_TestCases s)) @ eol @ eol"

definition markdown_artifact :: "build_info \<Rightarrow> string" where
  "markdown_artifact b =
     ''| '' @ esc (bi_Name b) @ '' | '' @ esc (bi_Path b) @ '' | '' @ esc (itoa (bi_Size b)) @ '' bytes | '' @
       esc (bi_Modified b) @ '' |'' @ eol"

definition markdown_report :: "test_report \<Rightarrow> string" where
  "markdown_report r =
     ''# ShareSerial '' @ utf8 [0x6D4B, 0x8BD5, 0x62A5, 0x544A] @ eol @ eol @
     ''**'' @ utf8 [0x751F, 0x6210, 0x65F6, 0x95F4] @ '':** '' @ esc (re_Timestamp r) @ eol @ eol @
     ''**Git '' @ utf8 [0x7248, 0x672C] @ '':** '' @ esc (re_GitCommit r) @ '' ('' @ utf8 [0x5206, 0x652F] @ '': '' @
       esc (re_GitBranch r) @ '')'' @ eol @ eol @
     ''**Go '' @ utf8 [0x7248, 0x672C] @ '':** '' @ esc (re_GoVersion r) @ eol @ eol @
     ''---'' @ eol @ eol @
     ''## '' @ utf8 [0x6D4B, 0x8BD5, 0x6458, 0x8981] @ eol @ eol @
     ''| '' @ utf8 [0x6307, 0x6807] @ '' | '' @ utf8 [0x6570, 0x503C] @ '' |'' @ eol @
     ''|------|------|'' @ eol @
     ''| '' @ utf8 [0x72B6, 0x6001] @ '' | '' @ esc (sm_Status (re_Summary r)) @ '' |'' @ eol @
     ''| '' @ utf8 [0x603B, 0x6D4B, 0x8BD5, 0x6570] @ '' | '' @ count_text (sm_TotalTests (re_Summary r)) @ '' |'' @ eol @
     ''| '' @ utf8 [0x901A, 0x8FC7, 0x6570] @ '' | '' @ count_text (sm_PassedTests (re_Summary r)) @ '' |'' @ eol @
     ''| '' @ utf8 [0x5931, 0x8D25, 0x6570] @ '' | '' @ count_text (sm_FailedTests (re_Summary r)) @ '' |'' @ eol @
     ''| '' @ utf8 [0x8DF3, 0x8FC7, 0x6570] @ '' | '' @ count_text (sm_SkippedTests (re_Summary r)) @ '' |'' @ eol @
     ''| '' @ utf8 [0x901A, 0x8FC7, 0x7387] @ '' | '' @ format_2f (sm_PassRate (re_Summary r)) @ ''% |'' @ eol @ eol @
     ''---'' @ eol @ eol @
     ''## '' @ utf8 [0x6D4B, 0x8BD5, 0x5957, 0x4EF6, 0x8BE6, 0x60C5] @ eol @ eol @
     concat (map markdown_suite (re_TestSuites r)) @ eol @ eol @
     ''---'' @ eol @ eol @
     ''## '' @ utf8 [0x6784, 0x5EFA, 0x4EA7, 0x7269] @ eol @ eol @
     ''| '' @ utf8 [0x6587, 0x4EF6, 0x540D] @ '' | '' @ utf8 [0x8DEF, 0x5F84] @ '' | '' @ utf8 [0x5927, 0x5C0F] @
       '' | '' @ utf8 [0x4FEE, 0x6539, 0x65F6, 0x95F4] @ '' |'' @ eol @
     ''|--------|------|------|----------|'' @ eol @
     concat (map markdown_artifact (re_BuildArtifacts r)) @ eol @ eol @
     ''---'' @ eol @ eol @
     ''## '' @ utf8 [0x6D4B, 0x8BD5, 0x73AF, 0x5883] @ eol @ eol @
     ''- **'' @ utf8 [0x64CD, 0x4F5C, 0x7CFB, 0x7EDF] @ '':** '' @ esc (en_OS (re_Environment r)) @ eol @
     ''- **'' @ utf8 [0x67B6, 0x6784] @ '':** '' @ esc (en_Arch (re_Environment r)) @ eol @
     ''- **'' @ utf8 [0x4E3B, 0x673A, 0x540D] @ '':** '' @ esc (en_Hostname (re_Environment r)) @ eol @
     ''- **socat:** '' @ esc (en_Socat (re_Environment r)) @ eol @ eol @
     ''---'' @ eol @ eol @
     ''*'' @ utf8 [0x62A5, 0x544A, 0x751F, 0x6210, 0x65F6, 0x95F4] @ '': '' @ esc (re_Timestamp r) @ ''*'' @ eol"

subsection \<open>HTML\<close>

definition html_head :: string where
  "html_head = unlines
     [''<!DOCTYPE html>'',
      ''<html lang='' @ qt @ ''zh-CN'' @ qt @ ''>'',
      ''<head>'',
      ''    <meta charset='' @ qt @ ''UTF-8'' @ qt @ ''>'',
      ''    <meta name='' @ qt @ ''viewport'' @ qt @ '' content='' @ qt @ ''width=device-width, initial-scale=1.0'' @ qt @ ''>'',
      ''    <title>ShareSerial '' @ utf8 [0x6D4B, 0x8BD5, 0x62A5, 0x544A] @ ''</title>'',
      ''    <style>'',
      ''        body { font-family: -apple-system, BlinkMacSystemFont, '' @ [CHR 0x27] @ ''Segoe UI'' @ [CHR 0x27] @ '', Roboto, Oxygen, Ubuntu, sans-serif; margin: 20px; background: #f5f5f5; }'',
      ''        .container { max-width: 1200px; margin: 0 auto; background: white; padding: 30px; border-radius: 8px; box-shadow: 0 2px 4px rgba(0,0,0,0.1); }'',
      ''        h1 { color: #333; border-bottom: 2px solid #4CAF50; padding-bottom: 10px; }'',
      ''        h2 { color: #666; margin-top: 30px; }'',
      ''        h3 { color: #444; margin-top: 20px; }'',
      ''        table { width: 100%; border-collapse: collapse; margin-top: 15px; }'',
      ''        th, td { padding: 12px; text-align: left; border-bottom: 1px solid #ddd; }'',
      ''        th { background: #f8f9fa; font-weight: 600; }'',
      ''        .status-passed { color: #4CAF50; font-weight: bold; }'',
      ''        .status-failed { color: #f44336; font-weight: bold; }'',
      ''        .status-partial { color: #FF9800; font-weight: bold; }'',
      ''        .status-no_tests { color: #9E9E9E; }'',
      ''        .badge { padding: 4px 8px; border-radius: 4px; font-size: 12px; }'',
      ''        .badge-pass { background: #E8F5E9; color: #2E7D32; }'',
      ''        .badge-fail { background: #FFEBEE; color: #C62828; }'',
      ''        .badge-skip { background: #FFF3E0; color: #EF6C00; }'',
      ''        .summary-box { background: #f8f9fa; padding: 20px; border-radius: 8px; margin-bottom: 20px; }'',
      ''        .summary-box h2 { margin-top: 0; }'',
      ''        .metric { display: inline-block; margin-right: 30px; }'',
      ''        .metric-label { color: #666; font-size: 14px; }'',
      ''        .metric-value { color: #333; font-size: 24px; font-weight: bold; }'',
      ''        .timestamp { color: #666; font-size: 14px; }'',
      ''        footer { margin-top: 30px; padding-top: 20px; border-top: 1px solid #ddd; color: #666; font-size: 14px; }'',
      ''    </style>'',
      ''</head>'',
      ''<body>'',
      ''    <div class='' @ qt @ ''container'' @ qt @ ''>'',
      ''        <h1>ShareSerial '' @ utf8 [0x6D4B, 0x8BD5, 0x62A5, 0x544A] @ ''</h1>''] @ ''        <p class='' @ qt @ ''timestamp'' @ qt @ ''>'' @ utf8 [0x751F, 0x6210, 0x65F6, 0x95F4] @ '': ''"

definition html_case :: "test_case \<Rightarrow> string" where
  "html_case c =
     eol @
     ''                <tr>'' @ eol @
     ''                    <td>'' @ esc (tc_Name c) @ ''</td>'' @ eol @
     ''                    <td><span class='' @ qt @ ''badge badge-'' @ esc (to_lower (tc_Status c)) @ qt @ ''>'' @
       esc (tc_Status c) @ ''</span></td>'' @ eol @
     ''                    <td>'' @ esc (tc_Duration c) @ ''</td>'' @ eol @
     ''                </tr>'' @ eol @
     ''                ''"

definition html_suite :: "test_suite \<Rightarrow> string" where
  "html_suite s =
     eol @
     ''        <h3>'' @ esc (su_Name s) @ '' <span class='' @ qt @ ''status-'' @ esc (su_Status s) @ qt @ ''>('' @
       esc (su_Status s) @ '')</span></h3>'' @ eol @
     ''        <p>'' @ utf8 [0x6D4B, 0x8BD5, 0x6570] @ '': '' @ count_text (su_TotalTests s) @ '' | '' @ utf8 [0x901A, 0x8FC7] @
       '': '' @ count_text (su_PassedTests s) @ '' | '' @ utf8 [0x5931, 0x8D25] @ '': '' @ count_text (su_FailedTests s) @ '' | '' @
       utf8 [0x8DF3, 0x8FC7] @ '': '' @ count_text (su_SkippedTests s) @ ''</p>'' @ eol @
     ''        <table>'' @ eol @
     ''            <thead>'' @ eol @
     ''                <tr>'' @ eol @
     ''                    <th>'' @ utf8 [0x6D4B, 0x8BD5, 0x540D, 0x79F0] @ ''</th>'' @ eol @
     ''                    <th>'' @ utf8 [0x72B6, 0x6001] @ ''</th>'' @ eol @
     ''                    <th>'' @ utf8 [0x8017, 0x65F6] @ ''</th>'' @ eol @
     ''                </tr>'' @ eol @
     ''            </thead>'' @ eol @
     ''            <tbody>'' @ eol @
     ''                '' @ concat (map html_case (su_TestCases s)) @ eol @
     ''            </tbody>'' @ eol @
     ''        </table>'' @ eol @
     ''        ''"

definition html_artifact :: "build_info \<Rightarrow> string" where
  "html_artifact b =
     eol @
     ''                <tr>'' @ eol @
     ''                    <td>'' @ esc (bi_Name b) @ ''</td>'' @ eol @
     ''                    <td>'' @ esc (bi_Path b) @ ''</td>'' @ eol @
     ''                    <td>'' @ esc (itoa (bi_Size b)) @ '' bytes</td>'' @ eol @
     ''                    <td>'' @ esc (bi_Modified b) @ ''</td>'' @ eol @
     ''                </tr>'' @ eol @
     ''                ''"

definition html_report :: "test_report \<Rightarrow> string" where
  "html_report r =
     html_head @ esc (re_Timestamp r) @ '' | Git: '' @ esc (re_GitCommit r) @ '' ('' @ esc (re_GitBranch r) @
       '') | Go: '' @ esc (re_GoVersion r) @ ''</p>'' @ eol @ eol @
     ''        <div class='' @ qt @ ''summary-box'' @ qt @ ''>'' @ eol @
     ''            <h2>'' @ utf8 [0x6D4B, 0x8BD5, 0x6458, 0x8981] @ ''</h2>'' @ eol @
     ''            <div class='' @ qt @ ''metric'' @ qt @ ''>'' @ eol @
     ''                <div class='' @ qt @ ''metric-label'' @ qt @ ''>'' @ utf8 [0x72B6, 0x6001] @ ''</div>'' @ eol @
     ''                <div class='' @ qt @ ''metric-value status-'' @ esc (sm_Status (re_Summary r)) @ qt @ ''>'' @
       esc (sm_Status (re_Summary r)) @ ''</div>'' @ eol @
     ''            </div>'' @ eol @
     ''            <div class='' @ qt @ ''metric'' @ qt @ ''>'' @ eol @
     ''                <div class='' @ qt @ ''metric-label'' @ qt @ ''>'' @ utf8 [0x603B, 0x6D4B, 0x8BD5, 0x6570] @
       ''</div>'' @ eol @
     ''                <div class='' @ qt @ ''metric-value'' @ qt @ ''>'' @ count_text (sm_TotalTests (re_Summary r)) @
       ''</div>'' @ eol @
     ''            </div>'' @ eol @
     ''            <div class='' @ qt @ ''metric'' @ qt @ ''>'' @ eol @
     ''                <div class='' @ qt @ ''metric-label'' @ qt @ ''>'' @ utf8 [0x901A, 0x8FC7, 0x6570] @ ''</div>'' @
       eol @
     ''                <div class='' @ qt @ ''metric-value'' @ qt @ ''>'' @ count_text (sm_PassedTests (re_Summary r)) @
       ''</div>'' @ eol @
     ''            </div>'' @ eol @
     ''            <div class='' @ qt @ ''metric'' @ qt @ ''>'' @ eol @
     ''                <div class='' @ qt @ ''metric-label'' @ qt @ ''>'' @ utf8 [0x5931, 0x8D25, 0x6570] @ ''</div>'' @
       eol @
     ''                <div class='' @ qt @ ''metric-value'' @ qt @ ''>'' @ count_text (sm_FailedTests (re_Summary r)) @
       ''</div>'' @ eol @
     ''            </div>'' @ eol @
     ''            <div class='' @ qt @ ''metric'' @ qt @ ''>'' @ eol @
     ''                <div class='' @ qt @ ''metric-label'' @ qt @ ''>'' @ utf8 [0x901A, 0x8FC7, 0x7387] @ ''</div>'' @
       eol @
     ''                <div class='' @ qt @ ''metric-value'' @ qt @ ''>'' @ format_2f (sm_PassRate (re_Summary r)) @
       ''%</div>'' @ eol @
     ''            </div>'' @ eol @
     ''        </div>'' @ eol @ eol @
     ''        <h2>'' @ utf8 [0x6D4B, 0x8BD5, 0x5957, 0x4EF6, 0x8BE6, 0x60C5] @ ''</h2>'' @ eol @
     ''        '' @ concat (map html_suite (re_TestSuites r)) @ eol @ eol @
     ''        <h2>'' @ utf8 [0x6784, 0x5EFA, 0x4EA7, 0x7269] @ ''</h2>'' @ eol @
     ''        <table>'' @ eol @
     ''            <thead>'' @ eol @
     ''                <tr>'' @ eol @
     ''                    <th>'' @ utf8 [0x6587, 0x4EF6, 0x540D] @ ''</th>'' @ eol @
     ''                    <th>'' @ utf8 [0x8DEF, 0x5F84] @ ''</th>'' @ eol @
     ''                    <th>'' @ utf8 [0x5927, 0x5C0F] @ ''</th>'' @ eol @
     ''                    <th>'' @ utf8 [0x4FEE, 0x6539, 0x65F6, 0x95F4] @ ''</th>'' @ eol @
     ''                </tr>'' @ eol @
     ''            </thead>'' @ eol @
     ''            <tbody>'' @ eol @
     ''                '' @ concat (map html_artifact (re_BuildArtifacts r)) @ eol @
     ''            </tbody>'' @ eol @
     ''        </table>'' @ eol @ eol @
     ''        <h2>'' @ utf8 [0x6D4B, 0x8BD5, 0x73AF, 0x5883] @ ''</h2>'' @ eol @
     ''        <table>'' @ eol @
     ''            <tr><th>'' @ utf8 [0x64CD, 0x4F5C, 0x7CFB, 0x7EDF] @ ''</th><td>'' @ esc (en_OS (re_Environment r)) @
       ''</td></tr>'' @ eol @
     ''            <tr><th>'' @ utf8 [0x67B6, 0x6784] @ ''</th><td>'' @ esc (en_Arch (re_Environment r)) @
       ''</td></tr>'' @ eol @
     ''            <tr><th>'' @ utf8 [0x4E3B, 0x673A, 0x540D] @ ''</th><td>'' @ esc (en_Hostname (re_Environment r)) @
       ''</td></tr>'' @ eol @
     ''            <tr><th>socat</th><td>'' @ esc (en_Socat (re_Environment r)) @ ''</td></tr>'' @ eol @
     ''        </table>'' @ eol @ eol @
     ''        <footer>'' @ eol @
     ''            <p>'' @ utf8 [0x62A5, 0x544A, 0x751F, 0x6210, 0x65F6, 0x95F4] @ '': '' @ esc (re_Timestamp r) @
       ''</p>'' @ eol @
     ''        </footer>'' @ eol @
     ''    </div>'' @ eol @
     ''</body>'' @ eol @
     ''</html>'' @ eol"

subsection \<open>JSON\<close>

text \<open>\<open>json.MarshalIndent(v, "", "  ")\<close>; the leaves are already encoded.\<close>

datatype jval = JLeaf string | JArr "jval list" | JObj "(string \<times> jval) list"

definition indent :: "nat \<Rightarrow> string" where
  "indent d = concat (replicate d ''  '')"

definition bracketed :: "string \<Rightarrow> string \<Rightarrow> nat \<Rightarrow> string list \<Rightarrow> string" where
  "bracketed l r d xs =
     (if xs = [] then l @ r
      else l @ eol @ Join (map (\<lambda>x. indent (Suc d) @ x) xs) ('','' @ eol) @ eol @ indent d @ r)"

fun json_indent :: "nat \<Rightarrow> jval \<Rightarrow> string" where
  "json_indent d (JLeaf s) = s"
| "json_indent d (JArr vs) = bracketed ''['' '']'' d (map (json_indent (Suc d)) vs)"
| "json_indent d (JObj kvs) = bracketed ''{'' ''}'' d (map (\<lambda>(k, v). json_string k @ '': '' @ json_indent (Suc d) v) kvs)"

definition jstr :: "string \<Rightarrow> jval" where "jstr s = JLeaf (json_string s)"
definition jnat :: "nat \<Rightarrow> jval" where "jnat n = JLeaf (show_nat n)"

definition case_json :: "test_case \<Rightarrow> jval" where
  "case_json c = JObj
     ([(''name'', jstr (tc_Name c)), (''status'', jstr (tc_Status c)), (''duration'', jstr (tc_Duration c))] @
      (if tc_Message c = '''' then [] else [(''message'', jstr (tc_Message c))]))"

definition suite_json :: "test_suite \<Rightarrow> jval" where
  "suite_json s = JObj
     [(''name'', jstr (su_Name s)), (''package'', jstr (su_Package s)), (''total_tests'', jnat (su_TotalTests s)),
      (''passed_tests'', jnat (su_PassedTests s)), (''failed_tests'', jnat (su_FailedTests s)),
      (''skipped_tests'', jnat (su_SkippedTests s)), (''duration'', jstr (su_Duration s)),
      (''test_cases'', JArr (map case_json (su_TestCases s))), (''status'', jstr (su_Status s))]"

definition summary_json :: "test_summary \<Rightarrow> jval" where
  "summary_json m = JObj
     [(''total_tests'', jnat (sm_TotalTests m)), (''passed_tests'', jnat (sm_PassedTests m)),
      (''failed_tests'', jnat (sm_FailedTests m)), (''skipped_tests'', jnat (sm_SkippedTests m)),
      (''pass_rate'', JLeaf (format_float (sm_PassRate m))), (''duration'', jstr (sm_Duration m)),
      (''status'', jstr (sm_Status m))]"

definition build_json :: "build_info \<Rightarrow> jval" where
  "build_json b = JObj
     [(''name'', jstr (bi_Name b)), (''path'', jstr (bi_Path b)), (''size'', JLeaf (itoa (bi_Size b))),
      (''modified'', jstr (bi_Modified b))]"

definition environment_json :: "environment \<Rightarrow> jval" where
  "environment_json e = JObj
     [(''os'', jstr (en_OS e)), (''arch'', jstr (en_Arch e)), (''hostname'', jstr (en_Hostname e)), (''socat'', jstr (en_Socat e))]"

definition report_json :: "test_report \<Rightarrow> jval" where
  "report_json r = JObj
     [(''timestamp'', jstr (re_Timestamp r)), (''git_commit'', jstr (re_GitCommit r)), (''git_branch'', jstr (re_GitBranch r)),
      (''go_version'', jstr (re_GoVersion r)), (''summary'', summary_json (re_Summary r)),
      (''test_suites'', JArr (map suite_json (re_TestSuites r))),
      (''build_artifacts'', JArr (map build_json (re_BuildArtifacts r))), (''environment'', environment_json (re_Environment r))]"

subsection \<open>Saving, and \<open>main\<close>\<close>

text \<open>\<open>create\<close> is the error of \<open>os.Create\<close> or \<open>ioutil.WriteFile\<close>; else the file and its contents.\<close>

definition save :: "(string \<Rightarrow> go_error option) \<Rightarrow> string \<Rightarrow> string \<Rightarrow> go_error + string \<times> string" where
  "save create outputPath content =
     (case create outputPath of Some err \<Rightarrow> Inl err | None \<Rightarrow> Inr (outputPath, content))"

definition SaveMarkdownReport :: "(string \<Rightarrow> go_error option) \<Rightarrow> test_report \<Rightarrow> string \<Rightarrow> go_error + string \<times> string" where
  "SaveMarkdownReport create report outputPath = save create outputPath (markdown_report report)"

definition SaveHTMLReport :: "(string \<Rightarrow> go_error option) \<Rightarrow> test_report \<Rightarrow> string \<Rightarrow> go_error + string \<times> string" where
  "SaveHTMLReport create report outputPath = save create outputPath (html_report report)"

definition SaveJSONReport :: "(string \<Rightarrow> go_error option) \<Rightarrow> test_report \<Rightarrow> string \<Rightarrow> go_error + string \<times> string" where
  "SaveJSONReport create report outputPath = save create outputPath (json_indent 0 (report_json report))"

definition summary_line :: "test_summary \<Rightarrow> string" where
  "summary_line m =
     ''Summary: '' @ count_text (sm_TotalTests m) @ '' tests, '' @ count_text (sm_PassedTests m) @ '' passed, '' @
     count_text (sm_FailedTests m) @ '' failed, '' @ format_2f (sm_PassRate m) @ ''% pass rate'' @ eol"

text \<open>
  \<open>main\<close> with the report directory \<open>dir\<close> and the time \<open>stamp\<close> for the file names: the files written
  (the errors of the three calls are ignored) and the printed text, whether or not they were written.
\<close>

definition generator_main ::
    "string \<Rightarrow> string \<Rightarrow> (string \<Rightarrow> go_error option) \<Rightarrow> test_report \<Rightarrow> (string \<times> string) list \<times> string" where
  "generator_main dir stamp create report =
     (let path = (\<lambda>ext. dir @ ''/report_'' @ stamp @ ext);
          results = [SaveMarkdownReport create report (path ''.md''), SaveHTMLReport create report (path ''.html''),
                     SaveJSONReport create report (path ''.json'')]
      in ([f. Inr f \<leftarrow> results],
          ''Reports generated:'' @ eol @
          ''  Markdown: test-reports/report_'' @ stamp @ ''.md'' @ eol @
          ''  HTML:     test-reports/report_'' @ stamp @ ''.html'' @ eol @
          ''  JSON:     test-reports/report_'' @ stamp @ ''.json'' @ eol @
          eol @ summary_line (re_Summary report)))"

subsection \<open>The markup cannot be forged\<close>

lemma esc_markup:
  assumes "c \<in> {CHR ''<'', CHR ''>'', CHR 0x22}"
  shows "count_list (esc s) c = 0"
proof -
  have "of_char c \<in> {60, 62, 34 :: nat}" using assms by auto
  then have "count_list (utf8 [0xFFFD]) c = 0" by (auto simp: utf8_def utf8_char_def)
  then have "count_list (esc_char x) c = 0" for x
    using assms unfolding esc_char_def by (elim insertE emptyE; hypsubst) simp_all
  then show ?thesis by (induction s) (simp_all add: esc_def count_list_append)
qed

lemma count_none: "x \<notin> set xs \<Longrightarrow> count_list xs x = 0"
  by (simp add: count_list_0_iff)

lemma is_digit_markup: "is_digit c \<Longrightarrow> c \<notin> {CHR ''<'', CHR ''>'', CHR 0x22}"
  by (auto simp: is_digit_def)

lemma show_nat_markup: "c \<in> {CHR ''<'', CHR ''>'', CHR 0x22} \<Longrightarrow> count_list (show_nat n) c = 0"
  using show_nat_digits [of n] is_digit_markup by (intro count_none) blast

lemma count_text_markup: "c \<in> {CHR ''<'', CHR ''>'', CHR 0x22} \<Longrightarrow> count_list (count_text n) c = 0"
  by (simp only: count_text_def show_nat_markup)

lemma format_markup:
  assumes "c \<in> {CHR ''<'', CHR ''>'', CHR 0x22}"
  shows "count_list (format_2f x) c = 0"
proof -
  have "is_digit (digit_char (n mod 10))" for n by (simp add: digit_char_inv)
  then have "digit_char (n mod 10) \<noteq> c" for n using is_digit_markup assms by blast
  moreover have "c \<noteq> CHR ''.''" using assms by auto
  ultimately show ?thesis by (simp add: format_2f_def Let_def count_list_append show_nat_markup [OF assms])
qed

lemma count_concat_same:
  assumes "list_all2 (\<lambda>x y. count_list (f x) c = count_list (f y) c) xs ys"
  shows "count_list (concat (map f xs)) c = count_list (concat (map f ys)) c"
  using assms by (induction rule: list_all2_induct) (simp_all add: count_list_append)

lemma count_concat_length:
  assumes "\<And>x y. count_list (f x) c = count_list (f y) c" and "length xs = length ys"
  shows "count_list (concat (map f xs)) c = count_list (concat (map f ys)) c"
  by (rule count_concat_same) (use assms in \<open>simp add: list_all2_conv_all_nth\<close>)

text \<open>How many suites with how many cases, and how many artifacts.\<close>

definition report_shape :: "test_report \<Rightarrow> nat list \<times> nat" where
  "report_shape r = (map (\<lambda>s. length (su_TestCases s)) (re_TestSuites r), length (re_BuildArtifacts r))"

lemma html_markup_count:
  assumes c: "c \<in> {CHR ''<'', CHR ''>'', CHR 0x22}" and "report_shape r = report_shape r'"
  shows "count_list (html_report r) c = count_list (html_report r') c"
proof -
  note clean = esc_markup [OF c] count_text_markup [OF c] format_markup [OF c] add_0_left add_0_right
  have cs: "count_list (html_case x) c = count_list (html_case y) c" for x y
    by (simp only: html_case_def count_list_append clean)
  have "list_all2 (\<lambda>s t. length (su_TestCases s) = length (su_TestCases t)) (re_TestSuites r) (re_TestSuites r')"
    using assms(2) by (simp add: report_shape_def list_all2_map1 list_all2_map2 flip: list.rel_eq)
  moreover have "count_list (html_suite s) c = count_list (html_suite t) c"
    if "length (su_TestCases s) = length (su_TestCases t)" for s t
  proof -
    have "count_list (concat (map html_case (su_TestCases s))) c = count_list (concat (map html_case (su_TestCases t))) c"
      by (rule count_concat_length [OF cs that])
    then show ?thesis by (simp only: html_suite_def count_list_append clean)
  qed
  ultimately have s: "count_list (concat (map html_suite (re_TestSuites r))) c = count_list (concat (map html_suite (re_TestSuites r'))) c"
    by (intro count_concat_same) (rule list_all2_mono)
  have "count_list (html_artifact x) c = count_list (html_artifact y) c" for x y
    by (simp only: html_artifact_def count_list_append clean)
  then have b: "count_list (concat (map html_artifact (re_BuildArtifacts r))) c = count_list (concat (map html_artifact (re_BuildArtifacts r'))) c"
    using assms(2) by (intro count_concat_length) (simp_all add: report_shape_def)
  show ?thesis by (simp only: html_report_def count_list_append clean s b)
qed

text \<open>C40: nothing in the logs or in the \<open>bin\<close> directory can add to the markup of the HTML report: two
  reports with as many suites, cases and artifacts have as many angle brackets and double quotes,
  whatever the names of tests and files are.\<close>

theorem html_markup_fixed:
  assumes "c \<in> {CHR ''<'', CHR ''>'', CHR 0x22}" and "report_shape r = report_shape r'"
  shows "count_list (html_report r) c = count_list (html_report r') c"
  using assms by (rule html_markup_count)

definition demo_report :: "string \<Rightarrow> test_report" where
  "demo_report name =
     \<lparr>re_Timestamp = ''now'', re_GitCommit = getGitCommit, re_GitBranch = getGitBranch, re_GoVersion = getGoVersion,
      re_Summary = empty_summary,
      re_TestSuites = [(new_suite ''unit_test_output.log'')\<lparr>su_TestCases :=
        [\<lparr>tc_Name = name, tc_Status = ''PASS'', tc_Duration = ''0.01s'', tc_Message = []\<rparr>]\<rparr>],
      re_BuildArtifacts = [], re_Environment = getEnvironment\<rparr>"

theorem html_markup_fixed_witness:
  "count_list (html_report (demo_report ''<script>alert(1)</script>'')) CHR ''<'' = count_list (html_report (demo_report ''TestA'')) CHR ''<''"
  by (rule html_markup_fixed) (simp_all add: report_shape_def demo_report_def)

text \<open>The Markdown table has no such protection: a bar in the name of a subtest adds a column.\<close>

theorem markdown_bar_breaks_row:
  "count_list (markdown_case \<lparr>tc_Name = ''TestA/x'', tc_Status = ''PASS'', tc_Duration = ''0.01s'', tc_Message = []\<rparr>) CHR 0x7C = 4 \<and>
   count_list (markdown_case \<lparr>tc_Name = ''TestA/x|y'', tc_Status = ''PASS'', tc_Duration = ''0.01s'', tc_Message = []\<rparr>) CHR 0x7C = 5"
  by code_simp

end
