(* ===== verification/Data_Generator.thy ===== *)
theory Data_Generator
  imports Log_Scan Go_Base
begin

text \<open>
  The generator of board output for the simulations, \<open>tests/simulation/data_generator.go\<close>, with the
  methods of \<open>virtual_serial.go\<close> through which it writes. The pair of pseudo terminals that \<open>socat\<close>
  makes is a parameter: \<open>inject\<close> is the error of a write to the physical port, \<open>now\<close> the formatted
  time of each call. A generator is used by one goroutine at a time, so its mutex is left out.

  The theorem ties the two ends together: what the generator writes, the log parser reads back.
\<close>

record virtual_pair =
  vp_ready :: bool
  vp_physicalFile :: bool        \<comment> \<open>not nil\<close>
  vp_written :: string           \<comment> \<open>what the physical port was given\<close>

definition WriteToPhysical :: "go_error option \<Rightarrow> string \<Rightarrow> virtual_pair \<Rightarrow> virtual_pair \<times> go_error option" where
  "WriteToPhysical inject data v =
     (if \<not> vp_ready v \<or> \<not> vp_physicalFile v then (v, Some (ErrorString ''virtual serial pair not ready''))
      else case inject of Some err \<Rightarrow> (v, Some err) | None \<Rightarrow> (v\<lparr>vp_written := vp_written v @ data\<rparr>, None))"

definition InjectData :: "go_error option \<Rightarrow> string \<Rightarrow> virtual_pair \<Rightarrow> virtual_pair \<times> go_error option" where
  "InjectData inject data v = WriteToPhysical inject data v"

definition newline :: string where "newline = [CHR 0x0A]"

text \<open>\<open>fmt.Sprintf("[%s] %s: %s\n", timestamp, level, message)\<close>.\<close>

definition InjectLogLine :: "go_error option \<Rightarrow> string \<Rightarrow> string \<Rightarrow> string \<Rightarrow> virtual_pair \<Rightarrow> virtual_pair \<times> go_error option" where
  "InjectLogLine inject now level message v = InjectData inject (log_line now level message @ newline) v"

record log_pattern =
  lp_Level :: string
  lp_Message :: string
  lp_Weight :: int

definition pattern :: "string \<Rightarrow> string \<Rightarrow> int \<Rightarrow> log_pattern" where
  "pattern l m w = \<lparr>lp_Level = l, lp_Message = m, lp_Weight = w\<rparr>"

definition DefaultLogPatterns :: "log_pattern list" where
  "DefaultLogPatterns =
     [pattern ''INFO'' ''System starting'' 5, pattern ''INFO'' ''Loading kernel modules'' 3,
      pattern ''INFO'' ''Mounting filesystems'' 2, pattern ''DEBUG'' ''Initializing hardware'' 10,
      pattern ''WARN'' ''Low memory warning'' 1, pattern ''ERROR'' ''Failed to mount /data'' 1,
      pattern ''INFO'' ''Network interface up'' 3, pattern ''DEBUG'' ''UART receive: 0x%02X'' 20,
      pattern ''INFO'' ''Application started'' 2]"

definition AndroidBootPatterns :: "log_pattern list" where
  "AndroidBootPatterns =
     [pattern ''INFO'' (''init: Starting service '' @ [CHR 0x27] @ ''ueventd'' @ [CHR 0x27]) 5,
      pattern ''INFO'' (''init: Starting service '' @ [CHR 0x27] @ ''console'' @ [CHR 0x27]) 3,
      pattern ''DEBUG'' ''SELinux: Initializing'' 2,
      pattern ''INFO'' (''init: Starting service '' @ [CHR 0x27] @ ''logd'' @ [CHR 0x27]) 2,
      pattern ''DEBUG'' ''lowmemorykiller: start'' 1,
      pattern ''INFO'' ''ActivityManager: START u0 {com.android.launcher}'' 5,
      pattern ''WARN'' ''PackageManager: Unknown permission'' 3,
      pattern ''ERROR'' ''System.err: java.lang.NullPointerException'' 1,
      pattern ''INFO'' ''Boot completed in %d ms'' 1]"

record data_generator =
  dg_vsp :: virtual_pair
  dg_running :: bool
  dg_stopChan :: "unit chan"
  dg_lineCount :: int
  dg_patterns :: "log_pattern list"
  dg_customData :: "string list"

definition NewDataGeneratorWithPatterns :: "virtual_pair \<Rightarrow> log_pattern list \<Rightarrow> data_generator" where
  "NewDataGeneratorWithPatterns vsp patterns =
     \<lparr>dg_vsp = vsp, dg_running = False, dg_stopChan = make_chan 0, dg_lineCount = 0, dg_patterns = patterns, dg_customData = []\<rparr>"

definition NewDataGenerator :: "virtual_pair \<Rightarrow> data_generator" where
  "NewDataGenerator vsp = NewDataGeneratorWithPatterns vsp DefaultLogPatterns"

definition SetPatterns :: "log_pattern list \<Rightarrow> data_generator \<Rightarrow> data_generator" where
  "SetPatterns patterns g = g\<lparr>dg_patterns := patterns\<rparr>"

definition SetCustomData :: "string list \<Rightarrow> data_generator \<Rightarrow> data_generator" where
  "SetCustomData data g = g\<lparr>dg_customData := data\<rparr>"

text \<open>The line count is never negative, and the weights are summed but not used.\<close>

definition selectPattern :: "data_generator \<Rightarrow> go_panic + log_pattern" where
  "selectPattern g =
     (if dg_patterns g = [] then Inl DivideByZero
      else Inr (dg_patterns g ! nat (dg_lineCount g mod int (length (dg_patterns g)))))"

definition GenerateOneLine ::
    "go_error option \<Rightarrow> string \<Rightarrow> data_generator \<Rightarrow> go_panic + data_generator \<times> go_error option" where
  "GenerateOneLine inject now g =
     (case selectPattern g of
        Inl p \<Rightarrow> Inl p
      | Inr pat \<Rightarrow>
          (case InjectData inject (log_line now (lp_Level pat) (lp_Message pat) @ newline) (dg_vsp g) of
             (v, Some err) \<Rightarrow> Inr (g\<lparr>dg_vsp := v\<rparr>, Some err)
           | (v, None) \<Rightarrow> Inr (g\<lparr>dg_vsp := v, dg_lineCount := wrap64 (dg_lineCount g + 1)\<rparr>, None)))"

text \<open>The loop over \<open>count\<close> calls, with the times of the calls.\<close>

fun GenerateMultipleLines ::
    "(go_error option \<times> string) list \<Rightarrow> data_generator \<Rightarrow> go_panic + data_generator \<times> go_error option" where
  "GenerateMultipleLines [] g = Inr (g, None)"
| "GenerateMultipleLines ((inject, now) # cs) g =
     (case GenerateOneLine inject now g of
        Inl p \<Rightarrow> Inl p
      | Inr (g', Some err) \<Rightarrow> Inr (g', Some err)
      | Inr (g', None) \<Rightarrow> GenerateMultipleLines cs g')"

fun inject_all :: "(string \<Rightarrow> go_error option) \<Rightarrow> string list \<Rightarrow> virtual_pair \<Rightarrow> virtual_pair \<times> go_error option" where
  "inject_all inject [] v = (v, None)"
| "inject_all inject (d # ds) v =
     (case InjectData (inject d) d v of (v', Some err) \<Rightarrow> (v', Some err) | (v', None) \<Rightarrow> inject_all inject ds v')"

definition GenerateCustomData :: "(string \<Rightarrow> go_error option) \<Rightarrow> data_generator \<Rightarrow> data_generator \<times> go_error option" where
  "GenerateCustomData inject g =
     (case inject_all inject (map (\<lambda>l. l @ newline) (dg_customData g)) (dg_vsp g) of (v, e) \<Rightarrow> (g\<lparr>dg_vsp := v\<rparr>, e))"

definition boot_sequence :: "(string \<times> string) list" where
  "boot_sequence =
     [(''INFO'', ''System starting...''), (''DEBUG'', ''Initializing hardware...''),
      (''INFO'', ''Loading kernel modules...''), (''INFO'', ''Mounting filesystems...''),
      (''DEBUG'', ''Configuring network...''), (''INFO'', ''Network interface eth0 up''),
      (''WARN'', ''Low memory: 256MB available''), (''INFO'', ''Starting services...''),
      (''ERROR'', ''Failed to start service '' @ [CHR 0x27] @ ''adb'' @ [CHR 0x27]), (''INFO'', ''System ready'')]"

text \<open>With the time of each of the ten calls.\<close>

definition GenerateBootSequence ::
    "(string \<Rightarrow> go_error option) \<Rightarrow> string list \<Rightarrow> data_generator \<Rightarrow> data_generator \<times> go_error option" where
  "GenerateBootSequence inject nows g =
     (case inject_all inject (map (\<lambda>(now, level, message). log_line now level message @ newline) (zip nows boot_sequence)) (dg_vsp g) of
        (v, e) \<Rightarrow> (g\<lparr>dg_vsp := v\<rparr>, e))"

definition kernel_line :: "string \<Rightarrow> string \<Rightarrow> string" where
  "kernel_line now message = ''['' @ now @ ''] kernel: '' @ message @ newline"

definition android_line :: "string \<Rightarrow> string \<Rightarrow> string \<Rightarrow> string \<Rightarrow> string" where
  "android_line now tag level message = ''['' @ now @ ''] '' @ level @ ''/'' @ tag @ '': '' @ message @ newline"

definition GenerateKernelLog :: "go_error option \<Rightarrow> string \<Rightarrow> string \<Rightarrow> data_generator \<Rightarrow> data_generator \<times> go_error option" where
  "GenerateKernelLog inject now message g =
     (case InjectData inject (kernel_line now message) (dg_vsp g) of (v, e) \<Rightarrow> (g\<lparr>dg_vsp := v\<rparr>, e))"

definition GenerateAndroidLog ::
    "go_error option \<Rightarrow> string \<Rightarrow> string \<Rightarrow> string \<Rightarrow> string \<Rightarrow> data_generator \<Rightarrow> data_generator \<times> go_error option" where
  "GenerateAndroidLog inject now tag level message g =
     (case InjectData inject (android_line now tag level message) (dg_vsp g) of (v, e) \<Rightarrow> (g\<lparr>dg_vsp := v\<rparr>, e))"

definition GenerateInteractivePrompt :: "go_error option \<Rightarrow> string \<Rightarrow> data_generator \<Rightarrow> data_generator \<times> go_error option" where
  "GenerateInteractivePrompt inject prompt g =
     (case InjectData inject prompt (dg_vsp g) of (v, e) \<Rightarrow> (g\<lparr>dg_vsp := v\<rparr>, e))"

text \<open>The error of the first write is ignored.\<close>

definition GenerateCommandResponse ::
    "go_error option \<Rightarrow> go_error option \<Rightarrow> string \<Rightarrow> string \<Rightarrow> data_generator \<Rightarrow> data_generator \<times> go_error option" where
  "GenerateCommandResponse inject1 inject2 command response g =
     (case InjectData inject2 (response @ newline) (fst (InjectData inject1 (command @ newline) (dg_vsp g))) of
        (v, e) \<Rightarrow> (g\<lparr>dg_vsp := v\<rparr>, e))"

definition LineCount :: "data_generator \<Rightarrow> int" where
  "LineCount g = dg_lineCount g"

definition ResetLineCount :: "data_generator \<Rightarrow> data_generator" where
  "ResetLineCount g = g\<lparr>dg_lineCount := 0\<rparr>"

text \<open>\<open>StartContinuous\<close> starts a goroutine whose turns are \<open>generate_turn\<close>: the end of the goroutine, a panic, or a
  line whose error is ignored.\<close>

definition StartContinuous :: "data_generator \<Rightarrow> data_generator" where
  "StartContinuous g = g\<lparr>dg_running := True\<rparr>"

definition generate_turn :: "go_error option \<Rightarrow> string \<Rightarrow> data_generator \<Rightarrow> (go_panic + data_generator) option" where
  "generate_turn inject now g =
     (if ch_closed (dg_stopChan g) then None
      else Some (case GenerateOneLine inject now g of Inl p \<Rightarrow> Inl p | Inr (g', err) \<Rightarrow> Inr g'))"

text \<open>\<open>fmt.Sprintf("LINE_%05d: %s\n", i, now)\<close>.\<close>

definition high_frequency_line :: "nat \<times> string \<Rightarrow> string" where
  "high_frequency_line = (\<lambda>(i, now).
     ''LINE_'' @ replicate (5 - length (show_nat i)) CHR ''0'' @ show_nat i @ '': '' @ now @ newline)"

definition GenerateHighFrequencyData ::
    "(string \<Rightarrow> go_error option) \<Rightarrow> string list \<Rightarrow> data_generator \<Rightarrow> data_generator \<times> go_error option" where
  "GenerateHighFrequencyData inject nows g =
     (case inject_all inject (map high_frequency_line (enumerate 0 nows)) (dg_vsp g) of (v, e) \<Rightarrow> (g\<lparr>dg_vsp := v\<rparr>, e))"

definition DataGenerator_Stop :: "data_generator \<Rightarrow> go_panic + data_generator" where
  "DataGenerator_Stop g =
     (if dg_running g
      then case chan_close (dg_stopChan g) of
             Inl p \<Rightarrow> Inl p
           | Inr c \<Rightarrow> Inr (g\<lparr>dg_stopChan := c, dg_running := False\<rparr>)
      else Inr g)"

text \<open>A generator that was stopped cannot be used again: started once more it generates nothing, since its
  channel is closed, and the second \<open>Stop\<close> panics.\<close>

theorem restart_panics:
  "(case DataGenerator_Stop (StartContinuous (NewDataGenerator v)) of
      Inl p \<Rightarrow> False
    | Inr g \<Rightarrow> generate_turn inject now (StartContinuous g) = None \<and>
        DataGenerator_Stop (StartContinuous g) = Inl CloseOfClosed)"
  by (simp add: DataGenerator_Stop_def StartContinuous_def NewDataGenerator_def NewDataGeneratorWithPatterns_def
      chan_close_def generate_turn_def)

subsection \<open>What the parser reads\<close>

lemma leftmost_here: "here s = Some u \<Longrightarrow> leftmost here s = Some u"
  by (cases s) simp_all

lemma leftmost_skip: "(\<And>t. here (c # t) = None) \<Longrightarrow> leftmost here (c # s) = leftmost here s"
  by simp

lemma leftmost_level_skip: "CHR '']'' \<notin> set pre \<Longrightarrow> leftmost level_here (pre @ s) = leftmost level_here s"
  by (induction pre) (auto simp: level_here_def)

lemma stamp_chars:
  assumes "is_stamp ts"
  shows "set ts \<subseteq> set digits \<union> {CHR '':'', CHR ''.''}"
proof -
  from assms have "matches stamp_pat ts" by (simp only: matches_stamp)
  then obtain a b c f where u: "ts = a @ CHR '':'' # b @ CHR '':'' # c @ f" "matches digit2 a" "matches digit2 b"
      "matches digit2 c" "is_fraction f"
    unfolding stamp_parts by blast
  then show ?thesis unfolding matches_digit2 by (cases f) (auto simp: digit_str_sub)
qed

lemma stamp_not:
  assumes "is_stamp ts"
  shows "CHR '']'' \<notin> set ts \<and> CHR '' '' \<notin> set ts \<and> ts \<noteq> []"
proof -
  have "CHR '']'' \<notin> set digits \<union> {CHR '':'', CHR ''.''}" "CHR '' '' \<notin> set digits \<union> {CHR '':'', CHR ''.''}"
    by (simp_all add: digits_def)
  with stamp_chars [OF assms] assms show ?thesis by (auto simp: is_stamp_def)
qed

lemma stamped_stamp: "is_stamp ts \<Longrightarrow> leftmost stamp_here (''['' @ ts @ '']'' @ rest) = Some ts"
  by (rule leftmost_here) (auto simp: stamp_here_iff)

lemma stamped_level:
  "is_stamp ts \<Longrightarrow> leftmost level_here (''['' @ ts @ '']'' @ rest) = leftmost level_here ('']'' @ rest)"
  using leftmost_level_skip [of "''['' @ ts" "'']'' @ rest"] stamp_not [of ts] by simp

lemma stamped_message:
  assumes "is_stamp ts" and "CHR '' '' \<notin> set w" and "w \<noteq> []" and "CHR '':'' \<notin> set w"
  shows "Index (''['' @ ts @ '']'' @ '' '' @ w @ '': '' @ msg) '': '' = Some (length ts + length w + 3)"
proof -
  have c: "CHR '' '' \<notin> set (''['' @ ts @ '']'')" using stamp_not [OF assms(1)] by simp
  have i: "Index (w @ '': '' @ msg) '': '' = Some (length w)"
    using Index_skip [of "w @ '':''" msg] assms by simp
  show ?thesis using Index_skip [OF c, of "w @ '': '' @ msg"] i by simp
qed

lemma level_line_level:
  assumes "l \<in> set levels"
  shows "leftmost level_here ('']'' @ '' '' @ l @ '': '' @ msg) = Some l"
proof (rule leftmost_here)
  have "list_all is_space_byte '' ''" by (simp add: is_space_byte_def spaces_def)
  then have "level_at ('']'' @ '' '' @ l @ '': '' @ msg) l ('' '' @ msg)"
    unfolding level_at_def using assms by (intro conjI exI [of _ "'' ''"] exI [of _ "[]"]) simp_all
  then show "level_here ('']'' @ '' '' @ l @ '': '' @ msg) = Some l" using level_here_iff by blast
qed

lemma log_line_parsed:
  assumes "is_stamp ts" and "l \<in> set levels"
  shows "ParseLine (log_line ts l msg) =
    (\<lparr>le_Timestamp = ts, le_Level = level_of l, le_Message = msg, le_Raw = log_line ts l msg\<rparr>, None)"
proof -
  have lv: "l \<noteq> []" "CHR '' '' \<notin> set l" "CHR '':'' \<notin> set l"
    using levels_plain [OF assms(2)] by (auto simp: list_all_iff is_space_byte_def spaces_def)
  have line: "log_line ts l msg = ''['' @ ts @ '']'' @ '' '' @ l @ '': '' @ msg" by (simp add: log_line_def)
  have "drop (length ts + length l + 3 + 2) (''['' @ ts @ '']'' @ '' '' @ l @ '': '' @ msg) = msg"
  proof -
    let ?pre = "''['' @ ts @ '']'' @ '' '' @ l @ '': ''"
    have "length ?pre = length ts + length l + 3 + 2" by simp
    then show ?thesis by (metis append_assoc append_eq_conv_conj)
  qed
  then show ?thesis
    unfolding parse_scans scan_line_def line stamped_stamp [OF assms(1)] stamped_level [OF assms(1)]
      level_line_level [OF assms(2)] stamped_message [OF assms(1) lv(2,1,3)]
    by simp
qed

lemma Split_fuel_lines:
  "\<forall>l \<in> set ls. c \<notin> set l \<Longrightarrow> length ls \<le> n \<Longrightarrow> Split_fuel n (concat (map (\<lambda>l. l @ [c]) ls)) [c] = ls @ [[]]"
proof (induction ls arbitrary: n)
  case Nil
  then show ?case using Split_fuel1_none [of c "[]" n] by simp
next
  case (Cons l ls)
  then obtain m where "n = Suc m" "length ls \<le> m" by (cases n) auto
  with Cons show ?case using Split_fuel1 [of c l m "concat (map (\<lambda>l. l @ [c]) ls)"] by simp
qed

lemma Split_lines:
  assumes "\<forall>l \<in> set ls. c \<notin> set l"
  shows "Split (concat (map (\<lambda>l. l @ [c]) ls)) [c] = ls @ [[]]"
proof -
  have "length ls \<le> length (concat (map (\<lambda>l. l @ [c]) ls))" by (induction ls) simp_all
  with assms show ?thesis unfolding Split_def by (rule Split_fuel_lines)
qed

definition pattern_line :: "log_pattern list \<Rightarrow> nat \<times> string \<Rightarrow> string" where
  "pattern_line ps x = (case x of (k, now) \<Rightarrow> log_line now (lp_Level (ps ! (k mod length ps))) (lp_Message (ps ! (k mod length ps))))"

lemma pattern_line_pair:
  "pattern_line ps (k, now) = log_line now (lp_Level (ps ! (k mod length ps))) (lp_Message (ps ! (k mod length ps)))"
  by (simp add: pattern_line_def)

lemma generate_lines:
  assumes "ps \<noteq> []"
  shows "vp_ready (dg_vsp g) \<Longrightarrow> vp_physicalFile (dg_vsp g) \<Longrightarrow> dg_patterns g = ps \<Longrightarrow> dg_lineCount g = int k \<Longrightarrow>
    int k + int (length nows) < 2 ^ 63 \<Longrightarrow>
    GenerateMultipleLines (map (Pair None) nows) g =
      Inr (g\<lparr>dg_vsp := (dg_vsp g)\<lparr>vp_written := vp_written (dg_vsp g) @
               concat (map (\<lambda>l. l @ newline) (map (pattern_line ps) (enumerate k nows)))\<rparr>,
             dg_lineCount := int (k + length nows)\<rparr>, None)"
proof (induction nows arbitrary: g k)
  case Nil
  then show ?case by (cases g; cases "dg_vsp g") simp
next
  case (Cons now nows)
  let ?p = "ps ! (k mod length ps)"
  have sel: "selectPattern g = Inr ?p"
    using assms Cons.prems(3,4) by (simp add: selectPattern_def flip: of_nat_mod)
  have w: "wrap64 (int k + 1) = int (Suc k)" using Cons.prems(5) by (simp add: wrap64_id)
  let ?g = "g\<lparr>dg_vsp := (dg_vsp g)\<lparr>vp_written := vp_written (dg_vsp g) @ (log_line now (lp_Level ?p) (lp_Message ?p) @ newline)\<rparr>,
      dg_lineCount := int (Suc k)\<rparr>"
  have one: "GenerateOneLine None now g = Inr (?g, None)"
    using Cons.prems w by (simp add: GenerateOneLine_def sel InjectData_def WriteToPhysical_def)
  have "GenerateMultipleLines (map (Pair None) nows) ?g =
      Inr (?g\<lparr>dg_vsp := (dg_vsp ?g)\<lparr>vp_written := vp_written (dg_vsp ?g) @
               concat (map (\<lambda>l. l @ newline) (map (pattern_line ps) (enumerate (Suc k) nows)))\<rparr>,
             dg_lineCount := int (Suc k + length nows)\<rparr>, None)"
    by (rule Cons.IH) (use Cons.prems in simp_all)
  with one show ?case by (simp add: pattern_line_pair)
qed

definition pattern_ok :: "log_pattern \<Rightarrow> bool" where
  "pattern_ok p \<longleftrightarrow> lp_Level p \<in> set levels \<and> CHR 0x0A \<notin> set (lp_Message p)"

lemma newline_free:
  assumes "is_stamp ts" and "pattern_ok p"
  shows "CHR 0x0A \<notin> set (log_line ts (lp_Level p) (lp_Message p))"
proof -
  have "CHR 0x0A \<notin> set ts" using stamp_chars [OF assms(1)] by (auto simp: digits_def)
  moreover have "CHR 0x0A \<notin> set (lp_Level p)" using assms(2) by (auto simp: pattern_ok_def levels_def)
  ultimately show ?thesis using assms(2) by (auto simp: log_line_def pattern_ok_def)
qed

text \<open>The simulated board and the log parser agree: what the generator writes, split into lines and parsed,
  gives one entry per generated line, without an error, with the time of the call, the level (\<open>WARN\<close>
  for \<open>WARNING\<close>) and the message of the pattern whose turn it was.\<close>

theorem generated_lines_parse_back:
  assumes "ps \<noteq> []" and "list_all pattern_ok ps" and "list_all is_stamp nows" and "int (length nows) < 2 ^ 63"
    and "vp_ready v" and "vp_physicalFile v" and "vp_written v = ''''"
  shows "\<exists>g. GenerateMultipleLines (map (Pair None) nows) (NewDataGeneratorWithPatterns v ps) = Inr (g, None) \<and>
    LineCount g = int (length nows) \<and>
    map ParseLine (butlast (Split (vp_written (dg_vsp g)) newline)) =
      map (\<lambda>(k, now). let p = ps ! (k mod length ps) in
        (\<lparr>le_Timestamp = now, le_Level = level_of (lp_Level p), le_Message = lp_Message p,
          le_Raw = log_line now (lp_Level p) (lp_Message p)\<rparr>, None)) (enumerate 0 nows)"
proof -
  let ?g = "NewDataGeneratorWithPatterns v ps"
  let ?ls = "map (pattern_line ps) (enumerate 0 nows)"
  have el: "is_stamp now \<and> pattern_ok (ps ! (k mod length ps))" if "(k, now) \<in> set (enumerate 0 nows)" for k now
  proof -
    have "now \<in> set nows" using that by (auto simp: enumerate_eq_zip dest: set_zip_rightD)
    moreover have "ps ! (k mod length ps) \<in> set ps" using assms(1) by simp
    ultimately show ?thesis using assms(2,3) by (auto simp: list_all_iff)
  qed
  then have nl: "\<forall>l \<in> set ?ls. CHR 0x0A \<notin> set l" by (auto simp: pattern_line_def newline_free)
  obtain g where g: "GenerateMultipleLines (map (Pair None) nows) ?g = Inr (g, None)"
      "vp_written (dg_vsp g) = concat (map (\<lambda>l. l @ newline) ?ls)" "dg_lineCount g = int (length nows)"
    using generate_lines [OF assms(1), of ?g 0 nows] assms(4-7) by (simp add: NewDataGeneratorWithPatterns_def)
  have "butlast (Split (vp_written (dg_vsp g)) newline) = ?ls"
    unfolding g(2) newline_def by (simp only: Split_lines [OF nl] butlast_snoc)
  moreover have "map ParseLine ?ls = map (\<lambda>(k, now). let p = ps ! (k mod length ps) in
        (\<lparr>le_Timestamp = now, le_Level = level_of (lp_Level p), le_Message = lp_Message p,
          le_Raw = log_line now (lp_Level p) (lp_Message p)\<rparr>, None)) (enumerate 0 nows)"
    using el by (auto simp: pattern_line_def pattern_ok_def log_line_parsed Let_def)
  ultimately show ?thesis using g by (auto simp: LineCount_def)
qed

theorem generated_lines_parse_back_witness:
  "\<exists>g. GenerateMultipleLines [(None, ''15:04:05.000''), (None, ''15:04:06.250'')]
       (NewDataGeneratorWithPatterns \<lparr>vp_ready = True, vp_physicalFile = True, vp_written = ''''\<rparr> DefaultLogPatterns) = Inr (g, None) \<and>
     map (\<lambda>l. le_Message (fst (ParseLine l))) (butlast (Split (vp_written (dg_vsp g)) newline)) = [''System starting'', ''Loading kernel modules'']"
proof -
  let ?nows = "[''15:04:05.000'', ''15:04:06.250'']"
  have ok: "list_all pattern_ok DefaultLogPatterns" "list_all is_stamp ?nows" "DefaultLogPatterns \<noteq> []"
    by (simp_all add: DefaultLogPatterns_def pattern_def pattern_ok_def levels_def is_stamp_def digit_str_def digits_def)
  obtain g where g: "GenerateMultipleLines (map (Pair None) ?nows)
        (NewDataGeneratorWithPatterns \<lparr>vp_ready = True, vp_physicalFile = True, vp_written = ''''\<rparr> DefaultLogPatterns) = Inr (g, None)"
      "map ParseLine (butlast (Split (vp_written (dg_vsp g)) newline)) =
      map (\<lambda>(k, now). let p = DefaultLogPatterns ! (k mod length DefaultLogPatterns) in
        (\<lparr>le_Timestamp = now, le_Level = level_of (lp_Level p), le_Message = lp_Message p,
          le_Raw = log_line now (lp_Level p) (lp_Message p)\<rparr>, None)) (enumerate 0 ?nows)"
    using generated_lines_parse_back [OF ok(3,1,2), of "\<lparr>vp_ready = True, vp_physicalFile = True, vp_written = ''''\<rparr>"] by auto
  have "map (\<lambda>l. le_Message (fst (ParseLine l))) (butlast (Split (vp_written (dg_vsp g)) newline)) =
      map (\<lambda>x. le_Message (fst x)) (map ParseLine (butlast (Split (vp_written (dg_vsp g)) newline)))" by simp
  also have "\<dots> = [''System starting'', ''Loading kernel modules'']"
    unfolding g(2) by (simp add: DefaultLogPatterns_def pattern_def)
  finally show ?thesis using g(1) by auto
qed

text \<open>The level of a line in the Android format is lost: its name is followed by a slash and a tag, so the
  parser reports \<open>INFO\<close> for every level.\<close>

theorem android_level_lost:
  assumes "is_stamp now" and "level \<in> set levels" and "CHR '']'' \<notin> set tag" and "CHR '']'' \<notin> set message"
  shows "le_Level (fst (ParseLine (butlast (android_line now tag level message)))) = ''INFO''"
proof -
  let ?rest = "'' '' @ level @ ''/'' @ tag @ '': '' @ message"
  have line: "butlast (android_line now tag level message) = ''['' @ now @ '']'' @ ?rest"
  proof -
    have "android_line now tag level message = (''['' @ now @ '']'' @ ?rest) @ [CHR 0x0A]"
      by (simp add: android_line_def newline_def)
    then show ?thesis by (simp only: butlast_snoc)
  qed
  have lv: "level \<noteq> []" "list_all (\<lambda>x. \<not> is_space_byte x \<and> x \<noteq> CHR '':'') level" "\<not> is_space_byte (hd level)"
    using levels_plain [OF assms(2)] by (auto simp: neq_Nil_conv)
  have no: "CHR '']'' \<notin> set ?rest" using assms(2-4) by (auto simp: levels_def)
  have "level_here ('']'' @ ?rest) = None"
  proof -
    have d: "dropWhile is_space_byte ?rest = level @ ''/'' @ tag @ '': '' @ message"
      using lv dropWhile_prefix [of is_space_byte "'' ''" "level @ ''/'' @ tag @ '': '' @ message"]
      by (simp add: is_space_byte_def spaces_def)
    have "takeWhile (\<lambda>x. \<not> is_space_byte x \<and> x \<noteq> CHR '':'') (level @ ''/'' @ tag @ '': '' @ message) =
        level @ ''/'' @ takeWhile (\<lambda>x. \<not> is_space_byte x \<and> x \<noteq> CHR '':'') (tag @ '': '' @ message)"
      using lv(2) by (simp add: takeWhile_append2 list_all_iff is_space_byte_def spaces_def)
    moreover have "level @ ''/'' @ x \<notin> set levels" for x
    proof
      assume "level @ ''/'' @ x \<in> set levels"
      moreover have "CHR ''/'' \<in> set (level @ ''/'' @ x)" by simp
      moreover have "\<forall>l \<in> set levels. CHR ''/'' \<notin> set l" by (simp add: levels_def)
      ultimately show False by blast
    qed
    ultimately have "takeWhile (\<lambda>x. \<not> is_space_byte x \<and> x \<noteq> CHR '':'') (dropWhile is_space_byte ?rest) \<notin> set levels"
      unfolding d by simp
    moreover have "'']'' @ ?rest = CHR '']'' # ?rest" by simp
    ultimately show ?thesis unfolding level_here_def Let_def by (simp only: list.case if_False simp_thms)
  qed
  moreover have "leftmost level_here ?rest = None"
    using leftmost_level_skip [OF no, of "[]"] by (simp add: level_here_def)
  ultimately have "leftmost level_here ('']'' @ ?rest) = None" by simp
  then have "leftmost level_here (''['' @ now @ '']'' @ ?rest) = None" unfolding stamped_level [OF assms(1)] .
  then show ?thesis unfolding parse_scans scan_line_def line Let_def by (simp only: fst_conv log_entry.simps option.case)
qed

theorem android_level_lost_witness:
  "le_Level (fst (ParseLine (butlast (android_line ''08:00:00.000'' ''System.err'' ''ERROR'' ''disk failure'')))) = ''INFO''"
  by (rule android_level_lost) (simp_all add: is_stamp_def digit_str_def digits_def levels_def)

end
