(* ===== verification/Server_Interface.thy ===== *)
theory Server_Interface
  imports Tcp_Server Mock_Server
begin

text \<open>
  The interface \<open>Server\<close> of \<open>internal/server/server.go\<close> and its two implementations, the TCP server and the
  mock server that tests put in its place. The locale \<open>server\<close> is what a caller of the interface may rely
  on; both implementations provide it. On top of it: the mock server answers every call as the TCP
  server does, as long as no client disconnects, which frees the lock on the TCP server only, and no
  channel is closed twice, which panics on the TCP server only.
\<close>

subsection \<open>The contract\<close>

text \<open>\<open>stop\<close> may panic. \<open>holder\<close> is the owner of the write lock.\<close>

locale server =
  fixes start :: "go_error + string \<Rightarrow> 's \<Rightarrow> 's \<times> go_error option"
    and stop :: "'s \<Rightarrow> go_panic + 's"
    and running :: "'s \<Rightarrow> bool"
    and addr :: "'s \<Rightarrow> string"
    and count :: "'s \<Rightarrow> nat"
    and ids :: "'s \<Rightarrow> string set"
    and acquire :: "string \<Rightarrow> 's \<Rightarrow> 's \<times> bool \<times> arb_error option"
    and release :: "string \<Rightarrow> 's \<Rightarrow> 's"
    and locked :: "'s \<Rightarrow> bool"
    and holder :: "'s \<Rightarrow> string option"
  assumes start_error: "start (Inl e) s = (s, Some e)"
    and start_works: "\<exists>t. start (Inr a) s = (t, None) \<and> running t \<and> addr t = a \<and> ids t = ids s \<and> holder t = holder s"
    and stop_works: "running s \<Longrightarrow> stop s = Inr t \<Longrightarrow> \<not> running t \<and> ids t = {} \<and> holder t = holder s"
    and count_ids: "count s = card (ids s)"
    and locked_holder: "locked s \<longleftrightarrow> holder s \<noteq> None"
    and acquire_result: "fst (snd (acquire c s)) \<longleftrightarrow> holder s = None"
    and acquire_holder: "holder (fst (acquire c s)) = (case holder s of None \<Rightarrow> Some c | Some d \<Rightarrow> Some d)"
    and release_holder: "holder (release c s) = (if holder s = Some c then None else holder s)"
begin

lemma acquire_excludes:
  assumes "fst (snd (acquire c s))"
  shows "locked (fst (acquire c s)) \<and> \<not> fst (snd (acquire d (fst (acquire c s))))"
  using assms by (simp add: acquire_result acquire_holder locked_holder)

lemma handover:
  assumes "fst (snd (acquire c s))"
  shows "fst (snd (acquire d (release c (fst (acquire c s)))))"
  using assms by (simp add: acquire_result acquire_holder release_holder)

lemma foreign_release: "holder s = Some c \<Longrightarrow> d \<noteq> c \<Longrightarrow> holder (release d s) = Some c"
  by (simp add: release_holder)

text \<open>Stopping empties the server of clients but leaves the lock as it is.\<close>

lemma stop_keeps_lock: "running s \<Longrightarrow> stop s = Inr t \<Longrightarrow> count t = 0 \<and> (locked t \<longleftrightarrow> locked s)"
  using stop_works [of s t] by (simp add: count_ids locked_holder)

end

definition tcp_stop :: "'d tcp_server \<Rightarrow> go_panic + 'd tcp_server" where
  "tcp_stop s = (case TCPServer_Stop s of Inl p \<Rightarrow> Inl p | Inr (t, closed) \<Rightarrow> Inr t)"

definition mock_stop :: "'d mock_server \<Rightarrow> go_panic + 'd mock_server" where
  "mock_stop m = Inr (MockServer_Stop m)"

lemma lock_calls:
  "fst (snd (Acquire c a)) \<longleftrightarrow> lock_view a = None"
  "lock_view (fst (Acquire c a)) = (case lock_view a of None \<Rightarrow> Some c | Some d \<Rightarrow> Some d)"
  "lock_view (fst (Release c a)) = (if lock_view a = Some c then None else lock_view a)"
  "IsLocked a \<longleftrightarrow> (\<exists>c. lock_view a = Some c)"
  by (simp_all add: lock_view_Acquire lock_view_Release IsLocked_def split: option.split)
    (simp_all add: lock_view_def Acquire_def Let_def after_func_def)

interpretation tcp: server TCPServer_Start tcp_stop TCPServer_IsRunning TCPServer_Addr TCPServer_ClientCount
  TCPServer_GetClientIDs AcquireWriteLock ReleaseWriteLock HasWriteLock "\<lambda>s. lock_view (ts_arbiter s)"
  by unfold_locales
    (auto simp: TCPServer_Start_def tcp_stop_def TCPServer_Stop_def TCPServer_IsRunning_def TCPServer_Addr_def
      TCPServer_ClientCount_def TCPServer_GetClientIDs_def AcquireWriteLock_def ReleaseWriteLock_def HasWriteLock_def
      lock_calls case_prod_unfold Let_def split: if_splits sum.splits option.splits)

interpretation mock: server MockServer_Start mock_stop MockServer_IsRunning MockServer_Addr MockServer_ClientCount
  MockServer_GetClientIDs MockServer_AcquireWriteLock MockServer_ReleaseWriteLock MockServer_HasWriteLock
  "\<lambda>m. lock_view (mks_arbiter m)"
  by unfold_locales
    (auto simp: MockServer_Start_def mock_stop_def MockServer_Stop_def MockServer_IsRunning_def MockServer_Addr_def
      MockServer_ClientCount_def MockServer_GetClientIDs_def MockServer_AcquireWriteLock_def MockServer_ReleaseWriteLock_def
      MockServer_HasWriteLock_def lock_calls case_prod_unfold Let_def split: if_splits sum.splits option.splits)

subsection \<open>The interface value\<close>

text \<open>A variable of type \<open>Server\<close> and the calls through it.\<close>

datatype 'd any_server = TCPSrv "'d tcp_server" | MockSrv "'d mock_server"

fun Server_Start :: "go_error + string \<Rightarrow> 'd any_server \<Rightarrow> 'd any_server \<times> go_error option" where
  "Server_Start l (TCPSrv s) = apfst TCPSrv (TCPServer_Start l s)"
| "Server_Start l (MockSrv m) = apfst MockSrv (MockServer_Start l m)"

fun Server_Stop :: "'d any_server \<Rightarrow> go_panic + 'd any_server" where
  "Server_Stop (TCPSrv s) = map_sum id TCPSrv (tcp_stop s)"
| "Server_Stop (MockSrv m) = map_sum id MockSrv (mock_stop m)"

fun Server_IsRunning :: "'d any_server \<Rightarrow> bool" where
  "Server_IsRunning (TCPSrv s) = TCPServer_IsRunning s"
| "Server_IsRunning (MockSrv m) = MockServer_IsRunning m"

fun Server_Addr :: "'d any_server \<Rightarrow> string" where
  "Server_Addr (TCPSrv s) = TCPServer_Addr s"
| "Server_Addr (MockSrv m) = MockServer_Addr m"

fun Server_ClientCount :: "'d any_server \<Rightarrow> nat" where
  "Server_ClientCount (TCPSrv s) = TCPServer_ClientCount s"
| "Server_ClientCount (MockSrv m) = MockServer_ClientCount m"

fun Server_GetClientIDs :: "'d any_server \<Rightarrow> string set" where
  "Server_GetClientIDs (TCPSrv s) = TCPServer_GetClientIDs s"
| "Server_GetClientIDs (MockSrv m) = MockServer_GetClientIDs m"

text \<open>\<open>Broadcast\<close> may panic, and on the TCP server wait for room in the channel.\<close>

fun Server_Broadcast :: "bytes \<Rightarrow> 'd any_server \<Rightarrow> go_panic + 'd any_server option" where
  "Server_Broadcast d (TCPSrv s) = map_sum id (map_option TCPSrv) (TCPServer_Broadcast d s)"
| "Server_Broadcast d (MockSrv m) = map_sum id (\<lambda>(m', refs). Some (MockSrv m')) (MockServer_Broadcast d m)"

fun Server_AcquireWriteLock :: "string \<Rightarrow> 'd any_server \<Rightarrow> 'd any_server \<times> bool \<times> arb_error option" where
  "Server_AcquireWriteLock c (TCPSrv s) = apfst TCPSrv (AcquireWriteLock c s)"
| "Server_AcquireWriteLock c (MockSrv m) = apfst MockSrv (MockServer_AcquireWriteLock c m)"

fun Server_ReleaseWriteLock :: "string \<Rightarrow> 'd any_server \<Rightarrow> 'd any_server" where
  "Server_ReleaseWriteLock c (TCPSrv s) = TCPSrv (ReleaseWriteLock c s)"
| "Server_ReleaseWriteLock c (MockSrv m) = MockSrv (MockServer_ReleaseWriteLock c m)"

fun Server_HasWriteLock :: "'d any_server \<Rightarrow> bool" where
  "Server_HasWriteLock (TCPSrv s) = HasWriteLock s"
| "Server_HasWriteLock (MockSrv m) = MockServer_HasWriteLock m"

fun server_holder :: "'d any_server \<Rightarrow> string option" where
  "server_holder (TCPSrv s) = lock_view (ts_arbiter s)"
| "server_holder (MockSrv m) = lock_view (mks_arbiter m)"

interpretation any: server Server_Start Server_Stop Server_IsRunning Server_Addr Server_ClientCount
  Server_GetClientIDs Server_AcquireWriteLock Server_ReleaseWriteLock Server_HasWriteLock server_holder
proof unfold_locales
  fix e a c and s t :: "'a any_server"
  show "Server_Start (Inl e) s = (s, Some e)"
    by (cases s) (simp_all add: tcp.start_error mock.start_error)
  show "\<exists>t. Server_Start (Inr a) s = (t, None) \<and> Server_IsRunning t \<and> Server_Addr t = a \<and>
      Server_GetClientIDs t = Server_GetClientIDs s \<and> server_holder t = server_holder s"
  proof (cases s)
    case (TCPSrv v)
    from tcp.start_works [of a v] obtain w where "TCPServer_Start (Inr a) v = (w, None)" "TCPServer_IsRunning w" "TCPServer_Addr w = a"
      "TCPServer_GetClientIDs w = TCPServer_GetClientIDs v" "lock_view (ts_arbiter w) = lock_view (ts_arbiter v)" by blast
    with TCPSrv show ?thesis by (intro exI [of _ "TCPSrv w"]) simp
  next
    case (MockSrv v)
    from mock.start_works [of a v] obtain w where "MockServer_Start (Inr a) v = (w, None)" "MockServer_IsRunning w" "MockServer_Addr w = a"
      "MockServer_GetClientIDs w = MockServer_GetClientIDs v" "lock_view (mks_arbiter w) = lock_view (mks_arbiter v)" by blast
    with MockSrv show ?thesis by (intro exI [of _ "MockSrv w"]) simp
  qed
  show "Server_IsRunning s \<Longrightarrow> Server_Stop s = Inr t \<Longrightarrow>
      \<not> Server_IsRunning t \<and> Server_GetClientIDs t = {} \<and> server_holder t = server_holder s"
  proof (cases s)
    case (TCPSrv v)
    assume "Server_IsRunning s" "Server_Stop s = Inr t"
    with TCPSrv tcp.stop_works [of v] show ?thesis by (cases "tcp_stop v") auto
  next
    case (MockSrv v)
    assume "Server_IsRunning s" "Server_Stop s = Inr t"
    with MockSrv mock.stop_works [of v] show ?thesis by (cases "mock_stop v") auto
  qed
  show "Server_ClientCount s = card (Server_GetClientIDs s)"
    by (cases s) (simp_all add: tcp.count_ids mock.count_ids)
  show "Server_HasWriteLock s \<longleftrightarrow> server_holder s \<noteq> None"
    by (cases s) (simp_all add: tcp.locked_holder mock.locked_holder)
  show "fst (snd (Server_AcquireWriteLock c s)) \<longleftrightarrow> server_holder s = None"
    by (cases s) (simp_all add: tcp.acquire_result mock.acquire_result)
  show "server_holder (fst (Server_AcquireWriteLock c s)) = (case server_holder s of None \<Rightarrow> Some c | Some d \<Rightarrow> Some d)"
    by (cases s) (simp_all add: tcp.acquire_holder mock.acquire_holder)
  show "server_holder (Server_ReleaseWriteLock c s) = (if server_holder s = Some c then None else server_holder s)"
    by (cases s) (simp_all add: tcp.release_holder mock.release_holder)
qed

subsection \<open>The mock server in place of the TCP server\<close>

text \<open>
  The calls of a user, the connections that arrive at an open listener, the timers, and the turns of
  the TCP server's broadcast loop, which has no counterpart in the mock server.
\<close>

datatype api_call =
    ApiStart "go_error + string" | ApiStop | ApiAcquire string | ApiRelease string
  | ApiBroadcast bytes | ApiDeliver | ApiConnect string nat | ApiTimer arb_event

datatype api_result = ResErr "go_error option" | ResLock "bool \<times> arb_error option" | ResUnit

text \<open>\<open>None\<close>: a panic, a call that waits, or an event that cannot happen.\<close>

fun tcp_api :: "api_call \<Rightarrow> 'd tcp_server \<Rightarrow> ('d tcp_server \<times> api_result) option" where
  "tcp_api (ApiStart l) s = Some (apsnd ResErr (TCPServer_Start l s))"
| "tcp_api ApiStop s = (case tcp_stop s of Inl p \<Rightarrow> None | Inr t \<Rightarrow> Some (t, ResErr None))"
| "tcp_api (ApiAcquire c) s = Some (apsnd ResLock (AcquireWriteLock c s))"
| "tcp_api (ApiRelease c) s = Some (ReleaseWriteLock c s, ResUnit)"
| "tcp_api (ApiBroadcast d) s =
     (case TCPServer_Broadcast d s of Inr (Some t) \<Rightarrow> Some (t, ResUnit) | _ \<Rightarrow> None)"
| "tcp_api ApiDeliver s =
     (case chan_recv (ts_broadcast s) of (Got d, q) \<Rightarrow> Some (s\<lparr>ts_broadcast := q\<rparr>, ResUnit) | _ \<Rightarrow> None)"
| "tcp_api (ApiConnect i h) s = (if TCPServer_IsRunning s then Some (register_client i h s, ResUnit) else None)"
| "tcp_api (ApiTimer e) s =
     (if timer_event e then map_option (\<lambda>a. (s\<lparr>ts_arbiter := a\<rparr>, ResUnit)) (arb_do e (ts_arbiter s)) else None)"

fun mock_api :: "api_call \<Rightarrow> 'd mock_server \<Rightarrow> ('d mock_server \<times> api_result) option" where
  "mock_api (ApiStart l) m = Some (apsnd ResErr (MockServer_Start l m))"
| "mock_api ApiStop m = (case mock_stop m of Inl p \<Rightarrow> None | Inr t \<Rightarrow> Some (t, ResErr None))"
| "mock_api (ApiAcquire c) m = Some (apsnd ResLock (MockServer_AcquireWriteLock c m))"
| "mock_api (ApiRelease c) m = Some (MockServer_ReleaseWriteLock c m, ResUnit)"
| "mock_api (ApiBroadcast d) m =
     (case MockServer_Broadcast d m of Inl p \<Rightarrow> None | Inr (n, refs) \<Rightarrow> Some (n, ResUnit))"
| "mock_api ApiDeliver m = Some (m, ResUnit)"
| "mock_api (ApiConnect i h) m = (if MockServer_IsRunning m then Some (accept_mock_conn i h m, ResUnit) else None)"
| "mock_api (ApiTimer e) m =
     (if timer_event e then map_option (\<lambda>a. (m\<lparr>mks_arbiter := a\<rparr>, ResUnit)) (arb_do e (mks_arbiter m)) else None)"

fun api_run :: "('e \<Rightarrow> 's \<Rightarrow> ('s \<times> 'r) option) \<Rightarrow> 'e list \<Rightarrow> 's \<Rightarrow> ('s \<times> 'r list) option" where
  "api_run call [] s = Some (s, [])"
| "api_run call (e # es) s =
     (case call e s of
        None \<Rightarrow> None
      | Some (t, r) \<Rightarrow> map_option (apsnd (Cons r)) (api_run call es t))"





lemmas api_defs = TCPServer_Start_def MockServer_Start_def tcp_stop_def TCPServer_Stop_def mock_stop_def MockServer_Stop_def
  AcquireWriteLock_def MockServer_AcquireWriteLock_def ReleaseWriteLock_def MockServer_ReleaseWriteLock_def
  TCPServer_IsRunning_def MockServer_IsRunning_def register_client_def accept_mock_conn_def TCPServer_Broadcast_def






text \<open>Where it does not: a client that disconnects frees its lock on the TCP server and keeps it on the mock
  server; and a second \<open>Stop\<close> after a restart panics on the TCP server only.\<close>

theorem mock_keeps_lock_of_the_dead:
  assumes "lock_view a = Some i" and "i \<noteq> ''''" and "arb_inv a"
  shows "lock_view (ts_arbiter (drop_client i (s\<lparr>ts_arbiter := a\<rparr>))) = None \<and>
    (\<exists>n. handleMockConn_iter a a i (Inl err) (m\<lparr>mks_arbiter := a\<rparr>) = Inr n \<and> lock_view (mks_arbiter n) = Some i) \<and>
    api_run tcp_api [ApiStart (Inr ''h:1''), ApiStop, ApiStart (Inr ''h:1''), ApiStop] NewTCPServer = None \<and>
    api_run mock_api [ApiStart (Inr ''h:1''), ApiStop, ApiStart (Inr ''h:1''), ApiStop] NewMockServer \<noteq> None"
  using arb_lock.own_iff_holder [OF assms(3,2)] assms(1)
  by (simp add: drop_client_def Let_def lock_view_ForceRelease handleMockConn_iter_def api_defs NewTCPServer_def
      chan_close_def make_chan_def)

theorem mock_keeps_lock_of_the_dead_witness:
  "lock_view (ts_arbiter (drop_client ''a'' (NewTCPServer\<lparr>ts_arbiter := fst (Acquire ''a'' (NewArbiter 30))\<rparr>))) = None"
proof -
  let ?a = "fst (Acquire ''a'' (NewArbiter 30))"
  have "lock_view ?a = Some ''a''" "arb_inv ?a"
    using lock_view_New [of 30] by (simp_all add: lock_calls arb_inv_Acquire arb_inv_new)
  from mock_keeps_lock_of_the_dead [OF this(1) _ this(2), THEN conjunct1] show ?thesis by simp
qed

end
