(* ===== verification/Go_Mutex.thy ===== *)
theory Go_Mutex
  imports Main
begin

text \<open>
  Methods of the form \<open>mu.Lock(); defer mu.Unlock(); ...\<close> whose body may wait for ever. A call returns with
  a new state and a result, or it hangs in the state in which it waits. The mutex of Go is not
  reentrant: a body that calls a method under the same mutex waits for itself.
\<close>

datatype ('w, 'r) go_call = Returns 'w 'r | Hangs 'w

fun returned :: "('w, 'r) go_call \<Rightarrow> 'w option" where
  "returned (Returns w r) = Some w"
| "returned (Hangs w) = None"

lemma returned_Some: "returned c = Some v \<longleftrightarrow> (\<exists>r. c = Returns v r)"
  by (cases c) auto

definition with_mutex ::
    "('w \<Rightarrow> bool) \<Rightarrow> (bool \<Rightarrow> 'w \<Rightarrow> 'w) \<Rightarrow> ('w \<Rightarrow> ('w, 'r) go_call) \<Rightarrow> 'w \<Rightarrow> ('w, 'r) go_call" where
  "with_mutex held set_held body w =
     (if held w then Hangs w
      else case body (set_held True w) of
             Returns w' r \<Rightarrow> Returns (set_held False w') r
           | Hangs w' \<Rightarrow> Hangs w')"

text \<open>What a caller may rely on.\<close>

locale mutex =
  fixes held :: "'w \<Rightarrow> bool" and set_held :: "bool \<Rightarrow> 'w \<Rightarrow> 'w"
  assumes held_set: "held (set_held b w) = b"
    and set_set: "set_held b (set_held c w) = set_held b w"
    and set_same: "set_held (held w) w = w"
begin

lemma waits: "held w \<Longrightarrow> with_mutex held set_held body w = Hangs w"
  by (simp add: with_mutex_def)

lemma with_mutex_Returns:
  "with_mutex held set_held body w = Returns v r \<longleftrightarrow>
     \<not> held w \<and> (\<exists>u. body (set_held True w) = Returns u r \<and> v = set_held False u)"
  by (auto simp: with_mutex_def split: go_call.splits)

lemma returns_unlocked: "with_mutex held set_held body w = Returns v r \<Longrightarrow> \<not> held v"
  by (auto simp: with_mutex_Returns held_set)

text \<open>A body that does not touch the state leaves it as it was.\<close>

lemma pure_body: "\<not> held w \<Longrightarrow> with_mutex held set_held (\<lambda>w. Returns w (f w)) w = Returns w (f (set_held True w))"
  using set_same [of w] by (simp add: with_mutex_def set_set)

end

end
