(* ===== verification/Process_Manager.thy ===== *)
theory Process_Manager
  imports Go_Base Go_Strings Go_Mutex
begin

text \<open>
  The process manager of the simulations, \<open>tests/simulation/process_manager.go\<close>: it starts and stops the
  programs. The operating system is a parameter of each call (whether a binary is there, the process
  that a start gives, which connection attempts succeed, whether a process obeys \<open>SIGTERM\<close>); the
  processes that run and the files are state.

  Every method locks the mutex \<open>mu\<close>. A call that waits for ever, for the mutex or for a process, does
  not return: \<open>Hangs\<close> has the state in which it waits.
\<close>

subsection \<open>State\<close>

text \<open>An \<open>exec.Cmd\<close>: the program with its arguments, and the process once it is started.\<close>

record exec_cmd =
  ec_Args :: "string list"
  ec_Process :: "nat option"

text \<open>The four pipes of the source are stored and never read; they are left out.\<close>

record process_manager =
  pm_mu :: bool
  pm_serverCmd :: "exec_cmd option"
  pm_clientCmd :: "exec_cmd option"
  pm_serverRunning :: bool
  pm_clientRunning :: bool
  pm_serverPort :: int
  pm_serverAddr :: string

record process_config =
  pc_ServerBinaryPath :: string
  pc_ClientBinaryPath :: string
  pc_SerialPort :: string
  pc_ServerPort :: int
  pc_ClientPTYPath :: string
  pc_ServerConfigPath :: string
  pc_ClientConfigPath :: string

definition DefaultProcessConfig :: process_config where
  "DefaultProcessConfig =
     \<lparr>pc_ServerBinaryPath = ''./bin/shareserial-server'', pc_ClientBinaryPath = ''./bin/shareserial-client'',
      pc_SerialPort = ''/tmp/ttyVPhysical'', pc_ServerPort = 7702, pc_ClientPTYPath = ''/tmp/vttyTest0'',
      pc_ServerConfigPath = '''', pc_ClientConfigPath = ''''\<rparr>"

definition new_manager :: "int \<Rightarrow> process_manager" where
  "new_manager p = \<lparr>pm_mu = False, pm_serverCmd = None, pm_clientCmd = None, pm_serverRunning = False,
     pm_clientRunning = False, pm_serverPort = p, pm_serverAddr = ''''\<rparr>"

definition NewProcessManager :: process_manager where
  "NewProcessManager = new_manager 7702"

definition NewProcessManagerWithConfig :: "process_config \<Rightarrow> process_manager" where
  "NewProcessManagerWithConfig config = new_manager (pc_ServerPort config)"

text \<open>The manager, the processes that run and the files.\<close>

record pm_world =
  w_pm :: process_manager
  w_live :: "nat set"
  w_files :: "string set"

type_synonym 'r pm_call = "(pm_world, 'r) go_call"

subsection \<open>The project directory\<close>

text \<open>A directory is the list of its names, the innermost first; \<open>has_mod\<close> tells where a \<open>go.mod\<close> is.\<close>

fun project_root :: "(string list \<Rightarrow> bool) \<Rightarrow> string list \<Rightarrow> string list" where
  "project_root has_mod [] = []"
| "project_root has_mod (d # parent) =
     (if has_mod (d # parent) then d # parent else project_root has_mod parent)"

text \<open>\<open>filepath.Join(projectRoot, "bin", name)\<close>.\<close>

definition getBinaryPath :: "string list \<Rightarrow> string \<Rightarrow> string" where
  "getBinaryPath root name = concat (map (\<lambda>d. ''/'' @ d) (rev root @ [''bin'', name]))"

text \<open>The nearest directory above with a \<open>go.mod\<close>, or the root of the file system.\<close>

lemma project_root_above: "\<exists>below. dir = below @ project_root has_mod dir"
  by (induction dir) (auto intro: exI [of _ "[]"] exI [of _ "_ # _"])

lemma project_root_nearest:
  assumes "dir = below @ d # up" and "has_mod (d # up)" and "\<And>b c. below = b @ c \<Longrightarrow> c \<noteq> [] \<Longrightarrow> \<not> has_mod (c @ d # up)"
  shows "project_root has_mod dir = d # up"
  using assms
proof (induction below arbitrary: dir)
  case (Cons x below)
  have "\<not> has_mod (x # below @ d # up)" using Cons.prems(3) [of "[]" "x # below"] by simp
  moreover have "project_root has_mod (below @ d # up) = d # up"
    by (rule Cons.IH [OF refl Cons.prems(2)]) (use Cons.prems(3) [of "x # _"] in simp)
  ultimately show ?case by (simp add: Cons.prems(1))
qed simp

text \<open>Without a \<open>go.mod\<close> anywhere the source means to use the directory it started in; it uses the root.\<close>

lemma project_root_missing: "(\<And>d. \<not> has_mod d) \<Longrightarrow> project_root has_mod dir = []"
  by (induction dir) simp_all

subsection \<open>The mutex\<close>

definition upd_pm :: "(process_manager \<Rightarrow> process_manager) \<Rightarrow> pm_world \<Rightarrow> pm_world" where
  "upd_pm f w = w\<lparr>w_pm := f (w_pm w)\<rparr>"

lemma upd_pm_simps [simp]:
  "w_pm (upd_pm f w) = f (w_pm w)" "w_live (upd_pm f w) = w_live w" "w_files (upd_pm f w) = w_files w"
  by (simp_all add: upd_pm_def)

text \<open>\<open>mu.Lock(); defer mu.Unlock()\<close> around the body of a method.\<close>

definition mu_held :: "pm_world \<Rightarrow> bool" where
  "mu_held w = pm_mu (w_pm w)"

definition set_mu :: "bool \<Rightarrow> pm_world \<Rightarrow> pm_world" where
  "set_mu b = upd_pm (pm_mu_update (\<lambda>_. b))"

interpretation pm_mutex: mutex mu_held set_mu
  by unfold_locales (simp_all add: mu_held_def set_mu_def upd_pm_def)

definition locked :: "(pm_world \<Rightarrow> 'r pm_call) \<Rightarrow> pm_world \<Rightarrow> 'r pm_call" where
  "locked = with_mutex mu_held set_mu"

lemma locked_eq:
  "locked body w =
     (if pm_mu (w_pm w) then Hangs w
      else case body (upd_pm (pm_mu_update (\<lambda>_. True)) w) of
             Returns w' r \<Rightarrow> Returns (upd_pm (pm_mu_update (\<lambda>_. False)) w') r
           | Hangs w' \<Rightarrow> Hangs w')"
  by (simp add: locked_def with_mutex_def mu_held_def set_mu_def split: go_call.split)

lemma locked_waits: "pm_mu (w_pm w) \<Longrightarrow> locked body w = Hangs w"
  by (simp add: locked_eq)

lemma locked_Returns:
  "locked body w = Returns v r \<longleftrightarrow>
     \<not> pm_mu (w_pm w) \<and> (\<exists>u. body (upd_pm (pm_mu_update (\<lambda>_. True)) w) = Returns u r \<and> v = upd_pm (pm_mu_update (\<lambda>_. False)) u)"
  using pm_mutex.with_mutex_Returns [of body w v r] by (simp add: locked_def mu_held_def set_mu_def)

subsection \<open>Stopping\<close>

text \<open>
  \<open>syscall.Kill(-pid, SIGTERM)\<close> and \<open>Wait\<close>: a process that does not obey is waited for. \<open>obeys\<close> tells
  which processes end.
\<close>

definition kill_and_wait :: "(nat \<Rightarrow> bool) \<Rightarrow> exec_cmd \<Rightarrow> pm_world \<Rightarrow> unit pm_call" where
  "kill_and_wait obeys cmd w =
     (case ec_Process cmd of
        None \<Rightarrow> Returns w ()
      | Some pid \<Rightarrow> if obeys pid \<or> pid \<notin> w_live w then Returns (w\<lparr>w_live := w_live w - {pid}\<rparr>) () else Hangs w)"

definition StopServer :: "(nat \<Rightarrow> bool) \<Rightarrow> pm_world \<Rightarrow> unit pm_call" where
  "StopServer obeys = locked (\<lambda>w.
     case pm_serverCmd (w_pm w) of
       None \<Rightarrow> Returns w ()
     | Some cmd \<Rightarrow>
         if \<not> pm_serverRunning (w_pm w) then Returns w ()
         else case kill_and_wait obeys cmd w of
                Hangs w' \<Rightarrow> Hangs w'
              | Returns w' _ \<Rightarrow> Returns (upd_pm (\<lambda>p. p\<lparr>pm_serverRunning := False, pm_serverCmd := None\<rparr>) w') ())"

definition StopClient :: "(nat \<Rightarrow> bool) \<Rightarrow> pm_world \<Rightarrow> unit pm_call" where
  "StopClient obeys = locked (\<lambda>w.
     case pm_clientCmd (w_pm w) of
       None \<Rightarrow> Returns w ()
     | Some cmd \<Rightarrow>
         if \<not> pm_clientRunning (w_pm w) then Returns w ()
         else case kill_and_wait obeys cmd w of
                Hangs w' \<Rightarrow> Hangs w'
              | Returns w' _ \<Rightarrow> Returns (upd_pm (\<lambda>p. p\<lparr>pm_clientRunning := False, pm_clientCmd := None\<rparr>) w') ())"

text \<open>\<open>fmt.Sprintf("/tmp/vttyTest%d", i)\<close>.\<close>

definition vtty :: "nat \<Rightarrow> string" where
  "vtty i = ''/tmp/vttyTest'' @ itoa (int i)"

definition Cleanup :: "(nat \<Rightarrow> bool) \<Rightarrow> pm_world \<Rightarrow> unit pm_call" where
  "Cleanup obeys w =
     (case StopClient obeys w of
        Hangs w' \<Rightarrow> Hangs w'
      | Returns w1 _ \<Rightarrow>
          (case StopServer obeys w1 of
             Hangs w' \<Rightarrow> Hangs w'
           | Returns w2 _ \<Rightarrow> Returns (w2\<lparr>w_files := w_files w2 - vtty ` {..<10}\<rparr>) ()))"

subsection \<open>Starting\<close>

text \<open>
  \<open>dials\<close>: which of the connection attempts succeed that are made every 100 ms until the 10 seconds
  are over.
\<close>

fun waitForServerReady :: "bool list \<Rightarrow> go_error option" where
  "waitForServerReady [] = Some (ErrorString ''timeout waiting for server to be ready'')"
| "waitForServerReady (connects # dials) = (if connects then None else waitForServerReady dials)"

lemma waitForServerReady_None: "waitForServerReady dials = None \<longleftrightarrow> True \<in> set dials"
  by (induction dials) auto

definition not_found :: "string \<Rightarrow> string \<Rightarrow> go_error \<Rightarrow> go_error" where
  "not_found what path err = ErrorString (what @ '' binary not found at '' @ path @ '': '' @ go_Error err)"

definition StartServer ::
    "string list \<Rightarrow> (nat \<Rightarrow> bool) \<Rightarrow> go_error option \<Rightarrow> go_error + nat \<Rightarrow> bool list \<Rightarrow> string \<Rightarrow>
     pm_world \<Rightarrow> go_error option pm_call" where
  "StartServer root obeys stat start dials serialPort = locked (\<lambda>w.
     let binaryPath = getBinaryPath root ''shareserial-server'';
         args = [binaryPath, ''--serial'', serialPort, ''--port'', itoa (pm_serverPort (w_pm w))] in
     if pm_serverRunning (w_pm w) then Returns w (Some (ErrorString ''server already running''))
     else case stat of
       Some err \<Rightarrow> Returns w (Some (not_found ''server'' binaryPath err))
     | None \<Rightarrow>
         (case start of
            Inl err \<Rightarrow>
              Returns (upd_pm (\<lambda>p. p\<lparr>pm_serverCmd := Some \<lparr>ec_Args = args, ec_Process = None\<rparr>\<rparr>) w)
                (Some (ErrorString (''failed to start server: '' @ go_Error err)))
          | Inr pid \<Rightarrow>
              let w' = (upd_pm (\<lambda>p. p\<lparr>pm_serverCmd := Some \<lparr>ec_Args = args, ec_Process = Some pid\<rparr>,
                    pm_serverRunning := True,
                    pm_serverAddr := ''127.0.0.1:'' @ itoa (pm_serverPort p)\<rparr>) w)\<lparr>w_live := insert pid (w_live w)\<rparr> in
              (case waitForServerReady dials of
                 None \<Rightarrow> Returns w' None
               | Some err \<Rightarrow>
                   (case StopServer obeys w' of
                      Hangs v \<Rightarrow> Hangs v
                    | Returns v _ \<Rightarrow> Returns v (Some err)))))"

definition client_args :: "string list \<Rightarrow> string \<Rightarrow> process_manager \<Rightarrow> string list" where
  "client_args root ptyPath p = [getBinaryPath root ''shareserial-client'', ''--server'', pm_serverAddr p, ''--pty'', ptyPath]"

definition StartClientWithPTY ::
    "string list \<Rightarrow> go_error option \<Rightarrow> go_error + nat \<Rightarrow> string \<Rightarrow> pm_world \<Rightarrow> go_error option pm_call" where
  "StartClientWithPTY root stat start ptyPath = locked (\<lambda>w.
     let binaryPath = getBinaryPath root ''shareserial-client''; args = client_args root ptyPath (w_pm w) in
     if pm_clientRunning (w_pm w) then Returns w (Some (ErrorString ''client already running''))
     else case stat of
       Some err \<Rightarrow> Returns w (Some (not_found ''client'' binaryPath err))
     | None \<Rightarrow>
         (case start of
            Inl err \<Rightarrow>
              Returns (upd_pm (\<lambda>p. p\<lparr>pm_clientCmd := Some \<lparr>ec_Args = args, ec_Process = None\<rparr>\<rparr>) w)
                (Some (ErrorString (''failed to start client: '' @ go_Error err)))
          | Inr pid \<Rightarrow>
              Returns ((upd_pm (\<lambda>p. p\<lparr>pm_clientCmd := Some \<lparr>ec_Args = args, ec_Process = Some pid\<rparr>,
                   pm_clientRunning := True\<rparr>) w)\<lparr>w_live := insert pid (w_live w)\<rparr>) None))"

definition StartClient :: "string list \<Rightarrow> go_error option \<Rightarrow> go_error + nat \<Rightarrow> pm_world \<Rightarrow> go_error option pm_call" where
  "StartClient root stat start = StartClientWithPTY root stat start ''/tmp/vttyTest0''"

text \<open>The command of an additional client is a local variable, with no trace in the manager, and no lock is taken.\<close>

definition startAdditionalClient :: "go_error + nat \<Rightarrow> pm_world \<Rightarrow> pm_world \<times> go_error option" where
  "startAdditionalClient start w =
     (case start of
        Inl err \<Rightarrow> (w, Some (ErrorString (''failed to start additional client: '' @ go_Error err)))
      | Inr pid \<Rightarrow> (w\<lparr>w_live := insert pid (w_live w)\<rparr>, None))"

text \<open>The turns of the loop from \<open>i\<close> on, with the outcome of each start.\<close>

fun start_clients :: "string list \<Rightarrow> go_error option \<Rightarrow> nat \<Rightarrow> (go_error + nat) list \<Rightarrow> pm_world \<Rightarrow> go_error option pm_call" where
  "start_clients root stat i [] w = Returns w None"
| "start_clients root stat i (start # starts) w =
     (if i = 0
      then (case StartClientWithPTY root stat start (vtty i) w of
              Hangs w' \<Rightarrow> Hangs w'
            | Returns w' (Some err) \<Rightarrow> Returns w' (Some err)
            | Returns w' None \<Rightarrow> start_clients root stat (i + 1) starts w')
      else (case startAdditionalClient start w of
              (w', Some err) \<Rightarrow> Returns w' (Some err)
            | (w', None) \<Rightarrow> start_clients root stat (i + 1) starts w'))"

text \<open>\<open>count\<close> is the length of \<open>starts\<close>.\<close>

definition StartMultipleClients ::
    "string list \<Rightarrow> go_error option \<Rightarrow> (go_error + nat) list \<Rightarrow> pm_world \<Rightarrow> (go_error + string list) pm_call" where
  "StartMultipleClients root stat starts w =
     (case start_clients root stat 0 starts w of
        Hangs w' \<Rightarrow> Hangs w'
      | Returns w' (Some err) \<Rightarrow> Returns w' (Inl err)
      | Returns w' None \<Rightarrow> Returns w' (Inr (map vtty [0..<length starts])))"

subsection \<open>Queries\<close>

definition query :: "(process_manager \<Rightarrow> 'r) \<Rightarrow> pm_world \<Rightarrow> 'r pm_call" where
  "query f = locked (\<lambda>w. Returns w (f (w_pm w)))"

definition IsServerRunning :: "pm_world \<Rightarrow> bool pm_call" where
  "IsServerRunning = query pm_serverRunning"

definition IsClientRunning :: "pm_world \<Rightarrow> bool pm_call" where
  "IsClientRunning = query pm_clientRunning"

definition cmd_pid :: "exec_cmd option \<Rightarrow> nat" where
  "cmd_pid c = (case c of None \<Rightarrow> 0 | Some cmd \<Rightarrow> (case ec_Process cmd of None \<Rightarrow> 0 | Some pid \<Rightarrow> pid))"

definition ServerPID :: "pm_world \<Rightarrow> nat pm_call" where
  "ServerPID = query (\<lambda>p. cmd_pid (pm_serverCmd p))"

definition ClientPID :: "pm_world \<Rightarrow> nat pm_call" where
  "ClientPID = query (\<lambda>p. cmd_pid (pm_clientCmd p))"

definition ServerAddr :: "pm_world \<Rightarrow> string pm_call" where
  "ServerAddr = query pm_serverAddr"

text \<open>
  \<open>ReadFromPTY\<close>: the error of opening, and what the read gives if it ends before the timeout; the bytes
  are returned beside the error.
\<close>

definition ReadFromPTY :: "go_error option \<Rightarrow> (bytes \<times> go_error option) option \<Rightarrow> bytes \<times> go_error option" where
  "ReadFromPTY opens read =
     (case opens of
        Some err \<Rightarrow> ([], Some (ErrorString (''failed to open PTY: '' @ go_Error err)))
      | None \<Rightarrow>
          (case read of
             None \<Rightarrow> ([], Some (ErrorString ''timeout reading from PTY''))
           | Some (data, err) \<Rightarrow> (take 4096 data, err)))"

definition WriteToPTY :: "go_error option \<Rightarrow> (bytes \<Rightarrow> nat \<times> go_error option) \<Rightarrow> bytes \<Rightarrow> nat \<times> go_error option" where
  "WriteToPTY opens write data =
     (case opens of
        Some err \<Rightarrow> (0, Some (ErrorString (''failed to open PTY for writing: '' @ go_Error err)))
      | None \<Rightarrow> write data)"

subsection \<open>Calls\<close>

datatype pm_op =
    OpStartServer "go_error option" "go_error + nat" "bool list" string
  | OpStartClient "go_error option" "go_error + nat" string
  | OpMultiple "go_error option" "(go_error + nat) list"
  | OpStopServer | OpStopClient | OpCleanup | OpIsServerRunning | OpIsClientRunning
  | OpServerPID | OpClientPID | OpServerAddr

fun pm_do :: "string list \<Rightarrow> (nat \<Rightarrow> bool) \<Rightarrow> pm_op \<Rightarrow> pm_world \<Rightarrow> pm_world option" where
  "pm_do root obeys (OpStartServer stat start dials port) w = returned (StartServer root obeys stat start dials port w)"
| "pm_do root obeys (OpStartClient stat start path) w = returned (StartClientWithPTY root stat start path w)"
| "pm_do root obeys (OpMultiple stat starts) w = returned (StartMultipleClients root stat starts w)"
| "pm_do root obeys OpStopServer w = returned (StopServer obeys w)"
| "pm_do root obeys OpStopClient w = returned (StopClient obeys w)"
| "pm_do root obeys OpCleanup w = returned (Cleanup obeys w)"
| "pm_do root obeys OpIsServerRunning w = returned (IsServerRunning w)"
| "pm_do root obeys OpIsClientRunning w = returned (IsClientRunning w)"
| "pm_do root obeys OpServerPID w = returned (ServerPID w)"
| "pm_do root obeys OpClientPID w = returned (ClientPID w)"
| "pm_do root obeys OpServerAddr w = returned (ServerAddr w)"

text \<open>A mutex that is never unlocked stops every method that locks it; starting no client locks nothing.\<close>

lemma mu_stops_calls:
  assumes "pm_mu (w_pm w)" and "\<And>stat. op \<noteq> OpMultiple stat []"
  shows "pm_do root obeys op w = None"
proof (cases op)
  case (OpMultiple stat starts)
  with assms(2) obtain s ss where "starts = s # ss" by (cases starts) auto
  with OpMultiple assms(1) show ?thesis by (simp add: StartMultipleClients_def StartClientWithPTY_def locked_waits)
qed (use assms(1) in \<open>simp_all add: StartServer_def StartClientWithPTY_def StopServer_def StopClient_def Cleanup_def
  IsServerRunning_def IsClientRunning_def ServerPID_def ClientPID_def ServerAddr_def query_def locked_waits\<close>)

text \<open>
  When the server does not get ready, \<open>StartServer\<close> calls \<open>StopServer\<close> with the mutex locked and waits for
  itself: the error never arrives, the server's process is left running, and no later call gets through.
\<close>

theorem start_server_deadlock:
  assumes "\<not> pm_mu (w_pm w)" and "\<not> pm_serverRunning (w_pm w)" and "True \<notin> set dials"
  shows "\<exists>v. StartServer root obeys None (Inr pid) dials port w = Hangs v \<and> pid \<in> w_live v \<and>
    (\<forall>op. (\<forall>stat. op \<noteq> OpMultiple stat []) \<longrightarrow> pm_do root obeys op v = None)"
proof -
  have "waitForServerReady dials \<noteq> None" using assms(3) by (simp add: waitForServerReady_None)
  then obtain err where "waitForServerReady dials = Some err" by auto
  with assms(1,2) obtain v where "StartServer root obeys None (Inr pid) dials port w = Hangs v" "pid \<in> w_live v" "pm_mu (w_pm v)"
    by (simp add: StartServer_def locked_eq [of "\<lambda>w. _ w"] StopServer_def locked_waits Let_def)
  then show ?thesis using mu_stops_calls by blast
qed

theorem start_server_deadlock_witness:
  "\<exists>v. StartServer [''repo''] (\<lambda>_. True) None (Inr 7) [False, False] ''/dev/null''
     \<lparr>w_pm = NewProcessManager, w_live = {}, w_files = {}\<rparr> = Hangs v \<and> pm_do [''repo''] (\<lambda>_. True) OpStopServer v = None"
  using start_server_deadlock [of "\<lparr>w_pm = NewProcessManager, w_live = {}, w_files = {}\<rparr>" "[False, False]"
      "[''repo'']" "\<lambda>_. True" 7 "''/dev/null''"]
  by (auto simp: NewProcessManager_def new_manager_def)

subsection \<open>Which processes run\<close>

definition proc_of :: "bool \<Rightarrow> exec_cmd option \<Rightarrow> nat set" where
  "proc_of r c = (if r then set_option (Option.bind c ec_Process) else {})"

definition server_procs :: "pm_world \<Rightarrow> nat set" where
  "server_procs w = proc_of (pm_serverRunning (w_pm w)) (pm_serverCmd (w_pm w))"

definition client_procs :: "pm_world \<Rightarrow> nat set" where
  "client_procs w = proc_of (pm_clientRunning (w_pm w)) (pm_clientCmd (w_pm w))"

text \<open>\<open>X\<close>: the additional clients.\<close>

definition pm_inv :: "pm_world \<Rightarrow> nat set \<Rightarrow> bool" where
  "pm_inv w X \<longleftrightarrow> \<not> pm_mu (w_pm w) \<and> w_live w = server_procs w \<union> client_procs w \<union> X \<and>
     server_procs w \<inter> client_procs w = {} \<and> server_procs w \<inter> X = {} \<and> client_procs w \<inter> X = {}"

fun started :: "(go_error + nat) list \<Rightarrow> nat list" where
  "started (Inr pid # starts) = pid # started starts"
| "started _ = []"

text \<open>The processes that a call may start; the additional clients among those it does start.\<close>

fun op_pids :: "pm_op \<Rightarrow> nat list" where
  "op_pids (OpStartServer stat start dials port) = started [start]"
| "op_pids (OpStartClient stat start path) = started [start]"
| "op_pids (OpMultiple stat starts) = started starts"
| "op_pids _ = []"

fun op_extras :: "pm_op \<Rightarrow> pm_world \<Rightarrow> nat set" where
  "op_extras (OpMultiple stat starts) w =
     (if pm_clientRunning (w_pm w) \<or> stat \<noteq> None then {} else set (tl (started starts)))"
| "op_extras _ w = {}"

text \<open>A call together with the additional clients so far; the system gives a new process a number that is not in use.\<close>

fun pm_act :: "string list \<Rightarrow> (nat \<Rightarrow> bool) \<Rightarrow> pm_op \<Rightarrow> pm_world \<times> nat set \<Rightarrow> (pm_world \<times> nat set) option" where
  "pm_act root obeys op (w, X) =
     (if distinct (op_pids op) \<and> set (op_pids op) \<inter> w_live w = {}
      then map_option (\<lambda>v. (v, X \<union> op_extras op w)) (pm_do root obeys op w)
      else None)"

fun pm_run :: "string list \<Rightarrow> (nat \<Rightarrow> bool) \<Rightarrow> pm_op list \<Rightarrow> pm_world \<times> nat set \<Rightarrow> (pm_world \<times> nat set) option" where
  "pm_run root obeys [] s = Some s"
| "pm_run root obeys (op # ops) s = (case pm_act root obeys op s of None \<Rightarrow> None | Some t \<Rightarrow> pm_run root obeys ops t)"

interpretation pm_runs: event_runs "pm_act root obeys" "pm_run root obeys" for root obeys
  by unfold_locales simp_all

lemmas pm_inv_defs = pm_inv_def server_procs_def client_procs_def proc_of_def

lemma inv_StopServer: "pm_inv w X \<Longrightarrow> StopServer obeys w = Returns v r \<Longrightarrow> pm_inv v X \<and> server_procs v = {} \<and> client_procs v = client_procs w"
  by (auto simp: pm_inv_defs StopServer_def locked_eq kill_and_wait_def split: option.splits if_splits)

lemma inv_StopClient: "pm_inv w X \<Longrightarrow> StopClient obeys w = Returns v r \<Longrightarrow> pm_inv v X \<and> client_procs v = {}"
  by (auto simp: pm_inv_defs StopClient_def locked_eq kill_and_wait_def split: option.splits if_splits)

text \<open>What a returning start leaves: the state as it was, or the new process of its program.\<close>

lemma procs_mu [simp]:
  "server_procs (upd_pm (pm_mu_update f) w) = server_procs w" "client_procs (upd_pm (pm_mu_update f) w) = client_procs w"
  by (simp_all add: server_procs_def client_procs_def)

lemma StartServer_returns:
  assumes "StartServer root obeys stat start dials port w = Returns v r"
  shows "\<not> pm_mu (w_pm v) \<and> client_procs v = client_procs w \<and>
    (w_live v = w_live w \<and> server_procs v = server_procs w \<or>
     (\<exists>pid. start = Inr pid \<and> server_procs w = {} \<and> w_live v = insert pid (w_live w) \<and> server_procs v = {pid}))"
proof (cases "pm_serverRunning (w_pm w) \<or> stat \<noteq> None")
  case True
  with assms show ?thesis
    by (cases "pm_serverRunning (w_pm w)"; cases stat) (auto simp: StartServer_def locked_Returns Let_def)
next
  case False
  show ?thesis
  proof (cases "\<exists>pid. start = Inr pid \<and> waitForServerReady dials = None")
    case True
    with False assms show ?thesis
      by (auto simp: StartServer_def locked_Returns Let_def server_procs_def client_procs_def proc_of_def)
  next
    case fails: False
    with False assms show ?thesis
      by (cases start; cases "waitForServerReady dials")
        (auto simp: StartServer_def locked_Returns Let_def server_procs_def client_procs_def proc_of_def StopServer_def locked_waits)
  qed
qed

lemma StartClient_returns:
  assumes "StartClientWithPTY root stat start path w = Returns v r"
  shows "\<not> pm_mu (w_pm v) \<and> server_procs v = server_procs w \<and>
    (w_live v = w_live w \<and> client_procs v = client_procs w \<or>
     (\<exists>pid. start = Inr pid \<and> client_procs w = {} \<and> w_live v = insert pid (w_live w) \<and> client_procs v = {pid}))"
proof (cases "pm_clientRunning (w_pm w) \<or> stat \<noteq> None")
  case True
  with assms show ?thesis
    by (cases "pm_clientRunning (w_pm w)"; cases stat) (auto simp: StartClientWithPTY_def locked_Returns Let_def)
next
  case False
  with assms show ?thesis
    by (cases start) (auto simp: StartClientWithPTY_def locked_Returns Let_def server_procs_def client_procs_def proc_of_def)
qed

lemma inv_StartServer:
  assumes "pm_inv w X" and "set (started [start]) \<inter> w_live w = {}" and "StartServer root obeys stat start dials port w = Returns v r"
  shows "pm_inv v X"
  using StartServer_returns [OF assms(3)] assms(1,2) unfolding pm_inv_def by (elim conjE disjE exE) auto

lemma inv_StartClient:
  assumes "pm_inv w X" and "set (started [start]) \<inter> w_live w = {}" and "StartClientWithPTY root stat start path w = Returns v r"
  shows "pm_inv v X"
  using StartClient_returns [OF assms(3)] assms(1,2) unfolding pm_inv_def by (elim conjE disjE exE) auto

lemma inv_additional:
  "pm_inv w X \<Longrightarrow> distinct (started starts) \<Longrightarrow> set (started starts) \<inter> w_live w = {} \<Longrightarrow>
     start_clients root stat (Suc i) starts w = Returns v r \<Longrightarrow> pm_inv v (X \<union> set (started starts))"
proof (induction starts arbitrary: i w X)
  case (Cons start starts)
  show ?case
  proof (cases start)
    case (Inr pid)
    let ?w = "w\<lparr>w_live := insert pid (w_live w)\<rparr>"
    have "pm_inv ?w (insert pid X)" using Cons.prems(1,3) Inr by (auto simp: pm_inv_defs)
    from Cons.IH [OF this, of "Suc i"] Cons.prems Inr show ?thesis
      by (simp add: startAdditionalClient_def)
  qed (use Cons.prems in \<open>simp add: startAdditionalClient_def\<close>)
qed simp

lemma inv_clients:
  assumes "pm_inv w X" and "distinct (started starts)" and "set (started starts) \<inter> w_live w = {}"
    and "start_clients root stat 0 starts w = Returns v r"
  shows "pm_inv v (X \<union> op_extras (OpMultiple stat starts) w)"
proof (cases starts)
  case (Cons start more)
  with assms(4) obtain u e where u: "StartClientWithPTY root stat start (vtty 0) w = Returns u e"
    and rest: "case e of Some err \<Rightarrow> Returns u (Some err) = Returns v r | None \<Rightarrow> start_clients root stat (Suc 0) more u = Returns v r"
    by (auto split: go_call.splits option.splits)
  have inv: "pm_inv u X"
    by (rule inv_StartClient [OF assms(1) _ u]) (use assms(3) Cons in \<open>cases start; auto\<close>)
  show ?thesis
  proof (cases e)
    case None
    with u obtain pid where pid: "start = Inr pid" "stat = None" "\<not> pm_clientRunning (w_pm w)" "w_live u = insert pid (w_live w)"
      by (cases "pm_clientRunning (w_pm w)"; cases stat; cases start) (auto simp: StartClientWithPTY_def locked_Returns Let_def)
    with inv_additional [OF inv] rest None assms(2,3) Cons show ?thesis by auto
  next
    case (Some err)
    with u have "pm_clientRunning (w_pm w) \<or> stat \<noteq> None \<or> started starts = []"
      by (cases "pm_clientRunning (w_pm w)"; cases stat; cases start) (auto simp: Cons StartClientWithPTY_def locked_Returns Let_def)
    with inv rest Some show ?thesis by auto
  qed
qed (use assms in simp)

lemma inv_query: "pm_inv w X \<Longrightarrow> query f w = Returns v r \<Longrightarrow> pm_inv v X"
  by (auto simp: query_def locked_Returns pm_inv_def)

lemma inv_files: "pm_inv (w\<lparr>w_files := F\<rparr>) X \<longleftrightarrow> pm_inv w X"
  by (simp add: pm_inv_def server_procs_def client_procs_def)

lemma inv_Cleanup:
  assumes "pm_inv w X" and "Cleanup obeys w = Returns v r"
  shows "pm_inv v X \<and> server_procs v = {} \<and> client_procs v = {}"
proof -
  from assms(2) obtain w1 w2 a b where c: "StopClient obeys w = Returns w1 a" "StopServer obeys w1 = Returns w2 b"
    "v = w2\<lparr>w_files := w_files w2 - vtty ` {..<10}\<rparr>"
    by (auto simp: Cleanup_def split: go_call.splits)
  from inv_StopClient [OF assms(1) c(1)] inv_StopServer [OF _ c(2)] show ?thesis
    by (auto simp: c(3) inv_files server_procs_def client_procs_def)
qed

lemma inv_do:
  assumes "pm_do root obeys op w = Some v" and "pm_inv w X" and "distinct (op_pids op)" and "set (op_pids op) \<inter> w_live w = {}"
  shows "pm_inv v (X \<union> op_extras op w)"
proof (cases op)
  case (OpStartServer stat start dials port)
  with assms show ?thesis by (auto simp: returned_Some intro: inv_StartServer)
next
  case (OpStartClient stat start path)
  with assms show ?thesis by (auto simp: returned_Some intro: inv_StartClient)
next
  case (OpMultiple stat starts)
  with assms(1) obtain r where "start_clients root stat 0 starts w = Returns v r"
    by (auto simp: returned_Some StartMultipleClients_def split: go_call.splits option.splits)
  from inv_clients [OF assms(2) _ _ this] assms(3,4) show ?thesis by (simp add: OpMultiple)
qed (use assms in \<open>auto simp: returned_Some IsServerRunning_def IsClientRunning_def ServerPID_def ClientPID_def ServerAddr_def
  dest: inv_StopServer inv_StopClient inv_Cleanup intro: inv_query\<close>)

lemma inv_act: "pm_act root obeys op s = Some t \<Longrightarrow> pm_inv (fst s) (snd s) \<Longrightarrow> pm_inv (fst t) (snd t)"
  by (cases s) (auto split: if_splits intro: inv_do)

lemma kill_obeyed:
  assumes "\<forall>p. obeys p"
  obtains u where "kill_and_wait obeys cmd w = Returns u ()"
  using assms by (cases "ec_Process cmd") (simp_all add: kill_and_wait_def)

lemma StopServer_returns:
  assumes "\<forall>p. obeys p" and "\<not> pm_mu (w_pm w)"
  obtains v where "StopServer obeys w = Returns v ()"
proof -
  obtain u where "kill_and_wait obeys (the (pm_serverCmd (w_pm w))) (upd_pm (pm_mu_update (\<lambda>_. True)) w) = Returns u ()"
    by (rule kill_obeyed [OF assms(1)])
  with assms(2) that show thesis
    by (cases "pm_serverCmd (w_pm w)"; cases "pm_serverRunning (w_pm w)") (auto simp: StopServer_def locked_eq)
qed

lemma StopClient_returns:
  assumes "\<forall>p. obeys p" and "\<not> pm_mu (w_pm w)"
  obtains v where "StopClient obeys w = Returns v ()"
proof -
  obtain u where "kill_and_wait obeys (the (pm_clientCmd (w_pm w))) (upd_pm (pm_mu_update (\<lambda>_. True)) w) = Returns u ()"
    by (rule kill_obeyed [OF assms(1)])
  with assms(2) that show thesis
    by (cases "pm_clientCmd (w_pm w)"; cases "pm_clientRunning (w_pm w)") (auto simp: StopClient_def locked_eq)
qed

text \<open>
  \<open>Cleanup\<close> says that it ends all processes. After any calls that have returned it ends the server and the
  first client; the additional clients of \<open>StartMultipleClients\<close> go on running, and nothing knows their
  processes.
\<close>

theorem cleanup_leaves_additional_clients:
  assumes "pm_run root obeys ops (\<lparr>w_pm = new_manager port, w_live = {}, w_files = F\<rparr>, {}) = Some (w, X)"
    and "\<forall>p. obeys p"
  shows "\<exists>v. Cleanup obeys w = Returns v () \<and> w_live v = X"
proof -
  have inv: "pm_inv w X"
    using pm_runs.run_keep [OF assms(1), where P = "\<lambda>s. pm_inv (fst s) (snd s)"] inv_act
    by (simp add: pm_inv_defs new_manager_def)
  then have "\<not> pm_mu (w_pm w)" by (simp add: pm_inv_def)
  with assms(2) obtain w1 where 1: "StopClient obeys w = Returns w1 ()" by (rule StopClient_returns)
  from inv_StopClient [OF inv this] have "\<not> pm_mu (w_pm w1)" by (simp add: pm_inv_def)
  with assms(2) obtain w2 where 2: "StopServer obeys w1 = Returns w2 ()" by (rule StopServer_returns)
  from 1 2 obtain v where v: "Cleanup obeys w = Returns v ()" by (simp add: Cleanup_def)
  from inv_Cleanup [OF inv v] show ?thesis using v by (auto simp: pm_inv_def)
qed

theorem cleanup_leaves_additional_clients_witness:
  "\<exists>w v. pm_run [''repo''] (\<lambda>_. True) [OpMultiple None [Inr 1, Inr 2, Inr 3]]
      (\<lparr>w_pm = new_manager 7702, w_live = {}, w_files = {}\<rparr>, {}) = Some (w, {2, 3}) \<and>
    Cleanup (\<lambda>_. True) w = Returns v () \<and> w_live v = {2, 3}"
proof -
  obtain w where "pm_run [''repo''] (\<lambda>_. True) [OpMultiple None [Inr 1, Inr 2, Inr 3]]
      (\<lparr>w_pm = new_manager 7702, w_live = {}, w_files = {}\<rparr>, {}) = Some (w, {2, 3})"
    by (simp add: StartMultipleClients_def StartClientWithPTY_def locked_eq startAdditionalClient_def new_manager_def Let_def)
  with cleanup_leaves_additional_clients [OF this] show ?thesis by auto
qed

end
