(* ===== verification/Virtual_Serial.thy ===== *)
theory Virtual_Serial
  imports Data_Generator Go_Mutex
begin

unbundle bit_operations_syntax

text \<open>
  The pair of serial ports of the simulations, \<open>tests/simulation/virtual_serial.go\<close>. \<open>socat\<close> links two
  pseudo terminals: what is written to one end is read at the other. The operating system is a
  parameter of each call, with the open files, the processes and the links as state. All methods but
  the getters of the paths lock a mutex, over the read as well.
\<close>

record pair_config =
  vc_PhysicalPortPath :: string
  vc_TerminalPortPath :: string
  vc_BaudRate :: int

definition DefaultVirtualSerialConfig :: pair_config where
  "DefaultVirtualSerialConfig = \<lparr>vc_PhysicalPortPath = ''/tmp/ttyVPhysical'', vc_TerminalPortPath = ''/tmp/ttyVTerminal'',
     vc_BaudRate = 115200\<rparr>"

text \<open>A \<open>*os.File\<close> and the process of \<open>socat\<close> are numbers; \<open>to_terminal\<close> is what was written to the physical end.\<close>

record serial_pair =
  vs_mu :: bool
  vs_physicalPort :: string
  vs_terminalPort :: string
  vs_socatProcess :: "nat option"
  vs_socatPID :: nat
  vs_physicalFile :: "nat option"
  vs_terminalFile :: "nat option"
  vs_ready :: bool
  os_open :: "nat set"
  os_procs :: "nat set"
  os_links :: "string set"
  to_terminal :: string
  to_physical :: string

text \<open>The zero value, with nothing open.\<close>

definition no_pair :: serial_pair where
  "no_pair = \<lparr>vs_mu = False, vs_physicalPort = '''', vs_terminalPort = '''', vs_socatProcess = None, vs_socatPID = 0,
     vs_physicalFile = None, vs_terminalFile = None, vs_ready = False, os_open = {}, os_procs = {}, os_links = {},
     to_terminal = '''', to_physical = ''''\<rparr>"

definition vs_held :: "serial_pair \<Rightarrow> bool" where "vs_held w = vs_mu w"

definition vs_set :: "bool \<Rightarrow> serial_pair \<Rightarrow> serial_pair" where "vs_set b w = w\<lparr>vs_mu := b\<rparr>"

interpretation vs_mutex: mutex vs_held vs_set
  by unfold_locales (simp_all add: vs_held_def vs_set_def)

definition vs_locked :: "(serial_pair \<Rightarrow> (serial_pair, 'r) go_call) \<Rightarrow> serial_pair \<Rightarrow> (serial_pair, 'r) go_call" where
  "vs_locked = with_mutex vs_held vs_set"

lemma vs_locked_eq:
  "vs_locked body w =
     (if vs_mu w then Hangs w
      else case body (w\<lparr>vs_mu := True\<rparr>) of Returns w' r \<Rightarrow> Returns (w'\<lparr>vs_mu := False\<rparr>) r | Hangs w' \<Rightarrow> Hangs w')"
  by (simp add: vs_locked_def with_mutex_def vs_held_def vs_set_def split: go_call.split)

lemma vs_locked_waits: "vs_mu w \<Longrightarrow> vs_locked body w = Hangs w"
  by (simp add: vs_locked_eq)

subsection \<open>Closing\<close>

definition close_file :: "nat option \<Rightarrow> serial_pair \<Rightarrow> serial_pair" where
  "close_file f w = (case f of None \<Rightarrow> w | Some fd \<Rightarrow> w\<lparr>os_open := os_open w - {fd}\<rparr>)"

definition remove_links :: "serial_pair \<Rightarrow> serial_pair" where
  "remove_links w = w\<lparr>os_links := os_links w - {vs_physicalPort w, vs_terminalPort w}\<rparr>"

text \<open>\<open>obeys\<close>: which processes end on \<open>SIGTERM\<close>; \<open>Wait\<close> waits for the others.\<close>

definition Pair_Close :: "(nat \<Rightarrow> bool) \<Rightarrow> serial_pair \<Rightarrow> (serial_pair, unit) go_call" where
  "Pair_Close obeys = vs_locked (\<lambda>w.
     let w1 = w\<lparr>vs_ready := False\<rparr>;
         w2 = (close_file (vs_physicalFile w1) w1)\<lparr>vs_physicalFile := None\<rparr>;
         w3 = (close_file (vs_terminalFile w2) w2)\<lparr>vs_terminalFile := None\<rparr> in
     case vs_socatProcess w3 of
       None \<Rightarrow> Returns (remove_links w3) ()
     | Some pid \<Rightarrow>
         if obeys (vs_socatPID w3) \<or> pid \<notin> os_procs w3
         then Returns (remove_links (w3\<lparr>os_procs := os_procs w3 - {pid}, vs_socatProcess := None\<rparr>)) ()
         else Hangs w3)"

subsection \<open>Creation\<close>

text \<open>\<open>os.ModeCharDevice\<close>.\<close>

definition ModeCharDevice :: "32 word" where "ModeCharDevice = push_bit 21 1"

definition checkDevicesReady :: "go_error + 32 word \<Rightarrow> go_error + 32 word \<Rightarrow> bool" where
  "checkDevicesReady stat1 stat2 =
     (case (stat1, stat2) of
        (Inr mode1, Inr mode2) \<Rightarrow> \<not> (mode1 AND ModeCharDevice = 0 \<or> mode2 AND ModeCharDevice = 0)
      | _ \<Rightarrow> False)"

lemma checkDevicesReady_bit: "checkDevicesReady (Inr m1) (Inr m2) \<longleftrightarrow> bit m1 21 \<and> bit m2 21"
  unfolding checkDevicesReady_def ModeCharDevice_def push_bit_of_1
  by (simp only: prod.case sum.case and_exp_eq_0_iff_not_bit) simp

text \<open>What \<open>Stat\<close> gives at the ticks until the 5 seconds are over.\<close>

fun waitForDevices :: "((go_error + 32 word) \<times> (go_error + 32 word)) list \<Rightarrow> go_error option" where
  "waitForDevices [] = Some (ErrorString ''timeout waiting for virtual serial ports'')"
| "waitForDevices ((stat1, stat2) # ticks) = (if checkDevicesReady stat1 stat2 then None else waitForDevices ticks)"

record create_env =
  ce_LookPath :: "go_error option"
  ce_Start :: "go_error + nat"
  ce_ticks :: "((go_error + 32 word) \<times> (go_error + 32 word)) list"
  ce_OpenPhysical :: "go_error + nat"
  ce_OpenTerminal :: "go_error + nat"

definition fail_closed :: "(nat \<Rightarrow> bool) \<Rightarrow> go_error \<Rightarrow> serial_pair \<Rightarrow> (serial_pair, go_error option) go_call" where
  "fail_closed obeys err w = (case Pair_Close obeys w of Returns w' _ \<Rightarrow> Returns w' (Some err) | Hangs w' \<Rightarrow> Hangs w')"

text \<open>\<open>w\<close> is the system before; \<open>socat\<close> makes its two links when it has started.\<close>

definition CreateVirtualSerialPairWithConfig ::
    "create_env \<Rightarrow> (nat \<Rightarrow> bool) \<Rightarrow> pair_config \<Rightarrow> serial_pair \<Rightarrow> (serial_pair, go_error option) go_call" where
  "CreateVirtualSerialPairWithConfig env obeys config w =
     (let w1 = w\<lparr>vs_mu := False, vs_physicalPort := vc_PhysicalPortPath config, vs_terminalPort := vc_TerminalPortPath config,
                vs_socatProcess := None, vs_socatPID := 0, vs_physicalFile := None, vs_terminalFile := None, vs_ready := False\<rparr> in
      case ce_LookPath env of
        Some err \<Rightarrow> Returns w1 (Some (ErrorString (''socat not found: '' @ go_Error err)))
      | None \<Rightarrow>
          (let w2 = remove_links w1 in
           case ce_Start env of
             Inl err \<Rightarrow> Returns w2 (Some (ErrorString (''failed to start socat: '' @ go_Error err)))
           | Inr pid \<Rightarrow>
               (let w3 = w2\<lparr>vs_socatProcess := Some pid, vs_socatPID := pid, os_procs := insert pid (os_procs w2),
                    os_links := os_links w2 \<union> {vs_physicalPort w2, vs_terminalPort w2}, to_terminal := '''', to_physical := ''''\<rparr> in
                case waitForDevices (ce_ticks env) of
                  Some err \<Rightarrow> fail_closed obeys err w3
                | None \<Rightarrow>
                    (case ce_OpenPhysical env of
                       Inl err \<Rightarrow> fail_closed obeys (ErrorString (''failed to open physical port: '' @ go_Error err)) w3
                     | Inr fd \<Rightarrow>
                         (let w4 = w3\<lparr>os_open := insert fd (os_open w3)\<rparr> in
                          case ce_OpenTerminal env of
                            Inl err \<Rightarrow>
                              fail_closed obeys (ErrorString (''failed to open terminal port: '' @ go_Error err)) (close_file (Some fd) w4)
                          | Inr fd2 \<Rightarrow>
                              Returns (w4\<lparr>os_open := insert fd2 (os_open w4), vs_physicalFile := Some fd,
                                  vs_terminalFile := Some fd2, vs_ready := True\<rparr>) None)))))"

definition CreateVirtualSerialPair ::
    "create_env \<Rightarrow> (nat \<Rightarrow> bool) \<Rightarrow> serial_pair \<Rightarrow> (serial_pair, go_error option) go_call" where
  "CreateVirtualSerialPair env obeys = CreateVirtualSerialPairWithConfig env obeys DefaultVirtualSerialConfig"

subsection \<open>Reading and writing\<close>

definition not_ready :: go_error where "not_ready = ErrorString ''virtual serial pair not ready''"

text \<open>\<open>inject\<close>: the error of the write.\<close>

definition Pair_WriteToPhysical :: "go_error option \<Rightarrow> string \<Rightarrow> serial_pair \<Rightarrow> (serial_pair, nat \<times> go_error option) go_call" where
  "Pair_WriteToPhysical inject data = vs_locked (\<lambda>w.
     if \<not> vs_ready w \<or> vs_physicalFile w = None then Returns w (0, Some not_ready)
     else case inject of
            Some err \<Rightarrow> Returns w (0, Some err)
          | None \<Rightarrow> Returns (w\<lparr>to_terminal := to_terminal w @ data\<rparr>) (length data, None))"

definition Pair_WriteToTerminal :: "go_error option \<Rightarrow> string \<Rightarrow> serial_pair \<Rightarrow> (serial_pair, nat \<times> go_error option) go_call" where
  "Pair_WriteToTerminal inject data = vs_locked (\<lambda>w.
     if \<not> vs_ready w \<or> vs_terminalFile w = None then Returns w (0, Some not_ready)
     else case inject of
            Some err \<Rightarrow> Returns w (0, Some err)
          | None \<Rightarrow> Returns (w\<lparr>to_physical := to_physical w @ data\<rparr>) (length data, None))"

text \<open>A read into \<open>n > 0\<close> bytes waits until there is something to read.\<close>

definition ReadFromPhysical :: "nat \<Rightarrow> serial_pair \<Rightarrow> (serial_pair, string \<times> go_error option) go_call" where
  "ReadFromPhysical n = vs_locked (\<lambda>w.
     if \<not> vs_ready w \<or> vs_physicalFile w = None then Returns w ('''', Some not_ready)
     else if n > 0 \<and> to_physical w = '''' then Hangs w
     else Returns (w\<lparr>to_physical := drop n (to_physical w)\<rparr>) (take n (to_physical w), None))"

definition ReadFromTerminal :: "nat \<Rightarrow> serial_pair \<Rightarrow> (serial_pair, string \<times> go_error option) go_call" where
  "ReadFromTerminal n = vs_locked (\<lambda>w.
     if \<not> vs_ready w \<or> vs_terminalFile w = None then Returns w ('''', Some not_ready)
     else if n > 0 \<and> to_terminal w = '''' then Hangs w
     else Returns (w\<lparr>to_terminal := drop n (to_terminal w)\<rparr>) (take n (to_terminal w), None))"

definition Pair_InjectData :: "go_error option \<Rightarrow> string \<Rightarrow> serial_pair \<Rightarrow> (serial_pair, go_error option) go_call" where
  "Pair_InjectData inject data w =
     (case Pair_WriteToPhysical inject data w of Returns w' (n, e) \<Rightarrow> Returns w' e | Hangs w' \<Rightarrow> Hangs w')"

text \<open>With the error of each write.\<close>

fun InjectMultipleLines :: "(string \<times> go_error option) list \<Rightarrow> serial_pair \<Rightarrow> (serial_pair, go_error option) go_call" where
  "InjectMultipleLines [] w = Returns w None"
| "InjectMultipleLines ((line, inject) # lines) w =
     (case Pair_InjectData inject (line @ newline) w of
        Hangs w' \<Rightarrow> Hangs w'
      | Returns w' (Some err) \<Rightarrow> Returns w' (Some err)
      | Returns w' None \<Rightarrow> InjectMultipleLines lines w')"

definition IsReady :: "serial_pair \<Rightarrow> (serial_pair, bool) go_call" where
  "IsReady = vs_locked (\<lambda>w. Returns w (vs_ready w))"

definition PhysicalPort :: "serial_pair \<Rightarrow> string" where "PhysicalPort w = vs_physicalPort w"
definition TerminalPort :: "serial_pair \<Rightarrow> string" where "TerminalPort w = vs_terminalPort w"
definition GetPID :: "serial_pair \<Rightarrow> nat" where "GetPID w = vs_socatPID w"

subsection \<open>Creation leaks nothing\<close>

lemma Pair_Close_returns:
  assumes "\<not> vs_mu w" and "\<forall>p. obeys p"
  shows "\<exists>v. Pair_Close obeys w = Returns v () \<and> \<not> vs_ready v \<and> \<not> vs_mu v \<and> vs_physicalFile v = None \<and> vs_terminalFile v = None \<and>
    vs_socatProcess v = None \<and>
    os_open v = os_open w - set_option (vs_physicalFile w) - set_option (vs_terminalFile w) \<and>
    os_procs v = os_procs w - set_option (vs_socatProcess w) \<and>
    os_links v = os_links w - {vs_physicalPort w, vs_terminalPort w}"
  using assms
  by (cases "vs_physicalFile w"; cases "vs_terminalFile w"; cases "vs_socatProcess w")
    (auto simp: Pair_Close_def vs_locked_eq close_file_def remove_links_def Let_def)

text \<open>
  Every failure of the creation leaves the open files and the processes as they were, and no link of the
  pair unless \<open>socat\<close> is missing, which is noticed before anything is touched; a created pair has its two
  files and its process.
\<close>

theorem create_pair_no_leak:
  assumes "\<forall>p. obeys p"
    and "\<forall>pid. ce_Start env = Inr pid \<longrightarrow> pid \<notin> os_procs w"
    and "\<forall>fd. ce_OpenPhysical env = Inr fd \<longrightarrow> fd \<notin> os_open w"
  shows "\<exists>v e. CreateVirtualSerialPairWithConfig env obeys config w = Returns v e \<and>
    (if e = None
     then vs_ready v \<and> os_open v = os_open w \<union> set_option (vs_physicalFile v) \<union> set_option (vs_terminalFile v) \<and>
       os_procs v = insert (GetPID v) (os_procs w) \<and> vs_physicalFile v \<noteq> None \<and> vs_terminalFile v \<noteq> None
     else os_open v = os_open w \<and> os_procs v = os_procs w \<and>
       (ce_LookPath env = None \<longrightarrow> vc_PhysicalPortPath config \<notin> os_links v \<and> vc_TerminalPortPath config \<notin> os_links v))"
proof -
  define ok where "ok v e \<longleftrightarrow>
    (if e = None
     then vs_ready v \<and> os_open v = os_open w \<union> set_option (vs_physicalFile v) \<union> set_option (vs_terminalFile v) \<and>
       os_procs v = insert (GetPID v) (os_procs w) \<and> vs_physicalFile v \<noteq> None \<and> vs_terminalFile v \<noteq> None
     else os_open v = os_open w \<and> os_procs v = os_procs w \<and>
       (ce_LookPath env = None \<longrightarrow> vc_PhysicalPortPath config \<notin> os_links v \<and> vc_TerminalPortPath config \<notin> os_links v))"
    for v :: serial_pair and e :: "go_error option"
  have closes: "\<exists>v e. fail_closed obeys err u = Returns v e \<and> ok v e"
    if "ce_Start env = Inr pid" "\<not> vs_mu u" "vs_physicalFile u = None" "vs_terminalFile u = None" "vs_socatProcess u = Some pid"
      "os_open u = os_open w" "os_procs u = insert pid (os_procs w)" "vs_physicalPort u = vc_PhysicalPortPath config"
      "vs_terminalPort u = vc_TerminalPortPath config" for err u pid
  proof -
    note u = that
    from Pair_Close_returns [OF u(2) assms(1)] obtain v where "Pair_Close obeys u = Returns v ()" "os_open v = os_open w"
      "os_procs v = os_procs w" "os_links v = os_links u - {vc_PhysicalPortPath config, vc_TerminalPortPath config}"
      using assms(2) u by auto
    then show ?thesis by (simp add: fail_closed_def ok_def)
  qed
  note defs = CreateVirtualSerialPairWithConfig_def Let_def remove_links_def close_file_def GetPID_def
  have "\<exists>v e. CreateVirtualSerialPairWithConfig env obeys config w = Returns v e \<and> ok v e"
  proof (cases "ce_LookPath env")
    case None
    show ?thesis
    proof (cases "ce_Start env")
      case (Inr pid)
      show ?thesis
      proof (cases "waitForDevices (ce_ticks env)")
        case wait: None
        show ?thesis
        proof (cases "ce_OpenPhysical env")
          case Inl
          with None Inr wait show ?thesis by (simp add: defs) (rule closes [OF Inr]; simp)
        next
          case phys: (Inr fd)
          show ?thesis
          proof (cases "ce_OpenTerminal env")
            case Inl
            with None Inr wait phys assms(3) show ?thesis by (simp add: defs) (rule closes [OF Inr]; simp)
          qed (use None Inr wait phys in \<open>simp add: defs ok_def insert_commute\<close>)
        qed
      next
        case Some
        with None Inr show ?thesis by (simp add: defs) (rule closes [OF Inr]; simp)
      qed
    qed (use None in \<open>simp add: defs ok_def\<close>)
  qed (simp add: defs ok_def)
  then show ?thesis by (simp only: ok_def)
qed

theorem create_pair_no_leak_witness:
  "\<exists>v e. CreateVirtualSerialPairWithConfig
       \<lparr>ce_LookPath = None, ce_Start = Inr 5, ce_ticks = [(Inl IoEOF, Inl IoEOF), (Inr 0x200000, Inr 0x200000)],
        ce_OpenPhysical = Inr 3, ce_OpenTerminal = Inl (SysError ''busy'')\<rparr> (\<lambda>_. True) DefaultVirtualSerialConfig
       (no_pair\<lparr>os_open := {0, 1}, os_procs := {1}\<rparr>) = Returns v (Some e) \<and> os_open v = {0, 1} \<and> os_procs v = {1}"
  (is "\<exists>v e. CreateVirtualSerialPairWithConfig ?env ?obeys ?config ?w = Returns v (Some e) \<and> _")
proof -
  have "checkDevicesReady (Inr 0x200000) (Inr 0x200000)" by (simp add: checkDevicesReady_def ModeCharDevice_def)
  then have "\<not> (\<exists>v. CreateVirtualSerialPairWithConfig ?env ?obeys ?config ?w = Returns v None)"
    by (auto simp: CreateVirtualSerialPairWithConfig_def fail_closed_def Let_def checkDevicesReady_def [of "Inl _"] split: go_call.splits)
  moreover have "\<exists>v e. CreateVirtualSerialPairWithConfig ?env ?obeys ?config ?w = Returns v e \<and>
    (if e = None then vs_ready v \<and> os_open v = os_open ?w \<union> set_option (vs_physicalFile v) \<union> set_option (vs_terminalFile v) \<and>
       os_procs v = insert (GetPID v) (os_procs ?w) \<and> vs_physicalFile v \<noteq> None \<and> vs_terminalFile v \<noteq> None
     else os_open v = os_open ?w \<and> os_procs v = os_procs ?w \<and>
       (ce_LookPath ?env = None \<longrightarrow> vc_PhysicalPortPath ?config \<notin> os_links v \<and> vc_TerminalPortPath ?config \<notin> os_links v))"
    by (rule create_pair_no_leak) simp_all
  ultimately show ?thesis by (auto split: if_splits)
qed

subsection \<open>What the methods do to each other\<close>

text \<open>
  A read waits with the mutex locked. While it waits no method of the pair gets through, not even the
  write that would give it something to read, nor \<open>Close\<close>.
\<close>

theorem pending_read_blocks_pair:
  assumes "\<not> vs_mu w" and "vs_ready w" and "vs_physicalFile w \<noteq> None" and "to_physical w = ''''" and "0 < n"
  shows "\<exists>v. ReadFromPhysical n w = Hangs v \<and> Pair_WriteToTerminal inject data v = Hangs v \<and>
    Pair_WriteToPhysical inject data v = Hangs v \<and> ReadFromTerminal m v = Hangs v \<and> IsReady v = Hangs v \<and> Pair_Close obeys v = Hangs v"
  using assms
  by (simp add: ReadFromPhysical_def Pair_WriteToTerminal_def Pair_WriteToPhysical_def ReadFromTerminal_def IsReady_def
      Pair_Close_def vs_locked_eq)

theorem pending_read_blocks_pair_witness:
  "\<exists>v. ReadFromPhysical 16 (no_pair\<lparr>vs_ready := True, vs_physicalFile := Some 3\<rparr>) = Hangs v \<and>
     Pair_WriteToTerminal None ''ls'' v = Hangs v"
  using pending_read_blocks_pair [of "no_pair\<lparr>vs_ready := True, vs_physicalFile := Some 3\<rparr>" 16, where inject = None and data = "''ls''"]
  by (auto simp: no_pair_def)

text \<open>What \<open>Data_Generator\<close> sees of the pair.\<close>

definition pair_view :: "serial_pair \<Rightarrow> virtual_pair" where
  "pair_view w = \<lparr>vp_ready = vs_ready w, vp_physicalFile = (vs_physicalFile w \<noteq> None), vp_written = to_terminal w\<rparr>"

lemma InjectData_refines:
  assumes "\<not> vs_mu w"
  shows "\<exists>v. Pair_InjectData inject data w = Returns v (snd (InjectData inject data (pair_view w))) \<and>
    pair_view v = fst (InjectData inject data (pair_view w)) \<and> \<not> vs_mu v \<and> to_physical v = to_physical w \<and>
      vs_terminalFile v = vs_terminalFile w"
  using assms
  by (cases inject)
    (auto simp: Pair_InjectData_def Pair_WriteToPhysical_def vs_locked_eq InjectData_def WriteToPhysical_def pair_view_def not_ready_def)

lemma inject_all_refines:
  assumes "\<not> vs_mu w"
  shows "\<exists>v. InjectMultipleLines (map (\<lambda>l. (l, inject (l @ newline))) ls) w =
      Returns v (snd (inject_all inject (map (\<lambda>l. l @ newline) ls) (pair_view w))) \<and>
    pair_view v = fst (inject_all inject (map (\<lambda>l. l @ newline) ls) (pair_view w)) \<and> \<not> vs_mu v \<and> to_physical v = to_physical w \<and>
      vs_terminalFile v = vs_terminalFile w"
  using assms
proof (induction ls arbitrary: w)
  case (Cons l ls)
  obtain u where u: "Pair_InjectData (inject (l @ newline)) (l @ newline) w =
      Returns u (snd (InjectData (inject (l @ newline)) (l @ newline) (pair_view w)))"
    "pair_view u = fst (InjectData (inject (l @ newline)) (l @ newline) (pair_view w))" "\<not> vs_mu u" "to_physical u = to_physical w"
    "vs_terminalFile u = vs_terminalFile w"
    using InjectData_refines [OF Cons.prems] by blast
  show ?case
  proof (cases "snd (InjectData (inject (l @ newline)) (l @ newline) (pair_view w))")
    case None
    with u Cons.IH [OF u(3)] show ?thesis by (simp add: case_prod_unfold)
  next
    case (Some err)
    with u show ?thesis by (simp add: case_prod_unfold)
  qed
qed simp

text \<open>
  \<open>InjectData\<close> is documented as the output of the board, which the server reads: it writes to the physical
  port, the end the server opens. What is written there comes out at the terminal port; a reader of
  the physical port gets nothing of it.
\<close>

theorem injected_data_misses_server:
  assumes "\<not> vs_mu w" and "vs_ready w" and "vs_physicalFile w \<noteq> None" and "vs_terminalFile w \<noteq> None" and "0 < n"
    and "to_physical w = ''''" and "to_terminal w = ''''" and "ls \<noteq> []"
  shows "\<exists>v. InjectMultipleLines (map (\<lambda>l. (l, None)) ls) w = Returns v None \<and>
    ReadFromPhysical n v = Hangs (v\<lparr>vs_mu := True\<rparr>) \<and>
    (\<exists>t. ReadFromTerminal n v = Returns t (take n (concat (map (\<lambda>l. l @ newline) ls)), None))"
proof -
  have all: "inject_all (\<lambda>_. None) ds p = (p\<lparr>vp_written := vp_written p @ concat ds\<rparr>, None)"
    if "vp_ready p" "vp_physicalFile p" for ds and p :: virtual_pair
    using that by (induction ds arbitrary: p) (simp_all add: InjectData_def WriteToPhysical_def)
  have p: "vp_ready (pair_view w)" "vp_physicalFile (pair_view w)" "vp_written (pair_view w) = ''''"
    using assms(2,3,7) by (simp_all add: pair_view_def)
  obtain v where v: "InjectMultipleLines (map (\<lambda>l. (l, None)) ls) w = Returns v None" "\<not> vs_mu v" "to_physical v = ''''"
    "vs_terminalFile v = vs_terminalFile w" "pair_view v = (pair_view w)\<lparr>vp_written := concat (map (\<lambda>l. l @ newline) ls)\<rparr>"
    using inject_all_refines [OF assms(1), of "\<lambda>_. None" ls] all [OF p(1,2)] p(3) assms(6) by auto
  then have "vs_ready v" "vs_physicalFile v \<noteq> None" "to_terminal v = concat (map (\<lambda>l. l @ newline) ls)"
    using assms(2,3) by (auto simp: pair_view_def)
  moreover have "concat (map (\<lambda>l. l @ newline) ls) \<noteq> ''''" using assms(8) by (cases ls) (simp_all add: newline_def)
  ultimately show ?thesis using v assms(4,5) by (auto simp: ReadFromPhysical_def ReadFromTerminal_def vs_locked_eq)
qed

theorem injected_data_misses_server_witness:
  "\<exists>v. InjectMultipleLines [(''boot'', None)]
       (no_pair\<lparr>vs_ready := True, vs_physicalFile := Some 3, vs_terminalFile := Some 4\<rparr>) = Returns v None \<and>
     ReadFromPhysical 64 v = Hangs (v\<lparr>vs_mu := True\<rparr>)"
  using injected_data_misses_server
    [of "no_pair\<lparr>vs_ready := True, vs_physicalFile := Some 3, vs_terminalFile := Some 4\<rparr>" 64 "[''boot'']"]
  by (auto simp: no_pair_def)

end
