(* ===== verification/Pty_Interface.thy ===== *)
theory Pty_Interface
  imports Pty_Device Darwin
begin

text \<open>
  The interface \<open>PTYDevice\<close> of \<open>internal/pty/pty.go\<close>. The locale \<open>terminal\<close> is what the client programs
  rely on: their forwarding loops end because every \<open>Read\<close> and \<open>Write\<close> of a closed device is an error. The
  mock device and the real devices of Linux and macOS provide it, and so does the value that \<open>CreatePTY\<close>
  returns.
\<close>

subsection \<open>The contract\<close>

datatype pty_call = CallRead nat | CallWrite bytes | CallClose | CallSetTermios termios_config

datatype pty_answer = GotRead "go_error + bytes" | GotWrite "go_error + nat" | GotNothing

fun answer_ok :: "pty_answer \<Rightarrow> bool" where
  "answer_ok (GotRead r) = is_ok r"
| "answer_ok (GotWrite r) = is_ok r"
| "answer_ok GotNothing = False"

fun last_termios :: "pty_call list \<Rightarrow> termios_config \<Rightarrow> termios_config" where
  "last_termios [] c = c"
| "last_termios (CallSetTermios d # cs) c = last_termios cs d"
| "last_termios (_ # cs) c = last_termios cs c"

text \<open>\<open>None\<close>: the call waits, for data or for a mutex.\<close>

locale terminal =
  fixes opened :: "'s \<Rightarrow> bool"
    and link :: "'s \<Rightarrow> string"
    and termios :: "'s \<Rightarrow> termios_config"
    and rd :: "nat \<Rightarrow> 's \<Rightarrow> ('s \<times> (go_error + bytes)) option"
    and wr :: "bytes \<Rightarrow> 's \<Rightarrow> ('s \<times> (go_error + nat)) option"
    and cl :: "'s \<Rightarrow> 's option"
    and set_termios :: "termios_config \<Rightarrow> 's \<Rightarrow> 's option"
  assumes rd_keeps: "rd n s = Some (t, r) \<Longrightarrow> opened t = opened s \<and> link t = link s \<and> termios t = termios s"
    and rd_closed: "rd n s = Some (t, r) \<Longrightarrow> \<not> opened s \<Longrightarrow> \<not> is_ok r"
    and wr_keeps: "wr d s = Some (t, q) \<Longrightarrow> opened t = opened s \<and> link t = link s \<and> termios t = termios s"
    and wr_closed: "wr d s = Some (t, q) \<Longrightarrow> \<not> opened s \<Longrightarrow> \<not> is_ok q"
    and cl_closes: "cl s = Some t \<Longrightarrow> \<not> opened t \<and> link t = link s \<and> termios t = termios s"
    and set_sets: "set_termios c s = Some t \<Longrightarrow> opened t = opened s \<and> link t = link s \<and> termios t = c"
begin

fun do_call :: "pty_call \<Rightarrow> 's \<Rightarrow> ('s \<times> pty_answer) option" where
  "do_call (CallRead n) s = map_option (apsnd GotRead) (rd n s)"
| "do_call (CallWrite d) s = map_option (apsnd GotWrite) (wr d s)"
| "do_call CallClose s = map_option (\<lambda>t. (t, GotNothing)) (cl s)"
| "do_call (CallSetTermios c) s = map_option (\<lambda>t. (t, GotNothing)) (set_termios c s)"

fun do_calls :: "pty_call list \<Rightarrow> 's \<Rightarrow> ('s \<times> pty_answer list) option" where
  "do_calls [] s = Some (s, [])"
| "do_calls (c # cs) s =
     (case do_call c s of
        None \<Rightarrow> None
      | Some (t, a) \<Rightarrow> map_option (apsnd (Cons a)) (do_calls cs t))"

lemma do_call_link: "do_call c s = Some (t, a) \<Longrightarrow> link t = link s \<and> termios t = last_termios [c] (termios s)"
  by (cases c) (auto dest: rd_keeps wr_keeps cl_closes set_sets)

lemma do_call_opened: "do_call c s = Some (t, a) \<Longrightarrow> opened t \<longleftrightarrow> opened s \<and> c \<noteq> CallClose"
  by (cases c) (auto dest: rd_keeps wr_keeps cl_closes set_sets)

lemma do_call_closed: "do_call c s = Some (t, a) \<Longrightarrow> \<not> opened s \<Longrightarrow> \<not> answer_ok a"
  by (cases c) (auto dest: rd_closed wr_closed)

lemma last_termios_Cons: "last_termios (c # cs) t = last_termios cs (last_termios [c] t)"
  by (cases c) simp_all

lemma do_calls_state:
  "do_calls cs s = Some (t, as) \<Longrightarrow>
     link t = link s \<and> termios t = last_termios cs (termios s) \<and> (opened t \<longleftrightarrow> opened s \<and> CallClose \<notin> set cs)"
proof (induction cs arbitrary: s as)
  case (Cons c cs)
  from Cons.prems obtain u a bs where u: "do_call c s = Some (u, a)" "do_calls cs u = Some (t, bs)"
    by (auto split: option.splits)
  from Cons.IH [OF u(2)] do_call_link [OF u(1)] do_call_opened [OF u(1)] show ?case
    by (auto simp: last_termios_Cons [of c cs])
qed simp

lemma closed_answers:
  "do_calls cs s = Some (t, as) \<Longrightarrow> \<not> opened s \<Longrightarrow> \<forall>a \<in> set as. \<not> answer_ok a"
proof (induction cs arbitrary: s as)
  case (Cons c cs)
  from Cons.prems(1) obtain u a bs where u: "do_call c s = Some (u, a)" "do_calls cs u = Some (t, bs)" "as = a # bs"
    by (auto split: option.splits)
  from Cons.IH [OF u(2)] do_call_opened [OF u(1)] do_call_closed [OF u(1)] Cons.prems(2) u(3) show ?case by auto
qed simp

text \<open>After the first \<open>Close\<close> nothing succeeds any more.\<close>

lemma nothing_after_close:
  assumes "do_calls (cs @ CallClose # ds) s = Some (t, as)"
  shows "\<forall>a \<in> set (drop (length cs) as). \<not> answer_ok a"
  using assms
proof (induction cs arbitrary: s as)
  case Nil
  then obtain u a bs where u: "do_call CallClose s = Some (u, a)" "do_calls ds u = Some (t, bs)" "as = a # bs"
    by (auto split: option.splits)
  from closed_answers [OF u(2)] cl_closes [of s u] u(1,3) show ?case by auto
next
  case (Cons c cs)
  from Cons.prems obtain u a bs where "do_call c s = Some (u, a)" "do_calls (cs @ CallClose # ds) u = Some (t, bs)" "as = a # bs"
    by (auto split: option.splits)
  with Cons.IH show ?case by auto
qed

end

subsection \<open>The providers\<close>

interpretation mock_terminal: terminal MockPTY_IsOpen MockPTY_SymlinkPath MockPTY_GetTermios
  MockPTY_Read "\<lambda>d m. Some (MockPTY_Write d m)" "\<lambda>m. Some (MockPTY_Close m)" "\<lambda>c m. Some (MockPTY_SetTermios c m)"
  by unfold_locales
    (auto simp: mock_pty_defs MockPTY_SymlinkPath_def MockPTY_GetTermios_def MockPTY_SetTermios_def go_copy_eq split: if_splits)

definition linux_read :: "('o, 'f) pty_os \<Rightarrow> nat \<Rightarrow> 'f real_pty \<times> 'o \<Rightarrow> (('f real_pty \<times> 'o) \<times> (go_error + bytes)) option" where
  "linux_read os n s = (case RealPTYDevice_Read os n (fst s) (snd s) of (w, r) \<Rightarrow> Some ((fst s, w), r))"

definition linux_write :: "('o, 'f) pty_os \<Rightarrow> bytes \<Rightarrow> 'f real_pty \<times> 'o \<Rightarrow> (('f real_pty \<times> 'o) \<times> (go_error + nat)) option" where
  "linux_write os d s = (case RealPTYDevice_Write os d (fst s) (snd s) of (w, r) \<Rightarrow> Some ((fst s, w), r))"

interpretation linux_terminal: terminal "\<lambda>s. RealPTYDevice_IsOpen (fst s)" "\<lambda>s. RealPTYDevice_SymlinkPath (fst s)"
  "\<lambda>s. RealPTYDevice_GetTermios (fst s)" "linux_read os" "linux_write os"
  "\<lambda>s. Some (linux_RealPTYDevice_Close os (fst s) (snd s))" "\<lambda>c s. Some (apfst (RealPTYDevice_SetTermios c) s)"
  for os :: "('o, 'f) pty_os"
  by unfold_locales
    (auto simp: linux_read_def linux_write_def RealPTYDevice_Read_def RealPTYDevice_Write_def RealPTYDevice_IsOpen_def
      RealPTYDevice_SymlinkPath_def RealPTYDevice_GetTermios_def linux_RealPTYDevice_Close_def RealPTYDevice_SetTermios_def
      split: option.splits prod.splits if_splits)

definition regroup :: "('a \<times> 'o \<times> 'r) option \<Rightarrow> (('a \<times> 'o) \<times> 'r) option" where
  "regroup x = map_option (\<lambda>(g, w, r). ((g, w), r)) x"

interpretation darwin_terminal: terminal "\<lambda>s. rp_open (dp_dev (fst s))" "\<lambda>s. rp_symlinkPath (dp_dev (fst s))"
  "\<lambda>s. rp_termios (dp_dev (fst s))" "\<lambda>n s. regroup (darwin_Read os n (fst s) (snd s))"
  "\<lambda>d s. regroup (darwin_Write os d (fst s) (snd s))" "\<lambda>s. map_option fst (regroup (darwin_Close os (fst s) (snd s)))"
  "\<lambda>c s. map_option fst (regroup (darwin_SetTermios c (fst s) (snd s)))"
  for os :: "('o, 'f) pty_os"
  by unfold_locales
    (auto simp: regroup_def darwin_pty_defs darwin_RealPTYDevice_Close_def case_prod_unfold Let_def split: if_splits)

subsection \<open>The interface value\<close>

text \<open>What \<open>CreatePTY\<close> returns on Linux, with the operating system beside it.\<close>

fun PTY_IsOpen :: "'f pty_device \<times> 'o \<Rightarrow> bool" where
  "PTY_IsOpen (RealPTY r, w) = RealPTYDevice_IsOpen r"
| "PTY_IsOpen (MockPTY m, w) = MockPTY_IsOpen m"

fun PTY_SymlinkPath :: "'f pty_device \<times> 'o \<Rightarrow> string" where
  "PTY_SymlinkPath (RealPTY r, w) = RealPTYDevice_SymlinkPath r"
| "PTY_SymlinkPath (MockPTY m, w) = MockPTY_SymlinkPath m"

fun PTY_GetTermios :: "'f pty_device \<times> 'o \<Rightarrow> termios_config" where
  "PTY_GetTermios (RealPTY r, w) = RealPTYDevice_GetTermios r"
| "PTY_GetTermios (MockPTY m, w) = MockPTY_GetTermios m"

fun PTY_Read :: "('o, 'f) pty_os \<Rightarrow> nat \<Rightarrow> 'f pty_device \<times> 'o \<Rightarrow> (('f pty_device \<times> 'o) \<times> (go_error + bytes)) option" where
  "PTY_Read os n (RealPTY r, w) = map_option (apfst (apfst RealPTY)) (linux_read os n (r, w))"
| "PTY_Read os n (MockPTY m, w) = map_option (apfst (\<lambda>m'. (MockPTY m', w))) (MockPTY_Read n m)"

fun PTY_Write :: "('o, 'f) pty_os \<Rightarrow> bytes \<Rightarrow> 'f pty_device \<times> 'o \<Rightarrow> (('f pty_device \<times> 'o) \<times> (go_error + nat)) option" where
  "PTY_Write os d (RealPTY r, w) = map_option (apfst (apfst RealPTY)) (linux_write os d (r, w))"
| "PTY_Write os d (MockPTY m, w) = Some (apfst (\<lambda>m'. (MockPTY m', w)) (MockPTY_Write d m))"

fun PTY_Close :: "('o, 'f) pty_os \<Rightarrow> 'f pty_device \<times> 'o \<Rightarrow> 'f pty_device \<times> 'o" where
  "PTY_Close os (RealPTY r, w) = apfst RealPTY (linux_RealPTYDevice_Close os r w)"
| "PTY_Close os (MockPTY m, w) = (MockPTY (MockPTY_Close m), w)"

fun PTY_SetTermios :: "termios_config \<Rightarrow> 'f pty_device \<times> 'o \<Rightarrow> 'f pty_device \<times> 'o" where
  "PTY_SetTermios c (RealPTY r, w) = (RealPTY (RealPTYDevice_SetTermios c r), w)"
| "PTY_SetTermios c (MockPTY m, w) = (MockPTY (MockPTY_SetTermios c m), w)"

text \<open>A device is one of the two providers; what it does, the provider does.\<close>

lemma pty_value_cases:
  obtains r w where "s = (RealPTY r, w)" | m w where "s = (MockPTY m, w)"
  by (metis pty_device.exhaust surj_pair)

interpretation any_terminal: terminal PTY_IsOpen PTY_SymlinkPath PTY_GetTermios "PTY_Read os" "PTY_Write os"
  "\<lambda>s. Some (PTY_Close os s)" "\<lambda>c s. Some (PTY_SetTermios c s)"
  for os :: "('o, 'f) pty_os"
proof unfold_locales
  fix n d c and s t :: "'f pty_device \<times> 'o" and r q
  show "PTY_Read os n s = Some (t, r) \<Longrightarrow>
      PTY_IsOpen t = PTY_IsOpen s \<and> PTY_SymlinkPath t = PTY_SymlinkPath s \<and> PTY_GetTermios t = PTY_GetTermios s"
    by (cases s rule: pty_value_cases) (auto dest: mock_terminal.rd_keeps linux_terminal.rd_keeps)
  show "PTY_Read os n s = Some (t, r) \<Longrightarrow> \<not> PTY_IsOpen s \<Longrightarrow> \<not> is_ok r"
    by (cases s rule: pty_value_cases) (auto dest: mock_terminal.rd_closed linux_terminal.rd_closed)
  show "PTY_Write os d s = Some (t, q) \<Longrightarrow>
      PTY_IsOpen t = PTY_IsOpen s \<and> PTY_SymlinkPath t = PTY_SymlinkPath s \<and> PTY_GetTermios t = PTY_GetTermios s"
    by (cases s rule: pty_value_cases)
      (auto dest: linux_terminal.wr_keeps simp: mock_pty_defs MockPTY_SymlinkPath_def MockPTY_GetTermios_def split: if_splits)
  show "PTY_Write os d s = Some (t, q) \<Longrightarrow> \<not> PTY_IsOpen s \<Longrightarrow> \<not> is_ok q"
    by (cases s rule: pty_value_cases) (auto dest: linux_terminal.wr_closed simp: mock_pty_defs split: if_splits)
  show "Some (PTY_Close os s) = Some t \<Longrightarrow>
      \<not> PTY_IsOpen t \<and> PTY_SymlinkPath t = PTY_SymlinkPath s \<and> PTY_GetTermios t = PTY_GetTermios s"
    by (cases s rule: pty_value_cases)
      (auto simp: linux_RealPTYDevice_Close_def RealPTYDevice_IsOpen_def RealPTYDevice_SymlinkPath_def RealPTYDevice_GetTermios_def
        mock_pty_defs MockPTY_SymlinkPath_def MockPTY_GetTermios_def split: if_splits)
  show "Some (PTY_SetTermios c s) = Some t \<Longrightarrow>
      PTY_IsOpen t = PTY_IsOpen s \<and> PTY_SymlinkPath t = PTY_SymlinkPath s \<and> PTY_GetTermios t = c"
    by (cases s rule: pty_value_cases)
      (auto simp: RealPTYDevice_IsOpen_def RealPTYDevice_SymlinkPath_def RealPTYDevice_GetTermios_def RealPTYDevice_SetTermios_def
        mock_pty_defs MockPTY_SymlinkPath_def MockPTY_GetTermios_def MockPTY_SetTermios_def)
qed

text \<open>
  The device that the Linux client creates, whichever it is: it keeps the name of its link and the last
  settings it was given, is open until the first \<open>Close\<close>, and afterwards no read or write succeeds.
\<close>

theorem created_device_until_closed:
  assumes "CreatePTY (linux_CreateRealPTY os) path w = (w1, Inr dev)"
    and "any_terminal.do_calls os cs (dev, w1) = Some (t, answers)"
  shows "PTY_SymlinkPath t = path \<and> PTY_GetTermios t = last_termios cs default_termios \<and>
    (PTY_IsOpen t \<longleftrightarrow> CallClose \<notin> set cs) \<and>
    (\<forall>before after. cs = before @ CallClose # after \<longrightarrow> (\<forall>a \<in> set (drop (length before) answers). \<not> answer_ok a))"
proof -
  have dev: "PTY_SymlinkPath (dev, w1) = path \<and> PTY_GetTermios (dev, w1) = default_termios \<and> PTY_IsOpen (dev, w1)"
    using assms(1)
    by (auto simp: CreatePTY_def linux_CreateRealPTY_def finish_pty_def Let_def CreateMockPTY_def MockPTY_IsOpen_def
        MockPTY_SymlinkPath_def MockPTY_GetTermios_def RealPTYDevice_IsOpen_def RealPTYDevice_SymlinkPath_def
        RealPTYDevice_GetTermios_def split: prod.splits sum.splits option.splits if_splits)
  from any_terminal.do_calls_state [OF assms(2)] dev any_terminal.nothing_after_close [of os _ _ "(dev, w1)" t answers] assms(2)
  show ?thesis by auto
qed

text \<open>On a system that knows no device: the client gets the mock device.\<close>

definition bare_os :: "(unit, unit) pty_os" where
  "bare_os = \<lparr>po_open = \<lambda>p w. (w, Inl IoEOF), po_close = \<lambda>f w. w, po_unlockpt = \<lambda>f w. (w, 0), po_ptsnumber = \<lambda>f w. (w, Inr 0),
     po_setraw = \<lambda>f w. w, po_remove = \<lambda>p w. w, po_symlink = \<lambda>p q w. (w, None), po_read = \<lambda>n f w. (w, Inl IoEOF),
     po_write = \<lambda>d f w. (w, Inl IoEOF)\<rparr>"

theorem created_device_until_closed_witness:
  "\<exists>t answers. any_terminal.do_calls bare_os [CallWrite [1], CallClose, CallWrite [2]] (MockPTY (CreateMockPTY ''/tmp/v''), ()) =
     Some (t, answers) \<and> answers = [GotWrite (Inr 1), GotNothing, GotWrite (Inl ErrClosed)] \<and> \<not> PTY_IsOpen t"
proof -
  have "CreatePTY (linux_CreateRealPTY bare_os) ''/tmp/v'' () = ((), Inr (MockPTY (CreateMockPTY ''/tmp/v'')))"
    by (simp add: CreatePTY_def linux_CreateRealPTY_def bare_os_def)
  moreover obtain t answers where c: "any_terminal.do_calls bare_os [CallWrite [1], CallClose, CallWrite [2]]
      (MockPTY (CreateMockPTY ''/tmp/v''), ()) = Some (t, answers)" "answers = [GotWrite (Inr 1), GotNothing, GotWrite (Inl ErrClosed)]"
    by (simp add: mock_pty_defs)
  ultimately show ?thesis using created_device_until_closed [of bare_os "''/tmp/v''" "()" "()"] by fastforce
qed

end
