(* ===== verification/Spec2Isabelle.thy ===== *)
theory Spec2Isabelle
  imports Arbiter Serial_Port Port_Sync Port_Platforms Broadcast Tcp_Server Tcp_Exec Tcp_Safety Tcp_Broadcast
    Mock_Server Reconnect Config_File Server_Main Local_Proxy Pty_Device Client_Main Scanner
    Log_Parser Cli Report_Gen Tcp_Progress End_To_End
    Tcp_Refine Tcp_Fair Darwin Windows_Server Client_Shutdown Log_Scan Report_Output Data_Generator
    Server_Interface Process_Manager Virtual_Serial Pty_Interface
begin

text \<open>
  ShareSerial shares one serial port over TCP: a server program (\<open>cmd/server\<close>, \<open>cmd/server-windows\<close>)
  reads the port and broadcasts what it reads to every connected client, and writes to the port what
  the client with the write lock sends. The Linux client (\<open>cmd/client\<close>) puts a pseudo terminal at
  the other end, the Windows client (\<open>cmd/client-windows\<close>) a local TCP proxy. A command line
  (\<open>cmd/cli\<close>), a log parser and a generator of test reports stand beside them.

  \<^bold>\<open>Theories and what they model.\<close>

  \<^item> \<open>Runs\<close>, \<open>Go_Base\<close>, \<open>Buffers\<close>, \<open>Go_Strings\<close>, \<open>Go_Regexp\<close>, \<open>Go_Json\<close>, \<open>Go_Float\<close>: the prelude. Bytes are 8-bit words,
    strings lists of bytes, errors and panics values of a sum, channels a record with capacity and
    closed flag, Go's 64-bit integers \<open>int\<close> with \<open>wrap64\<close> where a result can leave their range. The
    locales \<open>byte_stream\<close> (a lossless FIFO of bytes) and \<open>bounded_log\<close> (a buffer that keeps its newest
    bytes) are the contracts of the buffers of the program; \<open>runs\<close>, \<open>event_runs\<close> and \<open>exec_runs\<close> those of its
    step relations and functions on events. \<open>Go_Regexp\<close> has a backtracking matcher for the
    fragment of \<open>regexp\<close> that the program uses, with the language it matches; \<open>Go_Float\<close> rounds to
    float64.
  \<^item> \<open>Arbiter\<close> (\<open>pkg/arbiter/arbiter.go\<close>): the write lock with its timers. A timer is an event that fires
    after its deadline; its callback is a second event. \<open>write_lock\<close> is the lock's contract.
  \<^item> \<open>Serial_Port\<close> (\<open>pkg/serial/serial.go\<close>, \<open>real_serial_linux.go\<close>): handler, mock port and real port over a
    \<open>driver\<close>, which stands for the package \<open>go.bug.st/serial\<close>; the locale \<open>serial_port\<close> is what callers
    rely on. \<open>Port_Platforms\<close>: the port of Windows, under a mutex; \<open>Port_Sync\<close> compares reading
    and writing with and without it. \<open>Scanner\<close>: the scanners of Linux and Windows. \<open>Darwin\<close>: port, scanner
    and pseudo terminal of macOS.
  \<^item> \<open>Broadcast\<close> (\<open>internal/broadcast\<close>): the broadcaster with one goroutine per chunk and client.
  \<^item> \<open>Tcp_Server\<close> (\<open>internal/server/server.go\<close>): the server's methods, and its goroutines as the step
    relation \<open>srv_step\<close>; a handler's control point is a \<open>handler_pc\<close>, one constructor for each access to
    shared state between reading a chunk and writing it. \<open>Tcp_Exec\<close> is an executable counterpart of
    the relation, sound for it. \<open>Tcp_Safety\<close>, \<open>Tcp_Broadcast\<close> and \<open>Tcp_Progress\<close> hold the properties of
    writing, broadcasting and progress; \<open>Tcp_Refine\<close> specifies the server as a multiplexer of one serial
    line and shows that it refines it; \<open>Tcp_Fair\<close> says how the clients share it. \<open>Mock_Server\<close>: the mock server and its connections;
    \<open>Server_Interface\<close>: the contract of both servers as the locale \<open>server\<close>, and how far one stands in for the other.
  \<^item> \<open>Reconnect\<close>, \<open>Config_File\<close>, \<open>Local_Proxy\<close>, \<open>Pty_Device\<close> (\<open>internal/...\<close>): reconnecting, the configuration
    and its defaults, the local proxy and the pseudo terminals. \<open>Pty_Interface\<close>: the contract of the terminals as
    the locale \<open>terminal\<close>.
  \<^item> \<open>Server_Main\<close> and \<open>Client_Main\<close>: the programs, which run these components together; \<open>Windows_Server\<close>: the
    server over the serial port with a mutex; \<open>Client_Shutdown\<close>: how the client of Linux and macOS ends.
  \<^item> \<open>Log_Parser\<close>, \<open>Cli\<close>, \<open>Report_Gen\<close>, \<open>Report_Output\<close>: the log parser, the command line, the report
    generator and its three outputs. \<open>Log_Scan\<close> describes the parser without regular expressions.
  \<^item> \<open>Data_Generator\<close>, \<open>Virtual_Serial\<close>, \<open>Process_Manager\<close> (\<open>tests/simulation\<close>): the generator of the lines that the
    parser reads, the linked terminals it writes to, and the starting and stopping of the programs.
    \<open>Go_Mutex\<close> has the methods that hold a mutex to their end, with the locale \<open>mutex\<close>.
  \<^item> \<open>End_To_End\<close> and this theory: properties across components.

  \<^bold>\<open>How the program is modelled.\<close> A struct is a record with the source's field names under a prefix, a
  method a function on it. A goroutine is a set of control points in a step relation (\<open>srv_step\<close>, \<open>bc_step\<close>,
  \<open>px_step\<close>, \<open>main_step\<close>, \<open>win_step\<close>, \<open>shut_step\<close>, \<open>pty_step\<close>, \<open>port_step\<close>) or in a function on events (\<open>arb_do\<close>, \<open>rc_do\<close>, \<open>cl_do\<close>, \<open>cm_do\<close>,
  \<open>mk_do\<close>); the steps are the sections between two accesses to shared state, so every interleaving of
  the source is one of steps. A mutex is explicit only where it is kept over a call that may block
  (\<open>Local_Proxy\<close>, \<open>Port_Sync\<close>, \<open>Port_Platforms\<close>, \<open>Pty_Device\<close>, \<open>Darwin\<close>, \<open>Windows_Server\<close>, \<open>Client_Shutdown\<close>,
  \<open>Virtual_Serial\<close>, \<open>Process_Manager\<close>). Names that begin with \<open>g_\<close> are ghosts: they record a history and
  influence nothing. The network, the clock, the file system, the operating system and packages
  that are not in the repository are parameters or the outcomes of events.

  \<^bold>\<open>What is shown.\<close> The invariants of the server's state and of its queue; exclusion of the writers
  and where it ends; order and completeness along both directions, each for one component and then
  end to end; progress and termination of the handlers; the refinement of an abstract multiplexer by
  the whole server, and of an abstract lock by the arbiter, with the life of a grant; that no
  client keeps the line, and that one can be starved of it; the end of the
  client, and where it does not end; bounds of buffers and retries; no leaked file on any failure path of the pseudo
  terminals; round trips of configuration, addresses and JSON; agreement of hand-written code with
  reference definitions; the parser and its regular expressions against a scanner
  by hand, on every line; the mock server in the place of the TCP server, call by call; bounds of a float64 rate in spite of its roundings; that names cannot forge the
  markup of the HTML report; the functional behaviour of scanners, parsers and filters on every input.
  Several properties are runs that show a defect.

  \<^bold>\<open>Bounds and fuel.\<close> \<open>Split_fuel\<close>, \<open>trim_left_fuel\<close> and \<open>trim_right_fuel\<close> get the length of their input, and
  every turn consumes at least one byte; \<open>many\<close> in \<open>Go_Regexp\<close> gets the length of what is left and
  stops when a turn consumes nothing; \<open>format_float\<close> tries up to 30 decimals, and a float64 above
  \<open>10 powi -6\<close> needs at most 23. No other definition has fuel. Counters are assumed to stay
  within 64 bits where a property says so.

  \<^bold>\<open>Not modelled.\<close> Log messages; the tests, and of their helpers \<open>terminal_automation.go\<close>, which only runs
  a Python script and decodes its answer; \<open>time.Sleep\<close>, whose effect is only to allow other steps. Of \<open>encoding/json\<close>, \<open>html/template\<close>,
  \<open>regexp\<close> and float64 the fragment is modelled that the program uses.
\<close>

subsection \<open>The command line against the TCP server\<close>

definition wire :: "string \<Rightarrow> bytes" where
  "wire s = map (\<lambda>c. of_nat (of_char c)) s"

text \<open>C18: The server has no command protocol. A request of the command line that reaches a connection's
  handler while the write lock is free is serial data: it takes the lock for the connection and goes out
  on the serial line byte for byte, \<open>GET_LOG\<close> as well as \<open>SEND:\<close> with its prefix.\<close>

theorem cli_request_is_serial_data:
  assumes "srv_steps drv (srv_init addr port) es s" and "hp s h = HRead" and "\<not> cn_closed (cn s h)"
    and "lock_view (the_arb s) = None" and "cli_request args = Some req" and "length req \<le> 1024"
  shows "\<exists>t. srv_steps drv s [ReadOk h (wire req), Check h, First h, Guard h, SerialWrite h] t \<and>
    g_writes t = g_writes s @ [(h, wire req)] \<and> lock_view (the_arb t) = Some (hid s h) \<and>
    ts_serial (sv t) = map_option (\<lambda>p. fst (Port_Write drv (wire req) p)) (ts_serial (sv s))"
proof -
  have "req \<noteq> []" using assms(5) by (auto simp: cli_request_def split: if_splits)
  then have ne: "wire req \<noteq> []" by (simp add: wire_def)
  let ?u = "Tcp_Server.at s h (HCheck (wire req))"
  have "srv_step drv s (ReadOk h (wire req)) (Tcp_Server.at s h (if wire req = [] then HRead else HCheck (wire req)))"
    by (rule srv_step.read_ok) (use assms(2,3,6) in \<open>simp_all add: wire_def\<close>)
  then have st: "srv_step drv s (ReadOk h (wire req)) ?u" using ne by simp
  have "srv_steps drv (srv_init addr port) (es @ [ReadOk h (wire req)]) ?u"
    unfolding srv_steps_append using assms(1) st by (auto simp: srv_steps_Cons srv_steps_Nil)
  from free_lock_chunk [OF this, of h "wire req"] assms(4) obtain t
    where t: "srv_steps drv ?u [Check h, First h, Guard h, SerialWrite h] t"
      "g_writes t = g_writes s @ [(h, wire req)]" "lock_view (the_arb t) = Some (hid s h)"
      "ts_serial (sv t) = map_option (\<lambda>p. fst (Port_Write drv (wire req) p)) (ts_serial (sv s))"
    by auto
  from st t(1) have "srv_steps drv s [ReadOk h (wire req), Check h, First h, Guard h, SerialWrite h] t"
    by (auto simp: srv_steps_Cons [of _ _ "ReadOk h (wire req)"])
  with t(2-4) show ?thesis by blast
qed

theorem cli_request_is_serial_data_witness:
  "\<exists>s t. srv_steps loopback s [ReadOk 0 (wire (''GET_LOG'' @ [nl])), Check 0, First 0, Guard 0, SerialWrite 0] t \<and>
     g_writes t = [(0, wire (''GET_LOG'' @ [nl]))]"
proof -
  let ?s = "two_clients (MockPort NewMockSerialPort)"
  have "lock_view (the_arb ?s) = None" "hp ?s 0 = HRead" "\<not> cn_closed (cn ?s 0)" "g_writes ?s = []"
    by (simp_all add: srv_run_simps lock_view_def)
  moreover have "cli_request [''log''] = Some (''GET_LOG'' @ [nl])" "length (''GET_LOG'' @ [nl]) \<le> 1024"
    by (simp_all add: cli_request_def)
  ultimately show ?thesis
    using cli_request_is_serial_data [where drv = loopback and h = 0 and args = "[''log'']" and req = "''GET_LOG'' @ [nl]",
        OF two_clients_reached] by (metis append_Nil)
qed

end
